theory Spec2Isabelle
  imports Complex_Main "HOL-Library.Multiset"
begin

section \<open>Tensors and the primitives of the tensor library\<close>

text \<open>
  The modules of \<^verbatim>\<open>models.py\<close> are written over the tensor library's primitives
  (\<^verbatim>\<open>torch.mm\<close>, \<^verbatim>\<open>torch.spmm\<close>, broadcasting \<^verbatim>\<open>+\<close>, \<^verbatim>\<open>F.relu\<close>, \<^verbatim>\<open>F.dropout\<close>,
  \<^verbatim>\<open>nn.Linear\<close>, \<^verbatim>\<open>uniform_\<close>). They are modelled here by their documented meaning.
  Only tensors of rank one and two occur. A tensor entry is a real number; the 32-bit
  floats of the program are among them. The primitives of this section apply no rounding to
  their results. The section on rounded arithmetic below gives the arithmetic primitives
  once more with every result rounded as the float operations round it, and the forward
  pass of GraphConvolution and of Encoder over them: the statements about the numbers
  that these two return are made there.
\<close>

datatype error =
    ShapeError          \<comment> \<open>RuntimeError: operand shapes do not fit\<close>
  | NegativeDimension   \<comment> \<open>RuntimeError: a tensor with a negative dimension was requested\<close>
  | ZeroDivisionError   \<comment> \<open>Python's float division by zero\<close>
  | ValueError          \<comment> \<open>dropout probability outside of the closed unit interval\<close>
  | RangeError          \<comment> \<open>RuntimeError: uniform\_ expects from \<le> to\<close>
  | NoSuchParameter     \<comment> \<open>a reference to a parameter that was never allocated\<close>

datatype tensor = Vec "real list" | Mat nat nat "real list list"

fun wf_tensor :: "tensor \<Rightarrow> bool" where
  "wf_tensor (Vec v) = True"
| "wf_tensor (Mat n m rs) = (length rs = n \<and> list_all (\<lambda>r. length r = m) rs)"

fun numel :: "tensor \<Rightarrow> nat" where
  "numel (Vec v) = length v"
| "numel (Mat n m rs) = n * m"

definition bindE :: "error + 'a \<Rightarrow> ('a \<Rightarrow> error + 'b) \<Rightarrow> error + 'b" where
  "bindE m f = (case m of Inl e \<Rightarrow> Inl e | Inr x \<Rightarrow> f x)"

definition dot :: "real list \<Rightarrow> real list \<Rightarrow> real" where
  "dot u v = sum_list (map2 (*) u v)"

definition column :: "real list list \<Rightarrow> nat \<Rightarrow> real list" where
  "column rs j = map (\<lambda>r. r ! j) rs"

text \<open>\<^verbatim>\<open>torch.mm\<close>: the product of two matrices; anything else is a shape error.\<close>

fun mm :: "tensor \<Rightarrow> tensor \<Rightarrow> error + tensor" where
  "mm (Mat n k a) (Mat k' m b) =
     (if k = k' then Inr (Mat n m (map (\<lambda>r. map (\<lambda>j. dot r (column b j)) [0..<m]) a))
      else Inl ShapeError)"
| "mm _ _ = Inl ShapeError"

text \<open>\<^verbatim>\<open>torch.spmm\<close>: the same product; the sparse storage of the left operand is not
  modelled.\<close>

definition spmm :: "tensor \<Rightarrow> tensor \<Rightarrow> error + tensor" where
  "spmm a b = mm a b"

text \<open>Broadcasting addition. An axis of extent one is stretched to the extent of the other
  operand; a vector is read as a matrix of one row.\<close>

definition bdim :: "nat \<Rightarrow> nat \<Rightarrow> nat option" where
  "bdim a b = (if a = b then Some a else if a = 1 then Some b else if b = 1 then Some a else None)"

definition pick :: "nat \<Rightarrow> nat \<Rightarrow> nat" where
  "pick d i = (if d = 1 then 0 else i)"

definition add2 ::
  "nat \<Rightarrow> nat \<Rightarrow> real list list \<Rightarrow> nat \<Rightarrow> nat \<Rightarrow> real list list \<Rightarrow> error + (nat \<times> nat \<times> real list list)" where
  "add2 n c a m k b =
     (case (bdim n m, bdim c k) of
        (Some r, Some s) \<Rightarrow>
          Inr (r, s, map (\<lambda>i. map (\<lambda>j. a ! pick n i ! pick c j + b ! pick m i ! pick k j) [0..<s]) [0..<r])
      | _ \<Rightarrow> Inl ShapeError)"

fun add :: "tensor \<Rightarrow> tensor \<Rightarrow> error + tensor" where
  "add (Mat n c a) (Mat m k b) = bindE (add2 n c a m k b) (\<lambda>(r, s, x). Inr (Mat r s x))"
| "add (Mat n c a) (Vec v) = bindE (add2 n c a 1 (length v) [v]) (\<lambda>(r, s, x). Inr (Mat r s x))"
| "add (Vec u) (Mat m k b) = bindE (add2 1 (length u) [u] m k b) (\<lambda>(r, s, x). Inr (Mat r s x))"
| "add (Vec u) (Vec v) = bindE (add2 1 (length u) [u] 1 (length v) [v]) (\<lambda>(r, s, x). Inr (Vec (hd x)))"

text \<open>\<^verbatim>\<open>F.relu\<close>: the entrywise maximum with zero.\<close>

fun relu :: "tensor \<Rightarrow> tensor" where
  "relu (Vec v) = Vec (map (max 0) v)"
| "relu (Mat n m rs) = Mat n m (map (map (max 0)) rs)"

text \<open>\<^verbatim>\<open>F.linear\<close>: \<open>x \<cdot> W\<^sup>T + b\<close> for a weight of shape (out, in).\<close>

fun linear :: "tensor \<Rightarrow> tensor \<Rightarrow> tensor \<Rightarrow> error + tensor" where
  "linear (Mat n k x) (Mat out k' w) b =
     (if k = k' then add (Mat n out (map (\<lambda>r. map (dot r) w) x)) b else Inl ShapeError)"
| "linear (Vec x) (Mat out k' w) b =
     (if length x = k' then add (Vec (map (dot x) w)) b else Inl ShapeError)"
| "linear _ _ _ = Inl ShapeError"

section \<open>The world: parameter store and random generator\<close>

text \<open>
  A \<^verbatim>\<open>Parameter\<close> is an object that modules refer to; the store holds the value of every
  parameter allocated so far, and a module holds addresses into it. The default random
  generator is a sequence of draws from the unit interval and the number of draws
  consumed so far.
\<close>

record world =
  params :: "tensor list"
  rng_draws :: "nat \<Rightarrow> real"
  rng_pos :: nat

definition Parameter :: "tensor \<Rightarrow> world \<Rightarrow> nat \<times> world" where
  "Parameter t w = (length (params w), w\<lparr>params := params w @ [t]\<rparr>)"

definition deref :: "world \<Rightarrow> nat \<Rightarrow> error + tensor" where
  "deref w a = (if a < length (params w) then Inr (params w ! a) else Inl NoSuchParameter)"

text \<open>\<^verbatim>\<open>torch.FloatTensor(n, m)\<close> and \<^verbatim>\<open>torch.FloatTensor(n)\<close>: a fresh tensor of the given
  shape. Its contents are unspecified in the library; every constructor below overwrites
  them before it returns.\<close>

definition FloatTensor2 :: "int \<Rightarrow> int \<Rightarrow> error + tensor" where
  "FloatTensor2 n m =
     (if n < 0 \<or> m < 0 then Inl NegativeDimension
      else Inr (Mat (nat n) (nat m) (replicate (nat n) (replicate (nat m) 0))))"

definition FloatTensor1 :: "int \<Rightarrow> error + tensor" where
  "FloatTensor1 n = (if n < 0 then Inl NegativeDimension else Inr (Vec (replicate (nat n) 0)))"

text \<open>Filling a tensor from the generator: entry number \<open>k\<close> (row-major) is computed by
  \<open>f\<close> from draw \<open>rng_pos + k\<close> and the old entry.\<close>

fun fill :: "(real \<Rightarrow> real \<Rightarrow> real) \<Rightarrow> (nat \<Rightarrow> real) \<Rightarrow> nat \<Rightarrow> tensor \<Rightarrow> tensor" where
  "fill f d p (Vec v) = Vec (map (\<lambda>j. f (d (p + j)) (v ! j)) [0..<length v])"
| "fill f d p (Mat n m rs) =
     Mat n m (map (\<lambda>i. map (\<lambda>j. f (d (p + i * m + j)) (rs ! i ! j)) [0..<m]) [0..<n])"

text \<open>\<^verbatim>\<open>t.data.uniform_(lo, hi)\<close> on the parameter at address \<open>a\<close>: every entry becomes
  \<open>lo + u \<cdot> (hi - lo)\<close> for a fresh draw \<open>u\<close>.\<close>

definition uniform_inplace :: "nat \<Rightarrow> real \<Rightarrow> real \<Rightarrow> world \<Rightarrow> error + world" where
  "uniform_inplace a lo hi w =
     bindE (deref w a) (\<lambda>t.
       if hi < lo then Inl RangeError
       else Inr (w\<lparr>params := (params w)[a := fill (\<lambda>u _. lo + u * (hi - lo)) (rng_draws w) (rng_pos w) t],
                  rng_pos := rng_pos w + numel t\<rparr>))"

text \<open>\<^verbatim>\<open>F.dropout(x, p, training)\<close>. The probability is checked on every call. Outside of
  training, with \<open>p = 0\<close> or on an empty tensor the input is returned; with \<open>p = 1\<close> the
  result is zero; otherwise an entry survives, scaled by \<open>1 / (1 - p)\<close>, when its draw is
  below \<open>1 - p\<close>.\<close>

definition dropout :: "tensor \<Rightarrow> real \<Rightarrow> bool \<Rightarrow> world \<Rightarrow> error + (tensor \<times> world)" where
  "dropout x p training w =
     (if p < 0 \<or> 1 < p then Inl ValueError
      else if p = 0 \<or> \<not> training \<or> numel x = 0 then Inr (x, w)
      else if p = 1 then Inr (fill (\<lambda>_ _. 0) (rng_draws w) (rng_pos w) x, w)
      else Inr (fill (\<lambda>u v. if u < 1 - p then v / (1 - p) else 0) (rng_draws w) (rng_pos w) x,
                w\<lparr>rng_pos := rng_pos w + numel x\<rparr>))"

section \<open>GraphConvolution\<close>

record GraphConvolution =
  in_features :: int
  out_features :: int
  weight :: nat
  bias :: "nat option"

text \<open>\<^verbatim>\<open>self.weight.size(1)\<close>.\<close>

fun size1 :: "tensor \<Rightarrow> error + nat" where
  "size1 (Mat n m rs) = Inr m"
| "size1 (Vec v) = Inl ShapeError"

definition reset_parameters :: "GraphConvolution \<Rightarrow> world \<Rightarrow> error + world" where
  "reset_parameters self w =
     bindE (deref w (weight self)) (\<lambda>t.
     bindE (size1 t) (\<lambda>m.
       if sqrt (real m) = 0 then Inl ZeroDivisionError
       else let stdv = 1 / sqrt (real m) in
         bindE (uniform_inplace (weight self) (- stdv) stdv w) (\<lambda>w1.
           case bias self of
             Some b \<Rightarrow> uniform_inplace b (- stdv) stdv w1
           | None \<Rightarrow> Inr w1)))"

definition GraphConvolution_init :: "int \<Rightarrow> int \<Rightarrow> bool \<Rightarrow> world \<Rightarrow> error + (GraphConvolution \<times> world)" where
  "GraphConvolution_init n_in n_out use_bias w =
     bindE (FloatTensor2 n_in n_out) (\<lambda>t.
       case Parameter t w of (wa, w1) \<Rightarrow>
         bindE (if use_bias
                then bindE (FloatTensor1 n_out) (\<lambda>b. case Parameter b w1 of (ba, w2) \<Rightarrow> Inr (Some ba, w2))
                else Inr (None, w1)) (\<lambda>(bo, w2).
           let self = \<lparr>in_features = n_in, out_features = n_out, weight = wa, bias = bo\<rparr> in
           bindE (reset_parameters self w2) (\<lambda>w3. Inr (self, w3))))"

definition GraphConvolution_forward ::
  "GraphConvolution \<Rightarrow> tensor \<Rightarrow> tensor \<Rightarrow> world \<Rightarrow> error + (tensor \<times> world)" where
  "GraphConvolution_forward self input adj w =
     bindE (deref w (weight self)) (\<lambda>W.
     bindE (mm input W) (\<lambda>support.
     bindE (spmm adj support) (\<lambda>output.
       case bias self of
         Some b \<Rightarrow> bindE (deref w b) (\<lambda>bv. bindE (add output bv) (\<lambda>r. Inr (r, w)))
       | None \<Rightarrow> Inr (output, w))))"

section \<open>Linear\<close>

text \<open>
  \<^verbatim>\<open>nn.Linear(n_in, n_out)\<close> belongs to the tensor library. Its weight has shape
  (n\_out, n\_in), its bias is always present here, and its default initialisation draws
  the weight uniformly within the Kaiming bound for \<open>a = sqrt 5\<close> (nothing is drawn for a
  weight without entries) and the bias uniformly within \<open>1 / sqrt fan_in\<close>, or within zero
  when \<open>fan_in = 0\<close>.
\<close>

record Linear =
  lin_in_features :: int
  lin_out_features :: int
  lin_weight :: nat
  lin_bias :: nat

definition kaiming_bound :: "nat \<Rightarrow> real" where
  "kaiming_bound fan = sqrt 3 * (sqrt (2 / (1 + (sqrt 5)\<^sup>2)) / sqrt (real fan))"

definition Linear_reset_parameters :: "Linear \<Rightarrow> world \<Rightarrow> error + world" where
  "Linear_reset_parameters self w =
     bindE (deref w (lin_weight self)) (\<lambda>t.
     bindE (size1 t) (\<lambda>fan_in.
     bindE (if numel t = 0 then Inr w
            else uniform_inplace (lin_weight self) (- kaiming_bound fan_in) (kaiming_bound fan_in) w) (\<lambda>w1.
       let bound = (if 0 < fan_in then 1 / sqrt (real fan_in) else 0) in
       uniform_inplace (lin_bias self) (- bound) bound w1)))"

definition Linear_init :: "int \<Rightarrow> int \<Rightarrow> world \<Rightarrow> error + (Linear \<times> world)" where
  "Linear_init n_in n_out w =
     bindE (FloatTensor2 n_out n_in) (\<lambda>t.
       case Parameter t w of (wa, w1) \<Rightarrow>
         bindE (FloatTensor1 n_out) (\<lambda>b.
           case Parameter b w1 of (ba, w2) \<Rightarrow>
             let self = \<lparr>lin_in_features = n_in, lin_out_features = n_out, lin_weight = wa, lin_bias = ba\<rparr> in
             bindE (Linear_reset_parameters self w2) (\<lambda>w3. Inr (self, w3))))"

definition Linear_forward :: "Linear \<Rightarrow> tensor \<Rightarrow> world \<Rightarrow> error + (tensor \<times> world)" where
  "Linear_forward self input w =
     bindE (deref w (lin_weight self)) (\<lambda>W.
     bindE (deref w (lin_bias self)) (\<lambda>b.
     bindE (linear input W b) (\<lambda>y. Inr (y, w))))"

section \<open>Encoder\<close>

text \<open>Every module starts in training mode; \<^verbatim>\<open>train()\<close> and \<^verbatim>\<open>eval()\<close> of the library
  set the flag. Only Encoder and Discriminator read it.\<close>

record Encoder =
  gc1 :: GraphConvolution
  gc2 :: GraphConvolution
  Encoder_dropout :: real
  Encoder_training :: bool

definition Encoder_init :: "int \<Rightarrow> int \<Rightarrow> real \<Rightarrow> world \<Rightarrow> error + (Encoder \<times> world)" where
  "Encoder_init nfeat nhid p w =
     bindE (GraphConvolution_init nfeat nhid True w) (\<lambda>(g1, w1).
     bindE (GraphConvolution_init nhid nhid True w1) (\<lambda>(g2, w2).
       Inr (\<lparr>gc1 = g1, gc2 = g2, Encoder_dropout = p, Encoder_training = True\<rparr>, w2)))"

definition Encoder_forward :: "Encoder \<Rightarrow> tensor \<Rightarrow> tensor \<Rightarrow> world \<Rightarrow> error + (tensor \<times> world)" where
  "Encoder_forward self x adj w =
     bindE (dropout x (Encoder_dropout self) (Encoder_training self) w) (\<lambda>(x1, w1).
     bindE (GraphConvolution_forward (gc1 self) x1 adj w1) (\<lambda>(h, w2).
       let x2 = relu h in
       bindE (dropout x2 (Encoder_dropout self) (Encoder_training self) w2) (\<lambda>(x3, w3).
         GraphConvolution_forward (gc2 self) x3 adj w3)))"

section \<open>Discriminator\<close>

record Discriminator =
  lr1 :: Linear
  lr2 :: Linear
  Discriminator_dropout :: real
  Discriminator_training :: bool

definition Discriminator_init :: "int \<Rightarrow> int \<Rightarrow> real \<Rightarrow> world \<Rightarrow> error + (Discriminator \<times> world)" where
  "Discriminator_init nin nout p w =
     bindE (Linear_init nin (nin div 2) w) (\<lambda>(l1, w1).
     bindE (Linear_init (nin div 2) nout w1) (\<lambda>(l2, w2).
       Inr (\<lparr>lr1 = l1, lr2 = l2, Discriminator_dropout = p, Discriminator_training = True\<rparr>, w2)))"

definition Discriminator_forward :: "Discriminator \<Rightarrow> tensor \<Rightarrow> world \<Rightarrow> error + (tensor \<times> world)" where
  "Discriminator_forward self x w =
     (let x0 = relu x in
      bindE (dropout x0 (Discriminator_dropout self) (Discriminator_training self) w) (\<lambda>(x1, w1).
      bindE (Linear_forward (lr1 self) x1 w1) (\<lambda>(h, w2).
        let x2 = relu h in
        bindE (dropout x2 (Discriminator_dropout self) (Discriminator_training self) w2) (\<lambda>(x3, w3).
          Linear_forward (lr2 self) x3 w3))))"

section \<open>MultiTask and SingleTask\<close>

record MultiTask =
  encoder :: Encoder
  dis_neighbor :: Discriminator
  dis_anomlay :: Discriminator

definition MultiTask_init :: "int \<Rightarrow> int \<Rightarrow> int \<Rightarrow> real \<Rightarrow> world \<Rightarrow> error + (MultiTask \<times> world)" where
  "MultiTask_init nfeat nhid nout p w =
     bindE (Encoder_init nfeat nhid p w) (\<lambda>(e, w1).
     bindE (Discriminator_init nhid nout p w1) (\<lambda>(dn, w2).
     bindE (Discriminator_init nhid 2 p w2) (\<lambda>(da, w3).
       Inr (\<lparr>encoder = e, dis_neighbor = dn, dis_anomlay = da\<rparr>, w3))))"

definition MultiTask_forward ::
  "MultiTask \<Rightarrow> tensor \<Rightarrow> tensor \<Rightarrow> world \<Rightarrow> error + ((tensor \<times> tensor \<times> tensor) \<times> world)" where
  "MultiTask_forward self x adj w =
     bindE (Encoder_forward (encoder self) x adj w) (\<lambda>(x', w1).
     bindE (Discriminator_forward (dis_neighbor self) x' w1) (\<lambda>(pred_nc, w2).
     bindE (Discriminator_forward (dis_anomlay self) x' w2) (\<lambda>(pred_ad, w3).
       Inr ((x', pred_nc, pred_ad), w3))))"

record SingleTask =
  SingleTask_encoder :: Encoder
  discriminator :: Discriminator

definition SingleTask_init :: "int \<Rightarrow> int \<Rightarrow> int \<Rightarrow> real \<Rightarrow> world \<Rightarrow> error + (SingleTask \<times> world)" where
  "SingleTask_init nfeat nhid nout p w =
     bindE (Encoder_init nfeat nhid p w) (\<lambda>(e, w1).
     bindE (Discriminator_init nhid nout p w1) (\<lambda>(d, w2).
       Inr (\<lparr>SingleTask_encoder = e, discriminator = d\<rparr>, w2)))"

definition SingleTask_forward ::
  "SingleTask \<Rightarrow> tensor \<Rightarrow> tensor \<Rightarrow> world \<Rightarrow> error + ((tensor \<times> tensor) \<times> world)" where
  "SingleTask_forward self x adj w =
     bindE (Encoder_forward (SingleTask_encoder self) x adj w) (\<lambda>(x', w1).
     bindE (Discriminator_forward (discriminator self) x' w1) (\<lambda>(pred, w2).
       Inr ((x', pred), w2)))"

section \<open>Notions used in the statements\<close>

text \<open>The current value of a layer's weight and bias, read from the store.\<close>

definition weight_of :: "GraphConvolution \<Rightarrow> world \<Rightarrow> real list list" where
  "weight_of self w = (case deref w (weight self) of Inr (Mat n m W) \<Rightarrow> W | _ \<Rightarrow> [])"

definition bias_of :: "GraphConvolution \<Rightarrow> world \<Rightarrow> real list" where
  "bias_of self w =
     (case bias self of
        Some b \<Rightarrow> (case deref w b of Inr (Vec v) \<Rightarrow> v | _ \<Rightarrow> [])
      | None \<Rightarrow> [])"

text \<open>The parameters of a layer are in the store with the shapes the layer declares. The
  constructor establishes this; an optimizer that changes entries keeps it.\<close>

definition GraphConvolution_inv :: "GraphConvolution \<Rightarrow> world \<Rightarrow> bool" where
  "GraphConvolution_inv self w =
     ((case deref w (weight self) of
         Inr (Mat n m W) \<Rightarrow> in_features self = int n \<and> out_features self = int m \<and> wf_tensor (Mat n m W)
       | _ \<Rightarrow> False) \<and>
      (case bias self of
         None \<Rightarrow> True
       | Some b \<Rightarrow> (case deref w b of Inr (Vec v) \<Rightarrow> out_features self = int (length v) | _ \<Rightarrow> False)))"

text \<open>What \<^verbatim>\<open>reset_parameters\<close> leaves in a weight of shape (n, m) and in a bias of length
  m that is filled after it.\<close>

definition init_weight :: "nat \<Rightarrow> nat \<Rightarrow> world \<Rightarrow> tensor" where
  "init_weight n m w =
     Mat n m (map (\<lambda>i. map (\<lambda>j. - (1 / sqrt (real m))
                 + rng_draws w (rng_pos w + i * m + j) * (1 / sqrt (real m) - - (1 / sqrt (real m))))
               [0..<m]) [0..<n])"

definition init_bias :: "nat \<Rightarrow> nat \<Rightarrow> world \<Rightarrow> tensor" where
  "init_bias n m w =
     Vec (map (\<lambda>j. - (1 / sqrt (real m))
            + rng_draws w (rng_pos w + n * m + j) * (1 / sqrt (real m) - - (1 / sqrt (real m))))
          [0..<m])"

text \<open>The same for a Linear layer, and for the composed modules: every layer keeps its
  shapes and the widths of consecutive layers fit.\<close>

definition Linear_inv :: "Linear \<Rightarrow> world \<Rightarrow> bool" where
  "Linear_inv self w =
     ((case deref w (lin_weight self) of
         Inr (Mat n m W) \<Rightarrow> lin_out_features self = int n \<and> lin_in_features self = int m \<and> wf_tensor (Mat n m W)
       | _ \<Rightarrow> False) \<and>
      (case deref w (lin_bias self) of
         Inr (Vec v) \<Rightarrow> lin_out_features self = int (length v)
       | _ \<Rightarrow> False))"

definition Encoder_inv :: "Encoder \<Rightarrow> world \<Rightarrow> bool" where
  "Encoder_inv self w =
     (GraphConvolution_inv (gc1 self) w \<and> GraphConvolution_inv (gc2 self) w \<and>
      out_features (gc1 self) = in_features (gc2 self))"

definition Discriminator_inv :: "Discriminator \<Rightarrow> world \<Rightarrow> bool" where
  "Discriminator_inv self w =
     (Linear_inv (lr1 self) w \<and> Linear_inv (lr2 self) w \<and>
      lin_out_features (lr1 self) = lin_in_features (lr2 self))"

definition MultiTask_inv :: "MultiTask \<Rightarrow> world \<Rightarrow> bool" where
  "MultiTask_inv self w =
     (Encoder_inv (encoder self) w \<and>
      Discriminator_inv (dis_neighbor self) w \<and> Discriminator_inv (dis_anomlay self) w \<and>
      lin_in_features (lr1 (dis_neighbor self)) = out_features (gc2 (encoder self)) \<and>
      lin_in_features (lr1 (dis_anomlay self)) = out_features (gc2 (encoder self)))"

definition SingleTask_inv :: "SingleTask \<Rightarrow> world \<Rightarrow> bool" where
  "SingleTask_inv self w =
     (Encoder_inv (SingleTask_encoder self) w \<and> Discriminator_inv (discriminator self) w \<and>
      lin_in_features (lr1 (discriminator self)) = out_features (gc2 (SingleTask_encoder self)))"

text \<open>The current weight and bias of a Linear layer, and what its constructor leaves in
  them.\<close>

definition lin_weight_of :: "Linear \<Rightarrow> world \<Rightarrow> real list list" where
  "lin_weight_of self w = (case deref w (lin_weight self) of Inr (Mat n m W) \<Rightarrow> W | _ \<Rightarrow> [])"

definition lin_bias_of :: "Linear \<Rightarrow> world \<Rightarrow> real list" where
  "lin_bias_of self w = (case deref w (lin_bias self) of Inr (Vec v) \<Rightarrow> v | _ \<Rightarrow> [])"

definition lin_init_weight :: "nat \<Rightarrow> nat \<Rightarrow> world \<Rightarrow> tensor" where
  "lin_init_weight n_out n_in w =
     Mat n_out n_in (map (\<lambda>i. map (\<lambda>j. - kaiming_bound n_in
                 + rng_draws w (rng_pos w + i * n_in + j) * (kaiming_bound n_in - - kaiming_bound n_in))
               [0..<n_in]) [0..<n_out])"

definition lin_init_bias :: "nat \<Rightarrow> nat \<Rightarrow> world \<Rightarrow> tensor" where
  "lin_init_bias n_out n_in w =
     Vec (map (\<lambda>j. - (if 0 < n_in then 1 / sqrt (real n_in) else 0)
            + rng_draws w (rng_pos w + n_out * n_in + j)
              * ((if 0 < n_in then 1 / sqrt (real n_in) else 0) - - (if 0 < n_in then 1 / sqrt (real n_in) else 0)))
          [0..<n_out])"

text \<open>A call raises when it ends in an error.\<close>

definition raises :: "error + 'a \<Rightarrow> bool" where
  "raises r = (case r of Inl e \<Rightarrow> True | Inr x \<Rightarrow> False)"

text \<open>The result of a call without the world it leaves: the returned tensors, or the error.\<close>

definition outcome :: "error + ('a \<times> world) \<Rightarrow> error + 'a" where
  "outcome r = (case r of Inl e \<Rightarrow> Inl e | Inr (y, w) \<Rightarrow> Inr y)"

text \<open>The pipelines as the specification words them: a chain of stages, each taking the
  tensor and the world the stage before it left.\<close>

type_synonym stage = "tensor \<times> world \<Rightarrow> error + (tensor \<times> world)"

definition then_stage :: "stage \<Rightarrow> stage \<Rightarrow> stage" where
  "then_stage f g = (\<lambda>s. bindE (f s) g)"

definition dropout_stage :: "real \<Rightarrow> bool \<Rightarrow> stage" where
  "dropout_stage p training = (\<lambda>(x, w). dropout x p training w)"

definition relu_stage :: stage where
  "relu_stage = (\<lambda>(x, w). Inr (relu x, w))"

definition GraphConvolution_stage :: "GraphConvolution \<Rightarrow> tensor \<Rightarrow> stage" where
  "GraphConvolution_stage gc adj = (\<lambda>(x, w). GraphConvolution_forward gc x adj w)"

definition Linear_stage :: "Linear \<Rightarrow> stage" where
  "Linear_stage l = (\<lambda>(x, w). Linear_forward l x w)"

text \<open>dropout(X), GraphConvolution(nfeat \<rightarrow> nhid), ReLU, dropout, GraphConvolution(nhid \<rightarrow> nhid).\<close>

definition spec_Encoder_pipeline :: "Encoder \<Rightarrow> tensor \<Rightarrow> stage" where
  "spec_Encoder_pipeline self adj =
     then_stage (dropout_stage (Encoder_dropout self) (Encoder_training self))
    (then_stage (GraphConvolution_stage (gc1 self) adj)
    (then_stage relu_stage
    (then_stage (dropout_stage (Encoder_dropout self) (Encoder_training self))
                (GraphConvolution_stage (gc2 self) adj))))"

text \<open>ReLU(X), dropout, Linear(nin \<rightarrow> nin div 2), ReLU, dropout, Linear(nin div 2 \<rightarrow> nout).\<close>

definition spec_Discriminator_pipeline :: "Discriminator \<Rightarrow> stage" where
  "spec_Discriminator_pipeline self =
     then_stage relu_stage
    (then_stage (dropout_stage (Discriminator_dropout self) (Discriminator_training self))
    (then_stage (Linear_stage (lr1 self))
    (then_stage relu_stage
    (then_stage (dropout_stage (Discriminator_dropout self) (Discriminator_training self))
                (Linear_stage (lr2 self))))))"

text \<open>The parameters a module holds, as \<^verbatim>\<open>parameters()\<close> of the library lists them: the
  addresses of its own and of its submodules' parameters.\<close>

definition GraphConvolution_parameters :: "GraphConvolution \<Rightarrow> nat list" where
  "GraphConvolution_parameters g = weight g # (case bias g of Some b \<Rightarrow> [b] | None \<Rightarrow> [])"

definition Linear_parameters :: "Linear \<Rightarrow> nat list" where
  "Linear_parameters l = [lin_weight l, lin_bias l]"

definition Encoder_parameters :: "Encoder \<Rightarrow> nat list" where
  "Encoder_parameters e = GraphConvolution_parameters (gc1 e) @ GraphConvolution_parameters (gc2 e)"

definition Discriminator_parameters :: "Discriminator \<Rightarrow> nat list" where
  "Discriminator_parameters d = Linear_parameters (lr1 d) @ Linear_parameters (lr2 d)"

text \<open>\<^verbatim>\<open>train(mode)\<close> of the library on a MultiTask: the flag of every submodule is set.\<close>

definition MultiTask_train :: "bool \<Rightarrow> MultiTask \<Rightarrow> MultiTask" where
  "MultiTask_train t m =
     \<lparr>encoder = (encoder m)\<lparr>Encoder_training := t\<rparr>,
      dis_neighbor = (dis_neighbor m)\<lparr>Discriminator_training := t\<rparr>,
      dis_anomlay = (dis_anomlay m)\<lparr>Discriminator_training := t\<rparr>\<rparr>"

text \<open>The permutation matrix of a permutation \<open>sg\<close> of \<open>0, \<dots>, N - 1\<close>, given as the list of
  its values: row \<open>i\<close> has its one in column \<open>sg ! i\<close>, so that \<open>P \<cdot> X\<close> has row \<open>sg ! i\<close> of
  \<open>X\<close> as its row \<open>i\<close>. \<^verbatim>\<open>t()\<close> of the library is the transpose.\<close>

definition perm_matrix :: "nat list \<Rightarrow> tensor" where
  "perm_matrix sg =
     Mat (length sg) (length sg)
       (map (\<lambda>i. map (\<lambda>j. if j = sg ! i then 1 else 0) [0..<length sg]) [0..<length sg])"

fun transpose_tensor :: "tensor \<Rightarrow> tensor" where
  "transpose_tensor (Mat n m rs) = Mat m n (map (\<lambda>j. map (\<lambda>r. r ! j) rs) [0..<m])"
| "transpose_tensor (Vec v) = Vec v"

text \<open>What the products with a permutation matrix come to: the rows, or the rows and the
  columns, in the order \<open>sg\<close> gives.\<close>

definition permute_rows :: "nat list \<Rightarrow> 'a list \<Rightarrow> 'a list" where
  "permute_rows sg rs = map (\<lambda>i. rs ! (sg ! i)) [0..<length sg]"

definition permute_both :: "nat list \<Rightarrow> 'a list list \<Rightarrow> 'a list list" where
  "permute_both sg A = map (\<lambda>i. map (\<lambda>j. A ! (sg ! i) ! (sg ! j)) [0..<length sg]) [0..<length sg]"

section \<open>Rounded arithmetic\<close>

text \<open>
  The program holds 32-bit floats: every arithmetic result is rounded to the nearest
  value with a significand of 24 bits, ties to the even significand. \<open>fl32\<close> is this
  rounding on the reals, with the exponent range of the format (so the smallest spacing is
  \<open>2 powi (- 149)\<close>); overflow to infinity and NaN are not modelled.
\<close>

definition round_even :: "real \<Rightarrow> int" where
  "round_even y =
     (let f = \<lfloor>y\<rfloor> in
      if y - of_int f < 1/2 then f
      else if 1/2 < y - of_int f then f + 1
      else if even f then f else f + 1)"

definition float_exponent :: "real \<Rightarrow> int" where
  "float_exponent x =
     (case find (\<lambda>e. 2 powi e \<le> \<bar>x\<bar>) (rev [-126..127]) of Some e \<Rightarrow> e | None \<Rightarrow> -126)"

definition fl32 :: "real \<Rightarrow> real" where
  "fl32 x = of_int (round_even (x / 2 powi (float_exponent x - 23))) * 2 powi (float_exponent x - 23)"

text \<open>
  The forward pass of GraphConvolution and of Encoder once more, with a rounding \<open>rnd\<close>
  applied to the result of every multiplication, addition and division: \<open>rnd = fl32\<close> is
  the program, \<open>rnd = id\<close> is the arithmetic without rounding of the definitions above.
  A product of matrices adds the products of a row and a column from left to right; that
  is the order of the sparse product, which walks the stored entries of a row in order.
\<close>

definition dot_r :: "(real \<Rightarrow> real) \<Rightarrow> real list \<Rightarrow> real list \<Rightarrow> real" where
  "dot_r rnd u v = foldl (\<lambda>s t. rnd (s + t)) 0 (map2 (\<lambda>a b. rnd (a * b)) u v)"

fun mm_r :: "(real \<Rightarrow> real) \<Rightarrow> tensor \<Rightarrow> tensor \<Rightarrow> error + tensor" where
  "mm_r rnd (Mat n k a) (Mat k' m b) =
     (if k = k' then Inr (Mat n m (map (\<lambda>r. map (\<lambda>j. dot_r rnd r (column b j)) [0..<m]) a))
      else Inl ShapeError)"
| "mm_r rnd _ _ = Inl ShapeError"

definition spmm_r :: "(real \<Rightarrow> real) \<Rightarrow> tensor \<Rightarrow> tensor \<Rightarrow> error + tensor" where
  "spmm_r rnd a b = mm_r rnd a b"

definition add2_r ::
  "(real \<Rightarrow> real) \<Rightarrow> nat \<Rightarrow> nat \<Rightarrow> real list list \<Rightarrow> nat \<Rightarrow> nat \<Rightarrow> real list list
     \<Rightarrow> error + (nat \<times> nat \<times> real list list)" where
  "add2_r rnd n c a m k b =
     (case (bdim n m, bdim c k) of
        (Some r, Some s) \<Rightarrow>
          Inr (r, s, map (\<lambda>i. map (\<lambda>j. rnd (a ! pick n i ! pick c j + b ! pick m i ! pick k j)) [0..<s]) [0..<r])
      | _ \<Rightarrow> Inl ShapeError)"

fun add_r :: "(real \<Rightarrow> real) \<Rightarrow> tensor \<Rightarrow> tensor \<Rightarrow> error + tensor" where
  "add_r rnd (Mat n c a) (Mat m k b) = bindE (add2_r rnd n c a m k b) (\<lambda>(r, s, x). Inr (Mat r s x))"
| "add_r rnd (Mat n c a) (Vec v) = bindE (add2_r rnd n c a 1 (length v) [v]) (\<lambda>(r, s, x). Inr (Mat r s x))"
| "add_r rnd (Vec u) (Mat m k b) = bindE (add2_r rnd 1 (length u) [u] m k b) (\<lambda>(r, s, x). Inr (Mat r s x))"
| "add_r rnd (Vec u) (Vec v) = bindE (add2_r rnd 1 (length u) [u] 1 (length v) [v]) (\<lambda>(r, s, x). Inr (Vec (hd x)))"

definition dropout_r :: "(real \<Rightarrow> real) \<Rightarrow> tensor \<Rightarrow> real \<Rightarrow> bool \<Rightarrow> world \<Rightarrow> error + (tensor \<times> world)" where
  "dropout_r rnd x p training w =
     (if p < 0 \<or> 1 < p then Inl ValueError
      else if p = 0 \<or> \<not> training \<or> numel x = 0 then Inr (x, w)
      else if p = 1 then Inr (fill (\<lambda>_ _. 0) (rng_draws w) (rng_pos w) x, w)
      else Inr (fill (\<lambda>u v. if u < 1 - p then rnd (v * rnd (1 / (1 - p))) else 0) (rng_draws w) (rng_pos w) x,
                w\<lparr>rng_pos := rng_pos w + numel x\<rparr>))"

definition GraphConvolution_forward_r ::
  "(real \<Rightarrow> real) \<Rightarrow> GraphConvolution \<Rightarrow> tensor \<Rightarrow> tensor \<Rightarrow> world \<Rightarrow> error + (tensor \<times> world)" where
  "GraphConvolution_forward_r rnd self input adj w =
     bindE (deref w (weight self)) (\<lambda>W.
     bindE (mm_r rnd input W) (\<lambda>support.
     bindE (spmm_r rnd adj support) (\<lambda>output.
       case bias self of
         Some b \<Rightarrow> bindE (deref w b) (\<lambda>bv. bindE (add_r rnd output bv) (\<lambda>r. Inr (r, w)))
       | None \<Rightarrow> Inr (output, w))))"

definition Encoder_forward_r ::
  "(real \<Rightarrow> real) \<Rightarrow> Encoder \<Rightarrow> tensor \<Rightarrow> tensor \<Rightarrow> world \<Rightarrow> error + (tensor \<times> world)" where
  "Encoder_forward_r rnd self x adj w =
     bindE (dropout_r rnd x (Encoder_dropout self) (Encoder_training self) w) (\<lambda>(x1, w1).
     bindE (GraphConvolution_forward_r rnd (gc1 self) x1 adj w1) (\<lambda>(h, w2).
       let x2 = relu h in
       bindE (dropout_r rnd x2 (Encoder_dropout self) (Encoder_training self) w2) (\<lambda>(x3, w3).
         GraphConvolution_forward_r rnd (gc2 self) x3 adj w3)))"

text \<open>\<open>P \<cdot> A \<cdot> P\<^sup>T\<close> with the library's products.\<close>

definition conjugate_r :: "(real \<Rightarrow> real) \<Rightarrow> tensor \<Rightarrow> tensor \<Rightarrow> error + tensor" where
  "conjugate_r rnd P A = bindE (mm_r rnd P A) (\<lambda>PA. mm_r rnd PA (transpose_tensor P))"

section \<open>Example inputs\<close>

definition world0 :: world where
  "world0 = \<lparr>params = [], rng_draws = (\<lambda>k. 1 / (real k + 2)), rng_pos = 0\<rparr>"


definition mt_example :: MultiTask where
  "mt_example =
     \<lparr>encoder =
        \<lparr>gc1 = \<lparr>in_features = 2, out_features = 2, weight = 0, bias = Some 1\<rparr>,
         gc2 = \<lparr>in_features = 2, out_features = 2, weight = 2, bias = Some 3\<rparr>,
         Encoder_dropout = 1/2, Encoder_training = True\<rparr>,
      dis_neighbor =
        \<lparr>lr1 = \<lparr>lin_in_features = 2, lin_out_features = 1, lin_weight = 4, lin_bias = 5\<rparr>,
         lr2 = \<lparr>lin_in_features = 1, lin_out_features = 1, lin_weight = 6, lin_bias = 7\<rparr>,
         Discriminator_dropout = 1/2, Discriminator_training = True\<rparr>,
      dis_anomlay =
        \<lparr>lr1 = \<lparr>lin_in_features = 2, lin_out_features = 1, lin_weight = 8, lin_bias = 9\<rparr>,
         lr2 = \<lparr>lin_in_features = 1, lin_out_features = 2, lin_weight = 10, lin_bias = 11\<rparr>,
         Discriminator_dropout = 1/2, Discriminator_training = True\<rparr>\<rparr>"

definition mt_world :: world where
  "mt_world =
     \<lparr>params =
        [Mat 2 2 [[1, 0], [0, 1]], Vec [0, 1],
         Mat 2 2 [[1, 1], [0, -1]], Vec [0, 0],
         Mat 1 2 [[1, 1]], Vec [0],
         Mat 1 1 [[2]], Vec [1],
         Mat 1 2 [[1, -1]], Vec [0],
         Mat 2 1 [[1], [-1]], Vec [0, 0]],
      rng_draws = (\<lambda>k. if even k then 1/4 else 3/4), rng_pos = 0\<rparr>"

definition st_example :: SingleTask where
  "st_example = \<lparr>SingleTask_encoder = encoder mt_example, discriminator = dis_neighbor mt_example\<rparr>"

definition X_example :: tensor where
  "X_example = Mat 2 2 [[1, 2], [3, 4]]"

definition A_example :: tensor where
  "A_example = Mat 2 2 [[0, 1], [1, 0]]"

text \<open>\<^verbatim>\<open>eval()\<close> of the library on the example modules: every training flag is off.\<close>

definition mt_example_eval :: MultiTask where
  "mt_example_eval =
     \<lparr>encoder = (encoder mt_example)\<lparr>Encoder_training := False\<rparr>,
      dis_neighbor = (dis_neighbor mt_example)\<lparr>Discriminator_training := False\<rparr>,
      dis_anomlay = (dis_anomlay mt_example)\<lparr>Discriminator_training := False\<rparr>\<rparr>"

definition st_example_eval :: SingleTask where
  "st_example_eval =
     \<lparr>SingleTask_encoder = encoder mt_example_eval, discriminator = dis_neighbor mt_example_eval\<rparr>"

definition dis_example :: Discriminator where
  "dis_example =
     \<lparr>lr1 = \<lparr>lin_in_features = 3, lin_out_features = 1, lin_weight = 0, lin_bias = 1\<rparr>,
      lr2 = \<lparr>lin_in_features = 1, lin_out_features = 2, lin_weight = 2, lin_bias = 3\<rparr>,
      Discriminator_dropout = 0, Discriminator_training = True\<rparr>"

definition dis_world :: world where
  "dis_world =
     \<lparr>params = [Mat 1 3 [[1, -1, 2]], Vec [1], Mat 2 1 [[1], [-2]], Vec [0, 5]],
      rng_draws = (\<lambda>k. if even k then 1/4 else 3/4), rng_pos = 0\<rparr>"

definition d1_example :: Discriminator where
  "d1_example =
     \<lparr>lr1 = \<lparr>lin_in_features = 1, lin_out_features = 0, lin_weight = 0, lin_bias = 1\<rparr>,
      lr2 = \<lparr>lin_in_features = 0, lin_out_features = 2, lin_weight = 2, lin_bias = 3\<rparr>,
      Discriminator_dropout = 1/2, Discriminator_training = False\<rparr>"

definition d1_world :: world where
  "d1_world =
     \<lparr>params = [Mat 0 1 [], Vec [], Mat 2 0 [[], []], Vec [5, - 3]],
      rng_draws = (\<lambda>k. if even k then 1/4 else 3/4), rng_pos = 0\<rparr>"

text \<open>
  Inputs for the rounded forward pass. \<open>big\<close> is a float so large that adding one to it is
  lost in the rounding. \<open>gc_world\<close> holds a weight of ones and a bias of one for the layer of
  \<open>gc_example\<close>. \<open>tri_encoder\<close> is an Encoder of one feature and one hidden unit in
  inference mode, with both weights one and both biases zero in the store \<open>tri_world\<close>;
  \<open>tri_X\<close> gives the features of three nodes, \<open>tri_X_swapped\<close> the same features with the last
  two nodes exchanged, and in \<open>tri_A\<close> every node is adjacent to every node.
\<close>

definition big :: real where
  "big = 2 ^ 100"


definition tri_encoder :: Encoder where
  "tri_encoder =
     \<lparr>gc1 = \<lparr>in_features = 1, out_features = 1, weight = 0, bias = Some 1\<rparr>,
      gc2 = \<lparr>in_features = 1, out_features = 1, weight = 2, bias = Some 3\<rparr>,
      Encoder_dropout = 1/2, Encoder_training = False\<rparr>"

definition tri_world :: world where
  "tri_world = \<lparr>params = [Mat 1 1 [[1]], Vec [0], Mat 1 1 [[1]], Vec [0]],
          rng_draws = (\<lambda>k. 1 / (real k + 2)), rng_pos = 0\<rparr>"

definition tri_X :: tensor where
  "tri_X = Mat 3 1 [[big], [1], [- big]]"

definition tri_X_swapped :: tensor where
  "tri_X_swapped = Mat 3 1 [[big], [- big], [1]]"

definition tri_A :: tensor where
  "tri_A = Mat 3 3 [[1, 1, 1], [1, 1, 1], [1, 1, 1]]"

section \<open>Basic lemmas\<close>

lemma bindE_simps [simp]: "bindE (Inl e) f = Inl e" "bindE (Inr x) f = f x"
  by (simp_all add: bindE_def)

lemma bindE_Inr: "bindE m f = Inr y \<longleftrightarrow> (\<exists>x. m = Inr x \<and> f x = Inr y)"
  by (cases m) simp_all

lemma dot_sum: "length u = n \<Longrightarrow> length v = n \<Longrightarrow> dot u v = (\<Sum>k<n. u ! k * v ! k)"
  by (simp add: dot_def sum_list_sum_nth atLeast0LessThan)

lemma mm_entry:
  assumes "wf_tensor (Mat n k a)" "wf_tensor (Mat k m b)"
  shows "\<exists>R. mm (Mat n k a) (Mat k m b) = Inr (Mat n m R) \<and> wf_tensor (Mat n m R) \<and>
           (\<forall>i<n. \<forall>j<m. R ! i ! j = (\<Sum>l<k. a ! i ! l * b ! l ! j))"
proof -
  let ?R = "map (\<lambda>r. map (\<lambda>j. dot r (column b j)) [0..<m]) a"
  from assms have la: "length a = n" "\<And>i. i < n \<Longrightarrow> length (a ! i) = k" and lb: "length b = k"
    by (auto simp: list_all_length)
  have "?R ! i ! j = (\<Sum>l<k. a ! i ! l * b ! l ! j)" if "i < n" "j < m" for i j
  proof -
    have "?R ! i ! j = dot (a ! i) (column b j)" using that la by simp
    also have "\<dots> = (\<Sum>l<k. a ! i ! l * column b j ! l)"
      by (rule dot_sum) (use that la lb in \<open>simp_all add: column_def\<close>)
    also have "\<dots> = (\<Sum>l<k. a ! i ! l * b ! l ! j)"
      by (rule sum.cong) (use lb in \<open>simp_all add: column_def\<close>)
    finally show ?thesis .
  qed
  moreover have "wf_tensor (Mat n m ?R)" using la by (simp add: list_all_length)
  ultimately show ?thesis by auto
qed

lemma add_Mat_Vec:
  assumes "length v = c"
  shows "\<exists>R. add (Mat n c a) (Vec v) = Inr (Mat n c R) \<and> wf_tensor (Mat n c R) \<and>
           (\<forall>i<n. \<forall>j<c. R ! i ! j = a ! i ! j + v ! j)"
proof -
  let ?R = "map (\<lambda>i. map (\<lambda>j. a ! pick n i ! pick c j + [v] ! pick 1 i ! pick (length v) j) [0..<c]) [0..<n]"
  have r: "bdim n 1 = Some n" and s: "bdim c (length v) = Some c"
    using assms by (simp_all add: bdim_def)
  have "add (Mat n c a) (Vec v) = Inr (Mat n c ?R)"
    unfolding add.simps add2_def r s by simp
  moreover have "wf_tensor (Mat n c ?R)"
    by (simp add: list_all_length)
  moreover have "?R ! i ! j = a ! i ! j + v ! j" if "i < n" "j < c" for i j
    using that assms by (auto simp: pick_def)
  ultimately show ?thesis by blast
qed

subsection \<open>GraphConvolution\<close>

lemma GraphConvolution_inv_weight:
  assumes "GraphConvolution_inv self w"
  shows "\<exists>W. deref w (weight self) = Inr (Mat (nat (in_features self)) (nat (out_features self)) W) \<and>
             wf_tensor (Mat (nat (in_features self)) (nat (out_features self)) W)"
proof (cases "deref w (weight self)")
  case (Inl e)
  with assms show ?thesis by (simp add: GraphConvolution_inv_def)
next
  case (Inr t)
  with assms show ?thesis
    by (cases t) (auto simp: GraphConvolution_inv_def)
qed

lemma GraphConvolution_inv_bias:
  assumes "GraphConvolution_inv self w" "bias self = Some b"
  shows "\<exists>v. deref w b = Inr (Vec v) \<and> length v = nat (out_features self)"
proof (cases "deref w b")
  case (Inl e)
  with assms show ?thesis by (simp add: GraphConvolution_inv_def)
next
  case (Inr t)
  with assms show ?thesis
    by (cases t) (auto simp: GraphConvolution_inv_def)
qed

lemma GraphConvolution_forward_formula:
  assumes inv: "GraphConvolution_inv self w"
    and X: "wf_tensor (Mat N F X)" and F: "int F = in_features self"
    and A: "wf_tensor (Mat N N A)"
  shows "\<exists>R. GraphConvolution_forward self (Mat N F X) (Mat N N A) w
               = Inr (Mat N (nat (out_features self)) R, w) \<and>
             wf_tensor (Mat N (nat (out_features self)) R) \<and>
             (\<forall>i<N. \<forall>j<nat (out_features self).
                R ! i ! j = (\<Sum>k<N. A ! i ! k * (\<Sum>l<F. X ! k ! l * weight_of self w ! l ! j))
                           + (case bias self of None \<Rightarrow> 0 | Some b \<Rightarrow> bias_of self w ! j))"
proof -
  let ?O = "nat (out_features self)"
  have "nat (in_features self) = F" using F by simp
  with GraphConvolution_inv_weight[OF inv]
  obtain W where W: "deref w (weight self) = Inr (Mat F ?O W)" "wf_tensor (Mat F ?O W)"
    by auto
  have Wof: "weight_of self w = W" using W by (simp add: weight_of_def)
  from mm_entry[OF X W(2)] obtain S where
    S: "mm (Mat N F X) (Mat F ?O W) = Inr (Mat N ?O S)" "wf_tensor (Mat N ?O S)"
       "\<And>i j. i < N \<Longrightarrow> j < ?O \<Longrightarrow> S ! i ! j = (\<Sum>l<F. X ! i ! l * W ! l ! j)"
    by blast
  from mm_entry[OF A S(2)] obtain T where
    T: "mm (Mat N N A) (Mat N ?O S) = Inr (Mat N ?O T)" "wf_tensor (Mat N ?O T)"
       "\<And>i j. i < N \<Longrightarrow> j < ?O \<Longrightarrow> T ! i ! j = (\<Sum>k<N. A ! i ! k * S ! k ! j)"
    by blast
  have Tf: "T ! i ! j = (\<Sum>k<N. A ! i ! k * (\<Sum>l<F. X ! k ! l * W ! l ! j))" if "i < N" "j < ?O" for i j
    using that by (simp add: T(3) S(3))
  show ?thesis
  proof (cases "bias self")
    case None
    then show ?thesis
      using W(1) S(1) T(1,2) Tf by (simp add: GraphConvolution_forward_def spmm_def Wof)
  next
    case (Some b)
    from GraphConvolution_inv_bias[OF inv Some]
    obtain v where v: "deref w b = Inr (Vec v)" "length v = ?O"
      by auto
    have bof: "bias_of self w = v" using Some v by (simp add: bias_of_def)
    from add_Mat_Vec[OF v(2), of N T] obtain R where
      R: "add (Mat N ?O T) (Vec v) = Inr (Mat N ?O R)" "wf_tensor (Mat N ?O R)"
         "\<And>i j. i < N \<Longrightarrow> j < ?O \<Longrightarrow> R ! i ! j = T ! i ! j + v ! j"
      by blast
    show ?thesis
      using Some W(1) S(1) T(1) v(1) R(1,2) R(3) Tf
      by (simp add: GraphConvolution_forward_def spmm_def Wof bof)
  qed
qed

text \<open>The constructor in closed form: it fails on a negative dimension and on
  \<open>out_features = 0\<close>, and otherwise appends the initialised weight (and bias) to the
  store.\<close>

lemma GraphConvolution_init_eq:
  "GraphConvolution_init n_in n_out use_bias w =
     (if n_in < 0 \<or> n_out < 0 then Inl NegativeDimension
      else if n_out = 0 then Inl ZeroDivisionError
      else Inr (\<lparr>in_features = n_in, out_features = n_out, weight = length (params w),
                  bias = (if use_bias then Some (Suc (length (params w))) else None)\<rparr>,
                w\<lparr>params := params w @ init_weight (nat n_in) (nat n_out) w
                               # (if use_bias then [init_bias (nat n_in) (nat n_out) w] else []),
                  rng_pos := rng_pos w + nat n_in * nat n_out + (if use_bias then nat n_out else 0)\<rparr>))"
  by (auto simp: GraphConvolution_init_def FloatTensor2_def FloatTensor1_def Parameter_def
      reset_parameters_def uniform_inplace_def deref_def nth_append init_weight_def init_bias_def
      Let_def list_update_append cong: map_cong)

lemma GraphConvolution_init_inv:
  assumes "GraphConvolution_init n_in n_out use_bias w0 = Inr (self, w1)"
  shows "GraphConvolution_inv self w1"
  using assms
  by (auto simp: GraphConvolution_init_eq GraphConvolution_inv_def init_weight_def init_bias_def
      deref_def nth_append list_all_length split: if_splits)



subsection \<open>Frame\<close>

lemma deref_cong: "params w' = params w \<Longrightarrow> deref w' = deref w"
  by (rule ext) (simp add: deref_def)

lemma GraphConvolution_inv_cong:
  assumes "params w' = params w"
  shows "GraphConvolution_inv self w' = GraphConvolution_inv self w"
  unfolding GraphConvolution_inv_def deref_cong[OF assms] ..

lemma Linear_inv_cong:
  assumes "params w' = params w"
  shows "Linear_inv self w' = Linear_inv self w"
  unfolding Linear_inv_def deref_cong[OF assms] ..

lemma dropout_frame:
  assumes "dropout x p t w = Inr (y, w')"
  shows "params w' = params w" "rng_draws w' = rng_draws w"
  using assms by (auto simp: dropout_def split: if_splits)

lemma dropout_inference:
  "dropout x p False w = (if p < 0 \<or> 1 < p then Inl ValueError else Inr (x, w))"
  by (simp add: dropout_def)

lemma GraphConvolution_forward_frame:
  assumes "GraphConvolution_forward self x adj w = Inr (y, w')"
  shows "w' = w"
  using assms
  by (auto simp: GraphConvolution_forward_def bindE_Inr split: option.splits)

lemma Linear_forward_frame:
  assumes "Linear_forward self x w = Inr (y, w')"
  shows "w' = w"
  using assms
  by (auto simp: Linear_forward_def bindE_Inr)

lemma Encoder_forward_frame:
  assumes "Encoder_forward self x adj w = Inr (y, w')"
  shows "params w' = params w"
  using assms
  by (auto simp: Encoder_forward_def bindE_Inr Let_def
      dest!: dropout_frame(1) GraphConvolution_forward_frame)

lemma Discriminator_forward_frame:
  assumes "Discriminator_forward self x w = Inr (y, w')"
  shows "params w' = params w"
  using assms
  by (auto simp: Discriminator_forward_def bindE_Inr Let_def
      dest!: dropout_frame(1) Linear_forward_frame)

lemma MultiTask_forward_frame:
  assumes "MultiTask_forward self x adj w = Inr (y, w')"
  shows "params w' = params w"
  using assms
  by (auto simp: MultiTask_forward_def bindE_Inr
      dest!: Encoder_forward_frame Discriminator_forward_frame)

lemma SingleTask_forward_frame:
  assumes "SingleTask_forward self x adj w = Inr (y, w')"
  shows "params w' = params w"
  using assms
  by (auto simp: SingleTask_forward_def bindE_Inr
      dest!: Encoder_forward_frame Discriminator_forward_frame)

subsection \<open>Shapes of the results\<close>

lemma dropout_Mat:
  assumes "0 \<le> p" "p \<le> 1" "wf_tensor (Mat n m X)"
  shows "\<exists>Y w'. dropout (Mat n m X) p t w = Inr (Mat n m Y, w') \<and> wf_tensor (Mat n m Y) \<and>
           params w' = params w"
  using assms by (auto simp: dropout_def list_all_length)

lemma relu_Mat: "wf_tensor (Mat n m X) \<Longrightarrow> \<exists>Y. relu (Mat n m X) = Mat n m Y \<and> wf_tensor (Mat n m Y)"
  by (auto simp: list_all_length)

lemma Linear_inv_weight:
  assumes "Linear_inv self w"
  shows "\<exists>W. deref w (lin_weight self) = Inr (Mat (nat (lin_out_features self)) (nat (lin_in_features self)) W) \<and>
             wf_tensor (Mat (nat (lin_out_features self)) (nat (lin_in_features self)) W)"
proof (cases "deref w (lin_weight self)")
  case (Inl e)
  with assms show ?thesis by (simp add: Linear_inv_def)
next
  case (Inr t)
  with assms show ?thesis
    by (cases t) (auto simp: Linear_inv_def)
qed

lemma Linear_inv_bias:
  assumes "Linear_inv self w"
  shows "\<exists>v. deref w (lin_bias self) = Inr (Vec v) \<and> length v = nat (lin_out_features self)"
proof (cases "deref w (lin_bias self)")
  case (Inl e)
  with assms show ?thesis by (simp add: Linear_inv_def)
next
  case (Inr t)
  with assms show ?thesis
    by (cases t) (auto simp: Linear_inv_def)
qed

lemma Linear_forward_formula:
  assumes inv: "Linear_inv self w"
    and X: "wf_tensor (Mat N F X)" and F: "int F = lin_in_features self"
  shows "\<exists>Y. Linear_forward self (Mat N F X) w = Inr (Mat N (nat (lin_out_features self)) Y, w) \<and>
             wf_tensor (Mat N (nat (lin_out_features self)) Y) \<and>
             (\<forall>i<N. \<forall>j<nat (lin_out_features self).
                Y ! i ! j = (\<Sum>l<F. X ! i ! l * lin_weight_of self w ! j ! l) + lin_bias_of self w ! j)"
proof -
  let ?O = "nat (lin_out_features self)"
  have "nat (lin_in_features self) = F" using F by simp
  with Linear_inv_weight[OF inv]
  obtain W where W: "deref w (lin_weight self) = Inr (Mat ?O F W)" "wf_tensor (Mat ?O F W)"
    by auto
  from Linear_inv_bias[OF inv]
  obtain v where v: "deref w (lin_bias self) = Inr (Vec v)" "length v = ?O"
    by auto
  have Wof: "lin_weight_of self w = W" and bof: "lin_bias_of self w = v"
    using W v by (simp_all add: lin_weight_of_def lin_bias_of_def)
  let ?S = "map (\<lambda>r. map (dot r) W) X"
  from X W(2) have lX: "length X = N" "\<And>i. i < N \<Longrightarrow> length (X ! i) = F"
    and lW: "length W = ?O" "\<And>j. j < ?O \<Longrightarrow> length (W ! j) = F"
    by (auto simp: list_all_length)
  have Sf: "?S ! i ! j = (\<Sum>l<F. X ! i ! l * W ! j ! l)" if "i < N" "j < ?O" for i j
    using that lX lW by (simp add: dot_sum)
  from add_Mat_Vec[OF v(2), of N ?S] obtain R where
    R: "add (Mat N ?O ?S) (Vec v) = Inr (Mat N ?O R)" "wf_tensor (Mat N ?O R)"
       "\<And>i j. i < N \<Longrightarrow> j < ?O \<Longrightarrow> R ! i ! j = ?S ! i ! j + v ! j"
    by blast
  have "R ! i ! j = (\<Sum>l<F. X ! i ! l * W ! j ! l) + v ! j" if "i < N" "j < ?O" for i j
    using R(3)[OF that] Sf[OF that] by simp
  then show ?thesis
    using W(1) v(1) R(1,2) by (simp add: Linear_forward_def Wof bof)
qed

lemma Encoder_forward_shape:
  assumes inv: "Encoder_inv self w"
    and p: "0 \<le> Encoder_dropout self" "Encoder_dropout self \<le> 1"
    and X: "wf_tensor (Mat N F X)" and F: "int F = in_features (gc1 self)"
    and A: "wf_tensor (Mat N N A)"
  shows "\<exists>H w'. Encoder_forward self (Mat N F X) (Mat N N A) w
                 = Inr (Mat N (nat (out_features (gc2 self))) H, w') \<and>
               wf_tensor (Mat N (nat (out_features (gc2 self))) H) \<and> params w' = params w"
proof -
  let ?p = "Encoder_dropout self" and ?t = "Encoder_training self"
  from dropout_Mat[OF p X] obtain X1 w1 where
    d1: "dropout (Mat N F X) ?p ?t w = Inr (Mat N F X1, w1)" "wf_tensor (Mat N F X1)" "params w1 = params w"
    by blast
  from inv have i1: "GraphConvolution_inv (gc1 self) w1" and i2: "GraphConvolution_inv (gc2 self) w1"
    and ch: "out_features (gc1 self) = in_features (gc2 self)"
    by (simp_all add: Encoder_inv_def GraphConvolution_inv_cong[OF d1(3)])
  from GraphConvolution_forward_formula[OF i1 d1(2) F A] obtain H1 where
    g1: "GraphConvolution_forward (gc1 self) (Mat N F X1) (Mat N N A) w1
           = Inr (Mat N (nat (out_features (gc1 self))) H1, w1)"
        "wf_tensor (Mat N (nat (out_features (gc1 self))) H1)"
    by blast
  let ?M = "nat (out_features (gc1 self))"
  from relu_Mat[OF g1(2)] obtain H2 where
    r: "relu (Mat N ?M H1) = Mat N ?M H2" "wf_tensor (Mat N ?M H2)" by blast
  from dropout_Mat[OF p r(2)] obtain X3 w3 where
    d2: "dropout (Mat N ?M H2) ?p ?t w1 = Inr (Mat N ?M X3, w3)" "wf_tensor (Mat N ?M X3)" "params w3 = params w1"
    by blast
  have i2': "GraphConvolution_inv (gc2 self) w3"
    using i2 by (simp add: GraphConvolution_inv_cong[OF d2(3)])
  have F2: "int ?M = in_features (gc2 self)"
    using ch GraphConvolution_inv_weight[OF i1] i1 by (auto simp: GraphConvolution_inv_def split: sum.splits tensor.splits)
  from GraphConvolution_forward_formula[OF i2' d2(2) F2 A] obtain H where
    g2: "GraphConvolution_forward (gc2 self) (Mat N ?M X3) (Mat N N A) w3
           = Inr (Mat N (nat (out_features (gc2 self))) H, w3)"
        "wf_tensor (Mat N (nat (out_features (gc2 self))) H)"
    by blast
  show ?thesis
    using d1(1) g1(1) r(1) d2(1) g2 d1(3) d2(3)
    by (simp add: Encoder_forward_def)
qed

subsection \<open>The constructors in closed form\<close>

lemma kaiming_bound_nonneg: "0 \<le> kaiming_bound n"
  by (simp add: kaiming_bound_def)

lemma fill_empty_Mat:
  "n * m = 0 \<Longrightarrow> Mat n m (map (\<lambda>i. map (f i) [0..<m]) [0..<n]) = Mat n m (replicate n (replicate m 0))"
  by (auto simp: map_replicate_const)

lemma Linear_init_eq:
  "Linear_init n_in n_out w =
     (if n_out < 0 \<or> n_in < 0 then Inl NegativeDimension
      else Inr (\<lparr>lin_in_features = n_in, lin_out_features = n_out, lin_weight = length (params w),
                  lin_bias = Suc (length (params w))\<rparr>,
                w\<lparr>params := params w @ [lin_init_weight (nat n_out) (nat n_in) w,
                                         lin_init_bias (nat n_out) (nat n_in) w],
                  rng_pos := rng_pos w + nat n_out * nat n_in + nat n_out\<rparr>))"
proof (cases "n_out < 0 \<or> n_in < 0")
  case True
  then show ?thesis by (auto simp: Linear_init_def FloatTensor2_def)
next
  case False
  have kb: "\<not> kaiming_bound (nat n_in) < - kaiming_bound (nat n_in)"
    using kaiming_bound_nonneg[of "nat n_in"] by linarith
  show ?thesis
  proof (cases "nat n_out * nat n_in = 0")
    case True
    have e: "lin_init_weight (nat n_out) (nat n_in) w = Mat (nat n_out) (nat n_in) (replicate (nat n_out) (replicate (nat n_in) 0))"
      unfolding lin_init_weight_def by (rule fill_empty_Mat[OF True])
    show ?thesis using False
      by (simp add: Linear_init_def FloatTensor2_def FloatTensor1_def Parameter_def
        Linear_reset_parameters_def uniform_inplace_def deref_def nth_append e lin_init_bias_def True
        Let_def list_update_append cong: map_cong)
  next
    case nz: False
    show ?thesis using False nz kb
      by (simp add: Linear_init_def FloatTensor2_def FloatTensor1_def Parameter_def
        Linear_reset_parameters_def uniform_inplace_def deref_def nth_append lin_init_weight_def lin_init_bias_def
        Let_def list_update_append cong: map_cong)
  qed
qed

lemma raises_simps [simp]: "raises (Inl e) = True" "raises (Inr x) = False"
  by (simp_all add: raises_def)

lemma deref_extend: "params w' = params w @ ts \<Longrightarrow> deref w a = Inr t \<Longrightarrow> deref w' a = Inr t"
  by (auto simp: deref_def nth_append split: if_splits)

lemma GraphConvolution_inv_extend:
  assumes inv: "GraphConvolution_inv self w" and ext: "params w' = params w @ ts"
  shows "GraphConvolution_inv self w'"
proof -
  from GraphConvolution_inv_weight[OF inv] obtain W where
    W: "deref w (weight self) = Inr (Mat (nat (in_features self)) (nat (out_features self)) W)"
    by blast
  have b: "\<exists>v. deref w b = Inr (Vec v)" if "bias self = Some b" for b
    using GraphConvolution_inv_bias[OF inv that] by blast
  show ?thesis
    using inv W b deref_extend[OF ext W]
    by (auto simp: GraphConvolution_inv_def deref_extend[OF ext] split: option.splits)
qed

lemma Linear_inv_extend:
  assumes inv: "Linear_inv self w" and ext: "params w' = params w @ ts"
  shows "Linear_inv self w'"
proof -
  from Linear_inv_weight[OF inv] obtain W where
    W: "deref w (lin_weight self) = Inr (Mat (nat (lin_out_features self)) (nat (lin_in_features self)) W)"
    by blast
  from Linear_inv_bias[OF inv] obtain v where v: "deref w (lin_bias self) = Inr (Vec v)"
    by blast
  show ?thesis
    using inv W v deref_extend[OF ext W] deref_extend[OF ext v]
    by (auto simp: Linear_inv_def)
qed

lemma GraphConvolution_init_result:
  assumes "GraphConvolution_init n_in n_out use_bias w = Inr (self, w1)"
  shows "self = \<lparr>in_features = n_in, out_features = n_out, weight = length (params w),
                  bias = (if use_bias then Some (Suc (length (params w))) else None)\<rparr>"
    and "0 \<le> n_in" "0 < n_out"
    and "\<exists>ts. params w1 = params w @ ts \<and> length ts = (if use_bias then 2 else 1)"
    and "rng_draws w1 = rng_draws w"
  using assms by (auto simp: GraphConvolution_init_eq split: if_splits)

lemma Linear_init_result:
  assumes "Linear_init n_in n_out w = Inr (self, w1)"
  shows "self = \<lparr>lin_in_features = n_in, lin_out_features = n_out, lin_weight = length (params w),
                  lin_bias = Suc (length (params w))\<rparr>"
    and "0 \<le> n_in" "0 \<le> n_out"
    and "\<exists>ts. params w1 = params w @ ts \<and> length ts = 2"
    and "rng_draws w1 = rng_draws w"
    and "Linear_inv self w1"
  using assms
  by (auto simp: Linear_init_eq Linear_inv_def deref_def nth_append lin_init_weight_def
      lin_init_bias_def list_all_length split: if_splits)

lemma Linear_init_raises: "raises (Linear_init n_in n_out w) \<longleftrightarrow> n_in < 0 \<or> n_out < 0"
  by (auto simp: Linear_init_eq)

lemma GraphConvolution_init_raises:
  "raises (GraphConvolution_init n_in n_out use_bias w) \<longleftrightarrow> n_in < 0 \<or> n_out \<le> 0"
  by (auto simp: GraphConvolution_init_eq)

lemma not_raises: "\<not> raises r \<longleftrightarrow> (\<exists>x. r = Inr x)"
  by (cases r) simp_all

lemma Encoder_init_result:
  assumes "Encoder_init nfeat nhid p w = Inr (self, w')"
  shows "self = \<lparr>gc1 = \<lparr>in_features = nfeat, out_features = nhid, weight = length (params w),
                          bias = Some (length (params w) + 1)\<rparr>,
                  gc2 = \<lparr>in_features = nhid, out_features = nhid, weight = length (params w) + 2,
                          bias = Some (length (params w) + 3)\<rparr>,
                  Encoder_dropout = p, Encoder_training = True\<rparr>"
    and "0 \<le> nfeat" "0 < nhid"
    and "\<exists>ts. params w' = params w @ ts \<and> length ts = 4"
    and "rng_draws w' = rng_draws w"
    and "Encoder_inv self w'"
proof -
  from assms obtain g1 w1 g2 where
    a: "GraphConvolution_init nfeat nhid True w = Inr (g1, w1)"
    and b: "GraphConvolution_init nhid nhid True w1 = Inr (g2, w')"
    and s: "self = \<lparr>gc1 = g1, gc2 = g2, Encoder_dropout = p, Encoder_training = True\<rparr>"
    by (auto simp: Encoder_init_def bindE_Inr)
  note ra = GraphConvolution_init_result[OF a] and rb = GraphConvolution_init_result[OF b]
  from ra(4) obtain ts1 where t1: "params w1 = params w @ ts1" "length ts1 = 2" by auto
  from rb(4) obtain ts2 where t2: "params w' = params w1 @ ts2" "length ts2 = 2" by auto
  show "self = \<lparr>gc1 = \<lparr>in_features = nfeat, out_features = nhid, weight = length (params w),
                          bias = Some (length (params w) + 1)\<rparr>,
                  gc2 = \<lparr>in_features = nhid, out_features = nhid, weight = length (params w) + 2,
                          bias = Some (length (params w) + 3)\<rparr>,
                  Encoder_dropout = p, Encoder_training = True\<rparr>"
    using s ra(1) rb(1) t1 by simp
  show "0 \<le> nfeat" "0 < nhid" using ra by simp_all
  show "\<exists>ts. params w' = params w @ ts \<and> length ts = 4"
    using t1 t2 by (intro exI[of _ "ts1 @ ts2"]) simp
  show "rng_draws w' = rng_draws w" using ra(5) rb(5) by simp
  have "GraphConvolution_inv g1 w'"
    using GraphConvolution_inv_extend[OF GraphConvolution_init_inv[OF a] t2(1)] .
  moreover have "GraphConvolution_inv g2 w'" by (rule GraphConvolution_init_inv[OF b])
  ultimately show "Encoder_inv self w'"
    using s ra(1) rb(1) by (simp add: Encoder_inv_def)
qed

lemma Discriminator_init_result:
  assumes "Discriminator_init nin nout p w = Inr (self, w')"
  shows "self = \<lparr>lr1 = \<lparr>lin_in_features = nin, lin_out_features = nin div 2,
                          lin_weight = length (params w), lin_bias = length (params w) + 1\<rparr>,
                  lr2 = \<lparr>lin_in_features = nin div 2, lin_out_features = nout,
                          lin_weight = length (params w) + 2, lin_bias = length (params w) + 3\<rparr>,
                  Discriminator_dropout = p, Discriminator_training = True\<rparr>"
    and "0 \<le> nin" "0 \<le> nout"
    and "\<exists>ts. params w' = params w @ ts \<and> length ts = 4"
    and "rng_draws w' = rng_draws w"
    and "Discriminator_inv self w'"
proof -
  from assms obtain l1 w1 l2 where
    a: "Linear_init nin (nin div 2) w = Inr (l1, w1)"
    and b: "Linear_init (nin div 2) nout w1 = Inr (l2, w')"
    and s: "self = \<lparr>lr1 = l1, lr2 = l2, Discriminator_dropout = p, Discriminator_training = True\<rparr>"
    by (auto simp: Discriminator_init_def bindE_Inr)
  note ra = Linear_init_result[OF a] and rb = Linear_init_result[OF b]
  from ra(4) obtain ts1 where t1: "params w1 = params w @ ts1" "length ts1 = 2" by auto
  from rb(4) obtain ts2 where t2: "params w' = params w1 @ ts2" "length ts2 = 2" by auto
  show "self = \<lparr>lr1 = \<lparr>lin_in_features = nin, lin_out_features = nin div 2,
                          lin_weight = length (params w), lin_bias = length (params w) + 1\<rparr>,
                  lr2 = \<lparr>lin_in_features = nin div 2, lin_out_features = nout,
                          lin_weight = length (params w) + 2, lin_bias = length (params w) + 3\<rparr>,
                  Discriminator_dropout = p, Discriminator_training = True\<rparr>"
    using s ra(1) rb(1) t1 by simp
  show "0 \<le> nin" "0 \<le> nout" using ra rb by simp_all
  show "\<exists>ts. params w' = params w @ ts \<and> length ts = 4"
    using t1 t2 by (intro exI[of _ "ts1 @ ts2"]) simp
  show "rng_draws w' = rng_draws w" using ra(5) rb(5) by simp
  have "Linear_inv l1 w'" using Linear_inv_extend[OF ra(6) t2(1)] .
  then show "Discriminator_inv self w'"
    using s ra(1) rb(1) rb(6) by (simp add: Discriminator_inv_def)
qed

lemma Encoder_init_raises: "raises (Encoder_init nfeat nhid p w) \<longleftrightarrow> nfeat < 0 \<or> nhid \<le> 0"
proof (cases "GraphConvolution_init nfeat nhid True w")
  case (Inl e)
  then show ?thesis using GraphConvolution_init_raises[of nfeat nhid True w]
    by (auto simp: Encoder_init_def)
next
  case (Inr r)
  obtain g1 w1 where r: "r = (g1, w1)" by (cases r)
  from Inr GraphConvolution_init_raises[of nfeat nhid True w] have ok: "0 \<le> nfeat" "0 < nhid"
    by auto
  with GraphConvolution_init_raises[of nhid nhid True w1]
  have "\<not> raises (GraphConvolution_init nhid nhid True w1)" by simp
  then obtain x where "GraphConvolution_init nhid nhid True w1 = Inr x"
    unfolding not_raises by blast
  then show ?thesis using Inr r ok
    by (cases x) (auto simp: Encoder_init_def)
qed

lemma Discriminator_init_raises: "raises (Discriminator_init nin nout p w) \<longleftrightarrow> nin < 0 \<or> nout < 0"
proof (cases "Linear_init nin (nin div 2) w")
  case (Inl e)
  then show ?thesis using Linear_init_raises[of nin "nin div 2" w]
    by (auto simp: Discriminator_init_def)
next
  case (Inr r)
  obtain l1 w1 where r: "r = (l1, w1)" by (cases r)
  from Inr Linear_init_raises[of nin "nin div 2" w] have ok: "0 \<le> nin"
    by auto
  show ?thesis
  proof (cases "Linear_init (nin div 2) nout w1")
    case (Inl e)
    then show ?thesis using Linear_init_raises[of "nin div 2" nout w1] Inr r ok
      by (auto simp: Discriminator_init_def)
  next
    case Inr2: (Inr x)
    then show ?thesis using Linear_init_raises[of "nin div 2" nout w1] Inr r ok
      by (cases x) (auto simp: Discriminator_init_def)
  qed
qed

lemma Linear_inv_nonneg:
  assumes "Linear_inv self w"
  shows "0 \<le> lin_in_features self" "0 \<le> lin_out_features self"
proof -
  have "0 \<le> lin_in_features self \<and> 0 \<le> lin_out_features self"
  proof (cases "deref w (lin_weight self)")
    case (Inl e)
    with assms show ?thesis by (simp add: Linear_inv_def)
  next
    case (Inr t)
    with assms show ?thesis by (cases t) (auto simp: Linear_inv_def)
  qed
  then show "0 \<le> lin_in_features self" "0 \<le> lin_out_features self" by simp_all
qed

lemma Discriminator_forward_shape:
  assumes inv: "Discriminator_inv self w"
    and p: "0 \<le> Discriminator_dropout self" "Discriminator_dropout self \<le> 1"
    and X: "wf_tensor (Mat N F X)" and F: "int F = lin_in_features (lr1 self)"
  shows "\<exists>Y w'. Discriminator_forward self (Mat N F X) w
                 = Inr (Mat N (nat (lin_out_features (lr2 self))) Y, w') \<and>
               wf_tensor (Mat N (nat (lin_out_features (lr2 self))) Y) \<and> params w' = params w"
proof -
  let ?p = "Discriminator_dropout self" and ?t = "Discriminator_training self"
  from relu_Mat[OF X] obtain X0 where
    r0: "relu (Mat N F X) = Mat N F X0" "wf_tensor (Mat N F X0)" by blast
  from dropout_Mat[OF p r0(2)] obtain X1 w1 where
    d1: "dropout (Mat N F X0) ?p ?t w = Inr (Mat N F X1, w1)" "wf_tensor (Mat N F X1)" "params w1 = params w"
    by blast
  from inv have i1: "Linear_inv (lr1 self) w1" and i2: "Linear_inv (lr2 self) w1"
    and ch: "lin_out_features (lr1 self) = lin_in_features (lr2 self)"
    by (simp_all add: Discriminator_inv_def Linear_inv_cong[OF d1(3)])
  let ?M = "nat (lin_out_features (lr1 self))"
  from Linear_forward_formula[OF i1 d1(2) F] obtain H1 where
    l1: "Linear_forward (lr1 self) (Mat N F X1) w1 = Inr (Mat N ?M H1, w1)"
        "wf_tensor (Mat N ?M H1)"
    by blast
  from relu_Mat[OF l1(2)] obtain H2 where
    r: "relu (Mat N ?M H1) = Mat N ?M H2" "wf_tensor (Mat N ?M H2)" by blast
  from dropout_Mat[OF p r(2)] obtain X3 w3 where
    d2: "dropout (Mat N ?M H2) ?p ?t w1 = Inr (Mat N ?M X3, w3)" "wf_tensor (Mat N ?M X3)" "params w3 = params w1"
    by blast
  have i2': "Linear_inv (lr2 self) w3"
    using i2 by (simp add: Linear_inv_cong[OF d2(3)])
  have "0 \<le> lin_out_features (lr1 self)"
    by (rule Linear_inv_nonneg(2)[OF i1])
  then have F2: "int ?M = lin_in_features (lr2 self)"
    using ch by simp
  from Linear_forward_formula[OF i2' d2(2) F2] obtain Y where
    l2: "Linear_forward (lr2 self) (Mat N ?M X3) w3
           = Inr (Mat N (nat (lin_out_features (lr2 self))) Y, w3)"
        "wf_tensor (Mat N (nat (lin_out_features (lr2 self))) Y)"
    by blast
  show ?thesis
    using r0(1) d1(1) l1(1) r(1) d2(1) l2 d1(3) d2(3)
    by (simp add: Discriminator_forward_def)
qed

lemma GraphConvolution_inv_nonneg:
  assumes "GraphConvolution_inv self w"
  shows "0 \<le> in_features self" "0 \<le> out_features self"
proof -
  have "0 \<le> in_features self \<and> 0 \<le> out_features self"
  proof (cases "deref w (weight self)")
    case (Inl e)
    with assms show ?thesis by (simp add: GraphConvolution_inv_def)
  next
    case (Inr t)
    with assms show ?thesis by (cases t) (auto simp: GraphConvolution_inv_def)
  qed
  then show "0 \<le> in_features self" "0 \<le> out_features self" by simp_all
qed

lemma MultiTask_forward_shape:
  assumes inv: "MultiTask_inv self w"
    and pe: "0 \<le> Encoder_dropout (encoder self)" "Encoder_dropout (encoder self) \<le> 1"
    and pn: "0 \<le> Discriminator_dropout (dis_neighbor self)" "Discriminator_dropout (dis_neighbor self) \<le> 1"
    and pa: "0 \<le> Discriminator_dropout (dis_anomlay self)" "Discriminator_dropout (dis_anomlay self) \<le> 1"
    and X: "wf_tensor (Mat N F X)" and F: "int F = in_features (gc1 (encoder self))"
    and A: "wf_tensor (Mat N N A)"
  shows "\<exists>H Yn Ya w1 w2 w3.
           Encoder_forward (encoder self) (Mat N F X) (Mat N N A) w
             = Inr (Mat N (nat (out_features (gc2 (encoder self)))) H, w1) \<and>
           Discriminator_forward (dis_neighbor self) (Mat N (nat (out_features (gc2 (encoder self)))) H) w1
             = Inr (Mat N (nat (lin_out_features (lr2 (dis_neighbor self)))) Yn, w2) \<and>
           Discriminator_forward (dis_anomlay self) (Mat N (nat (out_features (gc2 (encoder self)))) H) w2
             = Inr (Mat N (nat (lin_out_features (lr2 (dis_anomlay self)))) Ya, w3) \<and>
           MultiTask_forward self (Mat N F X) (Mat N N A) w
             = Inr ((Mat N (nat (out_features (gc2 (encoder self)))) H,
                     Mat N (nat (lin_out_features (lr2 (dis_neighbor self)))) Yn,
                     Mat N (nat (lin_out_features (lr2 (dis_anomlay self)))) Ya), w3) \<and>
           wf_tensor (Mat N (nat (out_features (gc2 (encoder self)))) H) \<and>
           wf_tensor (Mat N (nat (lin_out_features (lr2 (dis_neighbor self)))) Yn) \<and>
           wf_tensor (Mat N (nat (lin_out_features (lr2 (dis_anomlay self)))) Ya) \<and>
           params w3 = params w"
proof -
  let ?h = "nat (out_features (gc2 (encoder self)))"
  from inv have ie: "Encoder_inv (encoder self) w"
    and dn: "Discriminator_inv (dis_neighbor self) w" and da: "Discriminator_inv (dis_anomlay self) w"
    and cn: "lin_in_features (lr1 (dis_neighbor self)) = out_features (gc2 (encoder self))"
    and ca: "lin_in_features (lr1 (dis_anomlay self)) = out_features (gc2 (encoder self))"
    by (simp_all add: MultiTask_inv_def)
  from ie have "0 \<le> out_features (gc2 (encoder self))"
    using GraphConvolution_inv_nonneg(2)[of "gc2 (encoder self)" w] by (simp add: Encoder_inv_def)
  then have Fn: "int ?h = lin_in_features (lr1 (dis_neighbor self))"
    and Fa: "int ?h = lin_in_features (lr1 (dis_anomlay self))"
    using cn ca by simp_all
  from Encoder_forward_shape[OF ie pe X F A] obtain H w1 where
    e: "Encoder_forward (encoder self) (Mat N F X) (Mat N N A) w = Inr (Mat N ?h H, w1)"
       "wf_tensor (Mat N ?h H)" "params w1 = params w"
    by blast
  have dn1: "Discriminator_inv (dis_neighbor self) w1"
    using dn by (simp add: Discriminator_inv_def Linear_inv_cong[OF e(3)])
  from Discriminator_forward_shape[OF dn1 pn e(2) Fn] obtain Yn w2 where
    n: "Discriminator_forward (dis_neighbor self) (Mat N ?h H) w1
          = Inr (Mat N (nat (lin_out_features (lr2 (dis_neighbor self)))) Yn, w2)"
       "wf_tensor (Mat N (nat (lin_out_features (lr2 (dis_neighbor self)))) Yn)" "params w2 = params w1"
    by blast
  have p2: "params w2 = params w" using n(3) e(3) by simp
  have da2: "Discriminator_inv (dis_anomlay self) w2"
    using da by (simp add: Discriminator_inv_def Linear_inv_cong[OF p2])
  from Discriminator_forward_shape[OF da2 pa e(2) Fa] obtain Ya w3 where
    a: "Discriminator_forward (dis_anomlay self) (Mat N ?h H) w2
          = Inr (Mat N (nat (lin_out_features (lr2 (dis_anomlay self)))) Ya, w3)"
       "wf_tensor (Mat N (nat (lin_out_features (lr2 (dis_anomlay self)))) Ya)" "params w3 = params w2"
    by blast
  have "MultiTask_forward self (Mat N F X) (Mat N N A) w
             = Inr ((Mat N ?h H,
                     Mat N (nat (lin_out_features (lr2 (dis_neighbor self)))) Yn,
                     Mat N (nat (lin_out_features (lr2 (dis_anomlay self)))) Ya), w3)"
    using e(1) n(1) a(1) by (simp add: MultiTask_forward_def)
  with e n a p2 show ?thesis
    by (intro exI[of _ H] exI[of _ Yn] exI[of _ Ya] exI[of _ w1] exI[of _ w2] exI[of _ w3]) simp
qed

lemma SingleTask_forward_shape:
  assumes inv: "SingleTask_inv self w"
    and pe: "0 \<le> Encoder_dropout (SingleTask_encoder self)" "Encoder_dropout (SingleTask_encoder self) \<le> 1"
    and pd: "0 \<le> Discriminator_dropout (discriminator self)" "Discriminator_dropout (discriminator self) \<le> 1"
    and X: "wf_tensor (Mat N F X)" and F: "int F = in_features (gc1 (SingleTask_encoder self))"
    and A: "wf_tensor (Mat N N A)"
  shows "\<exists>H Y w'.
           SingleTask_forward self (Mat N F X) (Mat N N A) w
             = Inr ((Mat N (nat (out_features (gc2 (SingleTask_encoder self)))) H,
                     Mat N (nat (lin_out_features (lr2 (discriminator self)))) Y), w') \<and>
           wf_tensor (Mat N (nat (out_features (gc2 (SingleTask_encoder self)))) H) \<and>
           wf_tensor (Mat N (nat (lin_out_features (lr2 (discriminator self)))) Y) \<and>
           params w' = params w"
proof -
  let ?h = "nat (out_features (gc2 (SingleTask_encoder self)))"
  from inv have ie: "Encoder_inv (SingleTask_encoder self) w"
    and dd: "Discriminator_inv (discriminator self) w"
    and cd: "lin_in_features (lr1 (discriminator self)) = out_features (gc2 (SingleTask_encoder self))"
    by (simp_all add: SingleTask_inv_def)
  from ie have "0 \<le> out_features (gc2 (SingleTask_encoder self))"
    using GraphConvolution_inv_nonneg(2)[of "gc2 (SingleTask_encoder self)" w] by (simp add: Encoder_inv_def)
  then have Fd: "int ?h = lin_in_features (lr1 (discriminator self))"
    using cd by simp
  from Encoder_forward_shape[OF ie pe X F A] obtain H w1 where
    e: "Encoder_forward (SingleTask_encoder self) (Mat N F X) (Mat N N A) w = Inr (Mat N ?h H, w1)"
       "wf_tensor (Mat N ?h H)" "params w1 = params w"
    by blast
  have dd1: "Discriminator_inv (discriminator self) w1"
    using dd by (simp add: Discriminator_inv_def Linear_inv_cong[OF e(3)])
  from Discriminator_forward_shape[OF dd1 pd e(2) Fd] obtain Y w2 where
    n: "Discriminator_forward (discriminator self) (Mat N ?h H) w1
          = Inr (Mat N (nat (lin_out_features (lr2 (discriminator self)))) Y, w2)"
       "wf_tensor (Mat N (nat (lin_out_features (lr2 (discriminator self)))) Y)" "params w2 = params w1"
    by blast
  have "SingleTask_forward self (Mat N F X) (Mat N N A) w
             = Inr ((Mat N ?h H, Mat N (nat (lin_out_features (lr2 (discriminator self)))) Y), w2)"
    using e(1) n(1) by (simp add: SingleTask_forward_def)
  with e n show ?thesis by (intro exI[of _ H] exI[of _ Y] exI[of _ w2]) simp
qed

lemma mt_example_inv: "MultiTask_inv mt_example mt_world"
  by (simp add: MultiTask_inv_def Encoder_inv_def Discriminator_inv_def GraphConvolution_inv_def
      Linear_inv_def mt_example_def mt_world_def deref_def)

lemma st_example_inv: "SingleTask_inv st_example mt_world"
  using mt_example_inv by (simp add: SingleTask_inv_def MultiTask_inv_def st_example_def)

subsection \<open>Inference mode\<close>

lemma outcome_simps [simp]: "outcome (Inl e) = Inl e" "outcome (Inr (y, w)) = Inr y"
  by (simp_all add: outcome_def)

lemma GraphConvolution_forward_world:
  "GraphConvolution_forward self x adj w = bindE (outcome (GraphConvolution_forward self x adj w)) (\<lambda>y. Inr (y, w))"
  by (auto simp: GraphConvolution_forward_def bindE_def split: sum.splits option.splits)

lemma GraphConvolution_forward_outcome:
  assumes "params w' = params w"
  shows "outcome (GraphConvolution_forward self x adj w') = outcome (GraphConvolution_forward self x adj w)"
  unfolding GraphConvolution_forward_def deref_cong[OF assms]
  by (auto simp: bindE_def split: sum.splits option.splits)

lemma Linear_forward_world:
  "Linear_forward self x w = bindE (outcome (Linear_forward self x w)) (\<lambda>y. Inr (y, w))"
  by (auto simp: Linear_forward_def bindE_def split: sum.splits)

lemma Linear_forward_outcome:
  assumes "params w' = params w"
  shows "outcome (Linear_forward self x w') = outcome (Linear_forward self x w)"
  unfolding Linear_forward_def deref_cong[OF assms]
  by (auto simp: bindE_def split: sum.splits)

lemma Encoder_forward_inference:
  assumes "\<not> Encoder_training self"
  shows "Encoder_forward self x adj w =
     (if Encoder_dropout self < 0 \<or> 1 < Encoder_dropout self then Inl ValueError
      else bindE (outcome (GraphConvolution_forward (gc1 self) x adj w)) (\<lambda>h.
           bindE (outcome (GraphConvolution_forward (gc2 self) (relu h) adj w)) (\<lambda>y. Inr (y, w))))"
proof -
  note g1 = GraphConvolution_forward_world[of "gc1 self" x adj w]
  show ?thesis
    unfolding Encoder_forward_def
    using assms
    apply (simp add: dropout_inference Let_def)
    apply (subst g1)
    apply (cases "outcome (GraphConvolution_forward (gc1 self) x adj w)")
     apply simp
    apply (simp add: GraphConvolution_forward_world[symmetric])
    done
qed

lemma Encoder_forward_outcome:
  assumes "\<not> Encoder_training self" "params w' = params w"
  shows "outcome (Encoder_forward self x adj w') = outcome (Encoder_forward self x adj w)"
  unfolding Encoder_forward_inference[OF assms(1)]
    GraphConvolution_forward_outcome[OF assms(2)]
  by (auto simp: bindE_def split: sum.splits)

lemma Discriminator_forward_inference:
  assumes "\<not> Discriminator_training self"
  shows "Discriminator_forward self x w =
     (if Discriminator_dropout self < 0 \<or> 1 < Discriminator_dropout self then Inl ValueError
      else bindE (outcome (Linear_forward (lr1 self) (relu x) w)) (\<lambda>h.
           bindE (outcome (Linear_forward (lr2 self) (relu h) w)) (\<lambda>y. Inr (y, w))))"
proof -
  note g1 = Linear_forward_world[of "lr1 self" "relu x" w]
  show ?thesis
    unfolding Discriminator_forward_def
    using assms
    apply (simp add: dropout_inference Let_def)
    apply (subst g1)
    apply (cases "outcome (Linear_forward (lr1 self) (relu x) w)")
     apply simp
    apply (simp add: Linear_forward_world[symmetric])
    done
qed

lemma Discriminator_forward_outcome:
  assumes "\<not> Discriminator_training self" "params w' = params w"
  shows "outcome (Discriminator_forward self x w') = outcome (Discriminator_forward self x w)"
  unfolding Discriminator_forward_inference[OF assms(1)]
    Linear_forward_outcome[OF assms(2)]
  by (auto simp: bindE_def split: sum.splits)

lemma Encoder_forward_world:
  assumes "\<not> Encoder_training self"
  shows "Encoder_forward self x adj w = bindE (outcome (Encoder_forward self x adj w)) (\<lambda>y. Inr (y, w))"
  unfolding Encoder_forward_inference[OF assms]
  by (auto simp: bindE_def split: sum.splits)

lemma Discriminator_forward_world:
  assumes "\<not> Discriminator_training self"
  shows "Discriminator_forward self x w = bindE (outcome (Discriminator_forward self x w)) (\<lambda>y. Inr (y, w))"
  unfolding Discriminator_forward_inference[OF assms]
  by (auto simp: bindE_def split: sum.splits)

lemma bindE_world:
  assumes "r = bindE (outcome r) (\<lambda>y. Inr (y, w))"
  shows "bindE r (\<lambda>(y, w1). k y w1) = bindE (outcome r) (\<lambda>y. k y w)"
proof (cases r)
  case (Inl e)
  then show ?thesis by simp
next
  case (Inr yw)
  obtain y w1 where yw: "yw = (y, w1)" by (cases yw)
  from assms Inr yw have "w1 = w" by simp
  with Inr yw show ?thesis by simp
qed

lemma MultiTask_forward_inference:
  assumes "\<not> Encoder_training (encoder self)" "\<not> Discriminator_training (dis_neighbor self)"
    "\<not> Discriminator_training (dis_anomlay self)"
  shows "MultiTask_forward self x adj w =
     bindE (outcome (Encoder_forward (encoder self) x adj w)) (\<lambda>h.
     bindE (outcome (Discriminator_forward (dis_neighbor self) h w)) (\<lambda>pred_nc.
     bindE (outcome (Discriminator_forward (dis_anomlay self) h w)) (\<lambda>pred_ad.
       Inr ((h, pred_nc, pred_ad), w))))"
  unfolding MultiTask_forward_def
  by (simp add: bindE_world[OF Encoder_forward_world[OF assms(1)]]
      bindE_world[OF Discriminator_forward_world[OF assms(2)]]
      bindE_world[OF Discriminator_forward_world[OF assms(3)]])

lemma SingleTask_forward_inference:
  assumes "\<not> Encoder_training (SingleTask_encoder self)" "\<not> Discriminator_training (discriminator self)"
  shows "SingleTask_forward self x adj w =
     bindE (outcome (Encoder_forward (SingleTask_encoder self) x adj w)) (\<lambda>h.
     bindE (outcome (Discriminator_forward (discriminator self) h w)) (\<lambda>pred.
       Inr ((h, pred), w)))"
  unfolding SingleTask_forward_def
  by (simp add: bindE_world[OF Encoder_forward_world[OF assms(1)]]
      bindE_world[OF Discriminator_forward_world[OF assms(2)]])

lemma MultiTask_forward_outcome:
  assumes "\<not> Encoder_training (encoder self)" "\<not> Discriminator_training (dis_neighbor self)"
    "\<not> Discriminator_training (dis_anomlay self)" "params w' = params w"
  shows "outcome (MultiTask_forward self x adj w') = outcome (MultiTask_forward self x adj w)"
  unfolding MultiTask_forward_inference[OF assms(1,2,3)]
    Encoder_forward_outcome[OF assms(1,4)]
    Discriminator_forward_outcome[OF assms(2,4)] Discriminator_forward_outcome[OF assms(3,4)]
  by (auto simp: bindE_def split: sum.splits)

lemma SingleTask_forward_outcome:
  assumes "\<not> Encoder_training (SingleTask_encoder self)" "\<not> Discriminator_training (discriminator self)"
    "params w' = params w"
  shows "outcome (SingleTask_forward self x adj w') = outcome (SingleTask_forward self x adj w)"
  unfolding SingleTask_forward_inference[OF assms(1,2)]
    Encoder_forward_outcome[OF assms(1,3)]
    Discriminator_forward_outcome[OF assms(2,3)]
  by (auto simp: bindE_def split: sum.splits)

subsection \<open>Bounds and indices of the initial entries\<close>



subsection \<open>Composite constructors\<close>

lemma raises_bindE: "raises (bindE m f) \<longleftrightarrow> raises m \<or> (\<exists>x. m = Inr x \<and> raises (f x))"
  by (cases m) simp_all

lemma Encoder_inv_extend:
  assumes "Encoder_inv self w" "params w' = params w @ ts"
  shows "Encoder_inv self w'"
  using assms by (auto simp: Encoder_inv_def intro: GraphConvolution_inv_extend)

lemma Discriminator_inv_extend:
  assumes "Discriminator_inv self w" "params w' = params w @ ts"
  shows "Discriminator_inv self w'"
  using assms by (auto simp: Discriminator_inv_def intro: Linear_inv_extend)

lemma MultiTask_init_result:
  assumes "MultiTask_init nfeat nhid nout p w = Inr (self, w')"
  shows "\<exists>w1 w2. Encoder_init nfeat nhid p w = Inr (encoder self, w1) \<and>
           Discriminator_init nhid nout p w1 = Inr (dis_neighbor self, w2) \<and>
           Discriminator_init nhid 2 p w2 = Inr (dis_anomlay self, w') \<and>
           length (params w1) = length (params w) + 4 \<and>
           length (params w2) = length (params w) + 8"
    and "MultiTask_inv self w'"
    and "0 \<le> nfeat" "0 < nhid" "0 \<le> nout"
proof -
  from assms obtain e w1 dn w2 da where
    a: "Encoder_init nfeat nhid p w = Inr (e, w1)"
    and b: "Discriminator_init nhid nout p w1 = Inr (dn, w2)"
    and c: "Discriminator_init nhid 2 p w2 = Inr (da, w')"
    and s: "self = \<lparr>encoder = e, dis_neighbor = dn, dis_anomlay = da\<rparr>"
    by (auto simp: MultiTask_init_def bindE_Inr)
  note ra = Encoder_init_result[OF a] and rb = Discriminator_init_result[OF b]
    and rc = Discriminator_init_result[OF c]
  from ra(4) obtain t1 where t1: "params w1 = params w @ t1" "length t1 = 4" by auto
  from rb(4) obtain t2 where t2: "params w2 = params w1 @ t2" "length t2 = 4" by auto
  from rc(4) obtain t3 where t3: "params w' = params w2 @ t3" "length t3 = 4" by auto
  show "\<exists>w1 w2. Encoder_init nfeat nhid p w = Inr (encoder self, w1) \<and>
           Discriminator_init nhid nout p w1 = Inr (dis_neighbor self, w2) \<and>
           Discriminator_init nhid 2 p w2 = Inr (dis_anomlay self, w') \<and>
           length (params w1) = length (params w) + 4 \<and>
           length (params w2) = length (params w) + 8"
    using a b c s t1 t2 by (intro exI[of _ w1] exI[of _ w2]) simp
  show "0 \<le> nfeat" "0 < nhid" "0 \<le> nout" using ra rb by simp_all
  have e2: "params w' = params w1 @ (t2 @ t3)" using t2 t3 by simp
  have "Encoder_inv e w'" by (rule Encoder_inv_extend[OF ra(6) e2])
  moreover have "Discriminator_inv dn w'" by (rule Discriminator_inv_extend[OF rb(6) t3(1)])
  moreover note rc(6)
  moreover have "out_features (gc2 e) = nhid" using ra(1) by simp
  moreover have "lin_in_features (lr1 dn) = nhid" "lin_in_features (lr1 da) = nhid"
    using rb(1) rc(1) by simp_all
  ultimately show "MultiTask_inv self w'"
    using s by (simp add: MultiTask_inv_def)
qed

lemma SingleTask_init_result:
  assumes "SingleTask_init nfeat nhid nout p w = Inr (self, w')"
  shows "\<exists>w1. Encoder_init nfeat nhid p w = Inr (SingleTask_encoder self, w1) \<and>
           Discriminator_init nhid nout p w1 = Inr (discriminator self, w') \<and>
           length (params w1) = length (params w) + 4"
    and "SingleTask_inv self w'"
    and "0 \<le> nfeat" "0 < nhid" "0 \<le> nout"
proof -
  from assms obtain e w1 d where
    a: "Encoder_init nfeat nhid p w = Inr (e, w1)"
    and b: "Discriminator_init nhid nout p w1 = Inr (d, w')"
    and s: "self = \<lparr>SingleTask_encoder = e, discriminator = d\<rparr>"
    by (auto simp: SingleTask_init_def bindE_Inr)
  note ra = Encoder_init_result[OF a] and rb = Discriminator_init_result[OF b]
  from ra(4) obtain t1 where t1: "params w1 = params w @ t1" "length t1 = 4" by auto
  from rb(4) obtain t2 where t2: "params w' = params w1 @ t2" "length t2 = 4" by auto
  show "\<exists>w1. Encoder_init nfeat nhid p w = Inr (SingleTask_encoder self, w1) \<and>
           Discriminator_init nhid nout p w1 = Inr (discriminator self, w') \<and>
           length (params w1) = length (params w) + 4"
    using a b s t1 by (intro exI[of _ w1]) simp
  show "0 \<le> nfeat" "0 < nhid" "0 \<le> nout" using ra rb by simp_all
  have "Encoder_inv e w'" by (rule Encoder_inv_extend[OF ra(6) t2(1)])
  moreover note rb(6)
  moreover have "out_features (gc2 e) = nhid" using ra(1) by simp
  moreover have "lin_in_features (lr1 d) = nhid" using rb(1) by simp
  ultimately show "SingleTask_inv self w'"
    using s by (simp add: SingleTask_inv_def)
qed

lemma MultiTask_init_raises:
  "raises (MultiTask_init nfeat nhid nout p w) \<longleftrightarrow> nfeat < 0 \<or> nhid \<le> 0 \<or> nout < 0"
proof (cases "raises (Encoder_init nfeat nhid p w)")
  case True
  then show ?thesis
    using Encoder_init_raises[of nfeat nhid p w]
    by (auto simp: MultiTask_init_def raises_bindE)
next
  case False
  then obtain e w1 where e: "Encoder_init nfeat nhid p w = Inr (e, w1)"
    unfolding not_raises by auto
  from False have ok: "0 \<le> nfeat" "0 < nhid" by (simp_all add: Encoder_init_raises)
  show ?thesis
  proof (cases "raises (Discriminator_init nhid nout p w1)")
    case True
    then show ?thesis
      using Discriminator_init_raises[of nhid nout p w1] e ok
      by (auto simp: MultiTask_init_def raises_bindE)
  next
    case dn: False
    then obtain d w2 where d: "Discriminator_init nhid nout p w1 = Inr (d, w2)"
      unfolding not_raises by auto
    from dn have okn: "0 \<le> nout" by (simp add: Discriminator_init_raises)
    have "\<not> raises (Discriminator_init nhid 2 p w2)"
      using ok by (simp add: Discriminator_init_raises)
    then obtain a w3 where a: "Discriminator_init nhid 2 p w2 = Inr (a, w3)"
      unfolding not_raises by auto
    show ?thesis using e d a ok okn by (simp add: MultiTask_init_def)
  qed
qed

lemma SingleTask_init_raises:
  "raises (SingleTask_init nfeat nhid nout p w) \<longleftrightarrow> nfeat < 0 \<or> nhid \<le> 0 \<or> nout < 0"
proof (cases "raises (Encoder_init nfeat nhid p w)")
  case True
  then show ?thesis
    using Encoder_init_raises[of nfeat nhid p w]
    by (auto simp: SingleTask_init_def raises_bindE)
next
  case False
  then obtain e w1 where e: "Encoder_init nfeat nhid p w = Inr (e, w1)"
    unfolding not_raises by auto
  from False have ok: "0 \<le> nfeat" "0 < nhid" by (simp_all add: Encoder_init_raises)
  show ?thesis
  proof (cases "raises (Discriminator_init nhid nout p w1)")
    case True
    then show ?thesis
      using Discriminator_init_raises[of nhid nout p w1] e ok
      by (auto simp: SingleTask_init_def raises_bindE)
  next
    case dn: False
    then obtain d w2 where d: "Discriminator_init nhid nout p w1 = Inr (d, w2)"
      unfolding not_raises by auto
    from dn have okn: "0 \<le> nout" by (simp add: Discriminator_init_raises)
    show ?thesis using e d ok okn by (simp add: SingleTask_init_def)
  qed
qed

lemma Encoder_forward_invalid_dropout:
  assumes "Encoder_dropout self < 0 \<or> 1 < Encoder_dropout self"
  shows "Encoder_forward self x adj w = Inl ValueError"
  using assms by (simp add: Encoder_forward_def dropout_def)

lemma Discriminator_forward_invalid_dropout:
  assumes "Discriminator_dropout self < 0 \<or> 1 < Discriminator_dropout self"
  shows "Discriminator_forward self x w = Inl ValueError"
  using assms by (simp add: Discriminator_forward_def dropout_def)

subsection \<open>Pipelines and widths\<close>

lemma Encoder_forward_pipeline:
  "Encoder_forward self x adj w = spec_Encoder_pipeline self adj (x, w)"
  by (simp add: Encoder_forward_def spec_Encoder_pipeline_def then_stage_def dropout_stage_def
      relu_stage_def GraphConvolution_stage_def Let_def bindE_def split: sum.splits prod.splits)

lemma Discriminator_forward_pipeline:
  "Discriminator_forward self x w = spec_Discriminator_pipeline self (x, w)"
  by (simp add: Discriminator_forward_def spec_Discriminator_pipeline_def then_stage_def dropout_stage_def
      relu_stage_def Linear_stage_def Let_def bindE_def split: sum.splits prod.splits)

lemma mm_width:
  assumes "mm x (Mat k m W) = Inr s"
  shows "\<exists>n S. s = Mat n m S \<and> list_all (\<lambda>r. length r = m) S"
  using assms by (cases x) (auto simp: list_all_length split: if_splits)

lemma add_Vec_width:
  assumes "add (Mat n m T) (Vec v) = Inr r" "length v = m"
  shows "\<exists>R. r = Mat n m R \<and> list_all (\<lambda>r. length r = m) R"
  using add_Mat_Vec[OF assms(2), of n T] assms(1) by auto

lemma GraphConvolution_forward_width:
  assumes inv: "GraphConvolution_inv self w"
    and ret: "GraphConvolution_forward self x adj w = Inr (y, w')"
  shows "\<exists>n H. y = Mat n (nat (out_features self)) H \<and>
           list_all (\<lambda>r. length r = nat (out_features self)) H"
proof -
  let ?m = "nat (out_features self)"
  from GraphConvolution_inv_weight[OF inv] obtain W where
    W: "deref w (weight self) = Inr (Mat (nat (in_features self)) ?m W)" by blast
  from ret W obtain support outp where
    s: "mm x (Mat (nat (in_features self)) ?m W) = Inr support"
    and o: "mm adj support = Inr outp"
    by (auto simp: GraphConvolution_forward_def bindE_Inr spmm_def)
  from mm_width[OF s] obtain n S where S: "support = Mat n ?m S" by blast
  from mm_width[OF o[unfolded S]] obtain a T where
    T: "outp = Mat a ?m T" "list_all (\<lambda>r. length r = ?m) T" by blast
  show ?thesis
  proof (cases "bias self")
    case None
    with ret W s o T show ?thesis
      by (auto simp: GraphConvolution_forward_def spmm_def)
  next
    case (Some b)
    from GraphConvolution_inv_bias[OF inv Some] obtain v where
      v: "deref w b = Inr (Vec v)" "length v = ?m" by blast
    from ret W s o T Some v have "add (Mat a ?m T) (Vec v) = Inr y"
      by (auto simp: GraphConvolution_forward_def spmm_def bindE_Inr)
    from add_Vec_width[OF this v(2)] show ?thesis by blast
  qed
qed

lemma Encoder_forward_width:
  assumes inv: "Encoder_inv self w"
    and ret: "Encoder_forward self x adj w = Inr (y, w')"
  shows "\<exists>n H. y = Mat n (nat (out_features (gc2 self))) H \<and>
           list_all (\<lambda>r. length r = nat (out_features (gc2 self))) H"
proof -
  from ret obtain x1 w1 h w2 x3 w3 where
    d1: "dropout x (Encoder_dropout self) (Encoder_training self) w = Inr (x1, w1)"
    and g1: "GraphConvolution_forward (gc1 self) x1 adj w1 = Inr (h, w2)"
    and d2: "dropout (relu h) (Encoder_dropout self) (Encoder_training self) w2 = Inr (x3, w3)"
    and g: "GraphConvolution_forward (gc2 self) x3 adj w3 = Inr (y, w')"
    by (auto simp: Encoder_forward_def bindE_Inr Let_def)
  have p: "params w3 = params w"
    using dropout_frame(1)[OF d1] GraphConvolution_forward_frame[OF g1] dropout_frame(1)[OF d2]
    by simp
  have "GraphConvolution_inv (gc2 self) w3"
    using inv by (simp add: Encoder_inv_def GraphConvolution_inv_cong[OF p])
  from GraphConvolution_forward_width[OF this g] show ?thesis .
qed

subsection \<open>The examples\<close>

lemma encoder_example_init: "\<exists>w1. Encoder_init 2 2 (1/2) world0 = Inr (encoder mt_example, w1)"
proof -
  have "\<not> raises (Encoder_init 2 2 (1/2) world0)" by (simp add: Encoder_init_raises)
  then obtain e w1 where e: "Encoder_init 2 2 (1/2) world0 = Inr (e, w1)"
    unfolding not_raises by auto
  have "e = encoder mt_example"
    using Encoder_init_result(1)[OF e] by (simp add: mt_example_def world0_def)
  with e show ?thesis by blast
qed

lemma dis_example_init: "\<exists>w1. Discriminator_init 3 2 0 world0 = Inr (dis_example, w1)"
proof -
  have "\<not> raises (Discriminator_init 3 2 0 world0)" by (simp add: Discriminator_init_raises)
  then obtain d w1 where d: "Discriminator_init 3 2 0 world0 = Inr (d, w1)"
    unfolding not_raises by auto
  have "d = dis_example"
    using Discriminator_init_result(1)[OF d] by (simp add: dis_example_def world0_def)
  with d show ?thesis by blast
qed

lemma dis_example_inv: "Discriminator_inv dis_example dis_world"
  by (simp add: Discriminator_inv_def Linear_inv_def dis_example_def dis_world_def deref_def)

lemma mt_example_eval_inv: "MultiTask_inv mt_example_eval mt_world"
  using mt_example_inv
  by (simp add: MultiTask_inv_def Encoder_inv_def Discriminator_inv_def mt_example_eval_def)

lemma Discriminator_forward_last:
  assumes inv: "Discriminator_inv self w"
    and p: "0 \<le> Discriminator_dropout self" "Discriminator_dropout self \<le> 1"
    and X: "wf_tensor (Mat N F X)" and F: "int F = lin_in_features (lr1 self)"
  shows "\<exists>H w'. wf_tensor (Mat N (nat (lin_out_features (lr1 self))) H) \<and> params w' = params w \<and>
           (Discriminator_training self \<or> w' = w) \<and>
           Discriminator_forward self (Mat N F X) w
             = Linear_forward (lr2 self) (Mat N (nat (lin_out_features (lr1 self))) H) w'"
proof -
  let ?p = "Discriminator_dropout self" and ?t = "Discriminator_training self"
  from relu_Mat[OF X] obtain X0 where
    r0: "relu (Mat N F X) = Mat N F X0" "wf_tensor (Mat N F X0)" by blast
  from dropout_Mat[OF p r0(2)] obtain X1 w1 where
    d1: "dropout (Mat N F X0) ?p ?t w = Inr (Mat N F X1, w1)" "wf_tensor (Mat N F X1)" "params w1 = params w"
    by blast
  have m1: "?t \<or> w1 = w" using d1(1) p by (auto simp: dropout_def split: if_splits)
  from inv have i1: "Linear_inv (lr1 self) w1"
    by (simp_all add: Discriminator_inv_def Linear_inv_cong[OF d1(3)])
  let ?M = "nat (lin_out_features (lr1 self))"
  from Linear_forward_formula[OF i1 d1(2) F] obtain H1 where
    l1: "Linear_forward (lr1 self) (Mat N F X1) w1 = Inr (Mat N ?M H1, w1)"
        "wf_tensor (Mat N ?M H1)"
    by blast
  from relu_Mat[OF l1(2)] obtain H2 where
    r: "relu (Mat N ?M H1) = Mat N ?M H2" "wf_tensor (Mat N ?M H2)" by blast
  from dropout_Mat[OF p r(2)] obtain X3 w3 where
    d2: "dropout (Mat N ?M H2) ?p ?t w1 = Inr (Mat N ?M X3, w3)" "wf_tensor (Mat N ?M X3)" "params w3 = params w1"
    by blast
  have m2: "?t \<or> w3 = w1" using d2(1) p by (auto simp: dropout_def split: if_splits)
  have "Discriminator_forward self (Mat N F X) w = Linear_forward (lr2 self) (Mat N ?M X3) w3"
    using r0(1) d1(1) l1(1) r(1) d2(1) by (simp add: Discriminator_forward_def)
  with d2(2) d1(3) d2(3) m1 m2 show ?thesis
    by (intro exI[of _ X3] exI[of _ w3]) auto
qed

lemma MultiTask_forward_parts:
  assumes "MultiTask_forward self x adj w = Inr ((H, nc, ad), w')"
  shows "\<exists>w1 w2. Encoder_forward (encoder self) x adj w = Inr (H, w1) \<and>
           Discriminator_forward (dis_neighbor self) H w1 = Inr (nc, w2) \<and>
           Discriminator_forward (dis_anomlay self) H w2 = Inr (ad, w')"
  using assms by (auto simp: MultiTask_forward_def bindE_Inr)

lemma MultiTask_init_parameters:
  assumes "MultiTask_init nfeat nhid nout p w = Inr (self, w')"
  shows "Encoder_parameters (encoder self) = [length (params w) ..< length (params w) + 4]"
    and "Discriminator_parameters (dis_neighbor self) = [length (params w) + 4 ..< length (params w) + 8]"
    and "Discriminator_parameters (dis_anomlay self) = [length (params w) + 8 ..< length (params w) + 12]"
    and "lin_in_features (lr1 (dis_neighbor self)) = nhid" "lin_out_features (lr2 (dis_neighbor self)) = nout"
    and "lin_in_features (lr1 (dis_anomlay self)) = nhid" "lin_out_features (lr2 (dis_anomlay self)) = 2"
    and "in_features (gc1 (encoder self)) = nfeat" "out_features (gc2 (encoder self)) = nhid"
    and "Encoder_dropout (encoder self) = p" "Discriminator_dropout (dis_neighbor self) = p"
        "Discriminator_dropout (dis_anomlay self) = p"
proof -
  from MultiTask_init_result(1)[OF assms] obtain w1 w2 where
    a: "Encoder_init nfeat nhid p w = Inr (encoder self, w1)"
    and b: "Discriminator_init nhid nout p w1 = Inr (dis_neighbor self, w2)"
    and c: "Discriminator_init nhid 2 p w2 = Inr (dis_anomlay self, w')"
    and l1: "length (params w1) = length (params w) + 4"
    and l2: "length (params w2) = length (params w) + 8"
    by blast
  note ra = Encoder_init_result(1)[OF a] and rb = Discriminator_init_result(1)[OF b]
    and rc = Discriminator_init_result(1)[OF c]
  have u: "[n ..< n + 4] = [n, n + 1, n + 2, n + 3]" for n :: nat
    by (simp add: upt_conv_Cons)
  show "Encoder_parameters (encoder self) = [length (params w) ..< length (params w) + 4]"
    unfolding u by (subst ra) (simp add: Encoder_parameters_def GraphConvolution_parameters_def)
  have "Discriminator_parameters (dis_neighbor self) = [length (params w1) ..< length (params w1) + 4]"
    unfolding u by (subst rb) (simp add: Discriminator_parameters_def Linear_parameters_def)
  then show "Discriminator_parameters (dis_neighbor self) = [length (params w) + 4 ..< length (params w) + 8]"
    using l1 by (simp add: add.assoc)
  have "Discriminator_parameters (dis_anomlay self) = [length (params w2) ..< length (params w2) + 4]"
    unfolding u by (subst rc) (simp add: Discriminator_parameters_def Linear_parameters_def)
  then show "Discriminator_parameters (dis_anomlay self) = [length (params w) + 8 ..< length (params w) + 12]"
    using l2 by (simp add: add.assoc)
  show "lin_in_features (lr1 (dis_neighbor self)) = nhid" "lin_out_features (lr2 (dis_neighbor self)) = nout"
    by (subst rb, simp)+
  show "lin_in_features (lr1 (dis_anomlay self)) = nhid" "lin_out_features (lr2 (dis_anomlay self)) = 2"
    by (subst rc, simp)+
  show "in_features (gc1 (encoder self)) = nfeat" "out_features (gc2 (encoder self)) = nhid"
    "Encoder_dropout (encoder self) = p"
    by (subst ra, simp)+
  show "Discriminator_dropout (dis_neighbor self) = p" by (subst rb, simp)
  show "Discriminator_dropout (dis_anomlay self) = p" by (subst rc, simp)
qed

lemma mt_example_init: "\<exists>w1. MultiTask_init 2 2 1 (1/2) world0 = Inr (mt_example, w1)"
proof -
  have "\<not> raises (MultiTask_init 2 2 1 (1/2) world0)" by (simp add: MultiTask_init_raises)
  then obtain m w' where m: "MultiTask_init 2 2 1 (1/2) world0 = Inr (m, w')"
    unfolding not_raises by auto
  from MultiTask_init_result(1)[OF m] obtain w1 w2 where
    a: "Encoder_init 2 2 (1/2) world0 = Inr (encoder m, w1)"
    and b: "Discriminator_init 2 1 (1/2) w1 = Inr (dis_neighbor m, w2)"
    and c: "Discriminator_init 2 2 (1/2) w2 = Inr (dis_anomlay m, w')"
    and l1: "length (params w1) = length (params world0) + 4"
    and l2: "length (params w2) = length (params world0) + 8"
    by blast
  have "encoder m = encoder mt_example"
    by (subst Encoder_init_result(1)[OF a]) (simp add: mt_example_def world0_def)
  moreover have "dis_neighbor m = dis_neighbor mt_example"
    by (subst Discriminator_init_result(1)[OF b]) (simp add: mt_example_def l1 world0_def)
  moreover have "dis_anomlay m = dis_anomlay mt_example"
    by (subst Discriminator_init_result(1)[OF c]) (simp add: mt_example_def l2 world0_def)
  ultimately have "m = mt_example" by (cases m, cases mt_example) simp
  with m show ?thesis by blast
qed

lemma mt_example_eval_train: "mt_example_eval = MultiTask_train False mt_example"
  by (simp add: mt_example_eval_def MultiTask_train_def)

lemma d1_example_init: "\<exists>self0 w1. Discriminator_init 1 2 (1/2) world0 = Inr (self0, w1) \<and>
    d1_example = self0\<lparr>Discriminator_training := False\<rparr>"
proof -
  have "\<not> raises (Discriminator_init 1 2 (1/2) world0)" by (simp add: Discriminator_init_raises)
  then obtain d w1 where d: "Discriminator_init 1 2 (1/2) world0 = Inr (d, w1)"
    unfolding not_raises by auto
  have "d1_example = d\<lparr>Discriminator_training := False\<rparr>"
    using Discriminator_init_result(1)[OF d] by (simp add: d1_example_def world0_def)
  with d show ?thesis by blast
qed

lemma d1_example_inv: "Discriminator_inv d1_example d1_world"
  by (simp add: Discriminator_inv_def Linear_inv_def d1_example_def d1_world_def deref_def)

subsection \<open>Permutations of the nodes\<close>

lemma perm_length: "mset sg = mset [0..<N] \<Longrightarrow> length sg = N"
  using mset_eq_length by fastforce

lemma perm_nth_less: "mset sg = mset [0..<N] \<Longrightarrow> i < N \<Longrightarrow> sg ! i < N"
proof -
  assume a: "mset sg = mset [0..<N]" and i: "i < N"
  have "set sg = set [0..<N]" using a by (rule mset_eq_setD)
  moreover have "sg ! i \<in> set sg" using i perm_length[OF a] by simp
  ultimately show ?thesis by simp
qed

lemma sum_perm:
  fixes f :: "nat \<Rightarrow> real"
  assumes "mset sg = mset [0..<N]"
  shows "(\<Sum>k<N. f (sg ! k)) = (\<Sum>k<N. f k)"
proof -
  have "(\<Sum>k<N. f (sg ! k)) = sum_list (map f sg)"
    using perm_length[OF assms] by (simp add: sum_list_sum_nth atLeast0LessThan)
  also have "\<dots> = sum_mset (image_mset f (mset sg))"
    by (simp add: sum_mset_sum_list[symmetric])
  also have "\<dots> = sum_mset (image_mset f (mset [0..<N]))" by (simp add: assms)
  also have "\<dots> = sum_list (map f [0..<N])"
    by (simp add: sum_mset_sum_list[symmetric])
  also have "\<dots> = (\<Sum>k<N. f k)"
    by (simp add: sum_list_sum_nth atLeast0LessThan)
  finally show ?thesis .
qed

lemma wf_perm_matrix: "wf_tensor (perm_matrix sg)"
  by (simp add: perm_matrix_def list_all_length)

lemma sum_delta_left:
  fixes g :: "nat \<Rightarrow> real"
  assumes "c < N"
  shows "(\<Sum>k<N. (if k = c then 1 else 0) * g k) = g c"
proof -
  have "(\<Sum>k<N. (if k = c then 1 else 0) * g k) = (\<Sum>k\<in>{..<N}. if k = c then g k else 0)"
    by (rule sum.cong) simp_all
  also have "\<dots> = g c" using assms by (simp add: sum.delta)
  finally show ?thesis .
qed

lemma sum_delta_right:
  fixes g :: "nat \<Rightarrow> real"
  assumes "c < N"
  shows "(\<Sum>k<N. g k * (if k = c then 1 else 0)) = g c"
  using sum_delta_left[OF assms, of g] by (simp add: mult.commute)

lemma mm_perm_rows:
  assumes perm: "mset sg = mset [0..<N]" and X: "wf_tensor (Mat N m X)"
  shows "mm (perm_matrix sg) (Mat N m X) = Inr (Mat N m (permute_rows sg X))"
    and "wf_tensor (Mat N m (permute_rows sg X))"
proof -
  note l = perm_length[OF perm]
  have P: "perm_matrix sg = Mat N N (map (\<lambda>i. map (\<lambda>j. if j = sg ! i then 1 else 0) [0..<N]) [0..<N])"
    (is "_ = Mat N N ?P")
    by (simp add: perm_matrix_def l)
  have wP: "wf_tensor (Mat N N ?P)" by (simp add: list_all_length)
  from X have lX: "length X = N" "\<And>i. i < N \<Longrightarrow> length (X ! i) = m"
    by (auto simp: list_all_length)
  from mm_entry[OF wP X] obtain R where
    R: "mm (Mat N N ?P) (Mat N m X) = Inr (Mat N m R)" "wf_tensor (Mat N m R)"
       "\<And>i j. i < N \<Longrightarrow> j < m \<Longrightarrow> R ! i ! j = (\<Sum>l<N. ?P ! i ! l * X ! l ! j)"
    by blast
  from R(2) have lR: "length R = N" "\<And>i. i < N \<Longrightarrow> length (R ! i) = m"
    by (auto simp: list_all_length)
  have e: "R ! i ! j = X ! (sg ! i) ! j" if "i < N" "j < m" for i j
  proof -
    have "R ! i ! j = (\<Sum>l<N. (if l = sg ! i then 1 else 0) * X ! l ! j)"
      unfolding R(3)[OF that] by (rule sum.cong) (use that in simp_all)
    also have "\<dots> = X ! (sg ! i) ! j"
      by (rule sum_delta_left) (rule perm_nth_less[OF perm that(1)])
    finally show ?thesis .
  qed
  have "R = permute_rows sg X"
  proof (rule nth_equalityI)
    show "length R = length (permute_rows sg X)" using lR l by (simp add: permute_rows_def)
  next
    fix i assume "i < length R"
    then have i: "i < N" using lR by simp
    have "R ! i = X ! (sg ! i)"
      by (rule nth_equalityI) (use i lR lX e perm_nth_less[OF perm i] in simp_all)
    then show "R ! i = permute_rows sg X ! i" using i l by (simp add: permute_rows_def)
  qed
  with R P show "mm (perm_matrix sg) (Mat N m X) = Inr (Mat N m (permute_rows sg X))"
    and "wf_tensor (Mat N m (permute_rows sg X))" by simp_all
qed

lemma mm_perm_cols:
  assumes perm: "mset sg = mset [0..<N]" and B: "wf_tensor (Mat n N B)"
  shows "mm (Mat n N B) (transpose_tensor (perm_matrix sg))
           = Inr (Mat n N (map (\<lambda>r. map (\<lambda>j. r ! (sg ! j)) [0..<N]) B))"
proof -
  note l = perm_length[OF perm]
  let ?PT = "map (\<lambda>j. map (\<lambda>i. if j = sg ! i then (1::real) else 0) [0..<N]) [0..<N]"
  have PT: "transpose_tensor (perm_matrix sg) = Mat N N ?PT"
    by (simp add: perm_matrix_def l cong: map_cong)
  have wPT: "wf_tensor (Mat N N ?PT)" by (simp add: list_all_length)
  from B have lB: "length B = n" "\<And>i. i < n \<Longrightarrow> length (B ! i) = N"
    by (auto simp: list_all_length)
  from mm_entry[OF B wPT] obtain R where
    R: "mm (Mat n N B) (Mat N N ?PT) = Inr (Mat n N R)" "wf_tensor (Mat n N R)"
       "\<And>i j. i < n \<Longrightarrow> j < N \<Longrightarrow> R ! i ! j = (\<Sum>l<N. B ! i ! l * ?PT ! l ! j)"
    by blast
  from R(2) have lR: "length R = n" "\<And>i. i < n \<Longrightarrow> length (R ! i) = N"
    by (auto simp: list_all_length)
  have e: "R ! i ! j = B ! i ! (sg ! j)" if "i < n" "j < N" for i j
  proof -
    have "R ! i ! j = (\<Sum>l<N. B ! i ! l * (if l = sg ! j then 1 else 0))"
      unfolding R(3)[OF that] by (rule sum.cong) (use that in simp_all)
    also have "\<dots> = B ! i ! (sg ! j)"
      by (rule sum_delta_right) (rule perm_nth_less[OF perm that(2)])
    finally show ?thesis .
  qed
  have "R = map (\<lambda>r. map (\<lambda>j. r ! (sg ! j)) [0..<N]) B"
  proof (rule nth_equalityI)
    show "length R = length (map (\<lambda>r. map (\<lambda>j. r ! (sg ! j)) [0..<N]) B)" using lR lB by simp
  next
    fix i assume "i < length R"
    then have i: "i < n" using lR by simp
    have "R ! i = map (\<lambda>j. B ! i ! (sg ! j)) [0..<N]"
      by (rule nth_equalityI) (use i lR e in simp_all)
    then show "R ! i = map (\<lambda>r. map (\<lambda>j. r ! (sg ! j)) [0..<N]) B ! i" using i lB by simp
  qed
  with R PT show ?thesis by simp
qed

lemma mm_perm_both:
  assumes perm: "mset sg = mset [0..<N]" and A: "wf_tensor (Mat N N A)"
  shows "bindE (mm (perm_matrix sg) (Mat N N A)) (\<lambda>PA. mm PA (transpose_tensor (perm_matrix sg)))
           = Inr (Mat N N (permute_both sg A))"
    and "wf_tensor (Mat N N (permute_both sg A))"
proof -
  note l = perm_length[OF perm]
  note r = mm_perm_rows[OF perm A]
  have "map (\<lambda>r. map (\<lambda>j. r ! (sg ! j)) [0..<N]) (permute_rows sg A) = permute_both sg A"
    by (simp add: permute_rows_def permute_both_def l)
  with mm_perm_cols[OF perm r(2)] r(1)
  show "bindE (mm (perm_matrix sg) (Mat N N A)) (\<lambda>PA. mm PA (transpose_tensor (perm_matrix sg)))
           = Inr (Mat N N (permute_both sg A))" by simp
  show "wf_tensor (Mat N N (permute_both sg A))"
    by (simp add: permute_both_def l list_all_length)
qed

lemma permute_rows_nth:
  "i < length sg \<Longrightarrow> permute_rows sg rs ! i = rs ! (sg ! i)"
  by (simp add: permute_rows_def)

lemma GraphConvolution_forward_permuted:
  assumes inv: "GraphConvolution_inv self w"
    and perm: "mset sg = mset [0..<N]"
    and X: "wf_tensor (Mat N F X)" and F: "int F = in_features self"
    and A: "wf_tensor (Mat N N A)"
  shows "\<exists>R. GraphConvolution_forward self (Mat N F X) (Mat N N A) w
                = Inr (Mat N (nat (out_features self)) R, w) \<and>
             wf_tensor (Mat N (nat (out_features self)) R) \<and>
             GraphConvolution_forward self (Mat N F (permute_rows sg X)) (Mat N N (permute_both sg A)) w
                = Inr (Mat N (nat (out_features self)) (permute_rows sg R), w)"
proof -
  let ?O = "nat (out_features self)"
  let ?b = "\<lambda>j. (case bias self of None \<Rightarrow> 0 | Some b \<Rightarrow> bias_of self w ! j)"
  let ?S = "\<lambda>k j. (\<Sum>l<F. X ! k ! l * weight_of self w ! l ! j)"
  note l = perm_length[OF perm]
  note lt = perm_nth_less[OF perm]
  have X': "wf_tensor (Mat N F (permute_rows sg X))" by (rule mm_perm_rows(2)[OF perm X])
  have A': "wf_tensor (Mat N N (permute_both sg A))" by (rule mm_perm_both(2)[OF perm A])
  from GraphConvolution_forward_formula[OF inv X F A] obtain R where
    R: "GraphConvolution_forward self (Mat N F X) (Mat N N A) w = Inr (Mat N ?O R, w)"
       "wf_tensor (Mat N ?O R)"
       "\<And>i j. i < N \<Longrightarrow> j < ?O \<Longrightarrow> R ! i ! j = (\<Sum>k<N. A ! i ! k * ?S k j) + ?b j"
    by blast
  from GraphConvolution_forward_formula[OF inv X' F A'] obtain R' where
    R': "GraphConvolution_forward self (Mat N F (permute_rows sg X)) (Mat N N (permute_both sg A)) w
           = Inr (Mat N ?O R', w)"
       "wf_tensor (Mat N ?O R')"
       "\<And>i j. i < N \<Longrightarrow> j < ?O \<Longrightarrow> R' ! i ! j =
          (\<Sum>k<N. permute_both sg A ! i ! k * (\<Sum>l<F. permute_rows sg X ! k ! l * weight_of self w ! l ! j)) + ?b j"
    by blast
  from R(2) R'(2) have lR: "length R = N" "\<And>i. i < N \<Longrightarrow> length (R ! i) = ?O"
    and lR': "length R' = N" "\<And>i. i < N \<Longrightarrow> length (R' ! i) = ?O"
    by (auto simp: list_all_length)
  have e: "R' ! i ! j = R ! (sg ! i) ! j" if ij: "i < N" "j < ?O" for i j
  proof -
    have "(\<Sum>k<N. permute_both sg A ! i ! k * (\<Sum>l<F. permute_rows sg X ! k ! l * weight_of self w ! l ! j))
        = (\<Sum>k<N. A ! (sg ! i) ! (sg ! k) * ?S (sg ! k) j)"
      by (rule sum.cong) (use ij l in \<open>simp_all add: permute_both_def permute_rows_def\<close>)
    also have "\<dots> = (\<Sum>k<N. A ! (sg ! i) ! k * ?S k j)"
      by (rule sum_perm[OF perm, of "\<lambda>k. A ! (sg ! i) ! k * ?S k j"])
    finally show ?thesis
      using R'(3)[OF ij] R(3)[OF lt[OF ij(1)] ij(2)] by simp
  qed
  have "R' = permute_rows sg R"
  proof (rule nth_equalityI)
    show "length R' = length (permute_rows sg R)" using lR' l by (simp add: permute_rows_def)
  next
    fix i assume "i < length R'"
    then have i: "i < N" using lR' by simp
    have "R' ! i = R ! (sg ! i)"
      by (rule nth_equalityI) (use i lR lR' e lt[OF i] in simp_all)
    then show "R' ! i = permute_rows sg R ! i" using i l by (simp add: permute_rows_def)
  qed
  with R R' show ?thesis by auto
qed

lemma relu_permute_rows:
  assumes perm: "mset sg = mset [0..<N]" and R: "wf_tensor (Mat N m R)"
  shows "relu (Mat N m (permute_rows sg R)) = Mat N m (permute_rows sg (map (map (max 0)) R))"
proof -
  note l = perm_length[OF perm]
  from R have "length R = N" by simp
  then show ?thesis
    using perm_nth_less[OF perm] by (simp add: permute_rows_def l)
qed

lemma Encoder_forward_permuted:
  assumes inv: "Encoder_inv self w" and mode: "\<not> Encoder_training self"
    and p: "0 \<le> Encoder_dropout self" "Encoder_dropout self \<le> 1"
    and perm: "mset sg = mset [0..<N]"
    and X: "wf_tensor (Mat N F X)" and F: "int F = in_features (gc1 self)"
    and A: "wf_tensor (Mat N N A)"
  shows "\<exists>H. Encoder_forward self (Mat N F X) (Mat N N A) w
                = Inr (Mat N (nat (out_features (gc2 self))) H, w) \<and>
             wf_tensor (Mat N (nat (out_features (gc2 self))) H) \<and>
             Encoder_forward self (Mat N F (permute_rows sg X)) (Mat N N (permute_both sg A)) w
                = Inr (Mat N (nat (out_features (gc2 self))) (permute_rows sg H), w)"
proof -
  from inv have i1: "GraphConvolution_inv (gc1 self) w" and i2: "GraphConvolution_inv (gc2 self) w"
    and ch: "out_features (gc1 self) = in_features (gc2 self)"
    by (simp_all add: Encoder_inv_def)
  let ?M = "nat (out_features (gc1 self))" and ?O = "nat (out_features (gc2 self))"
  from GraphConvolution_forward_permuted[OF i1 perm X F A] obtain R where
    R: "GraphConvolution_forward (gc1 self) (Mat N F X) (Mat N N A) w = Inr (Mat N ?M R, w)"
       "wf_tensor (Mat N ?M R)"
       "GraphConvolution_forward (gc1 self) (Mat N F (permute_rows sg X)) (Mat N N (permute_both sg A)) w
          = Inr (Mat N ?M (permute_rows sg R), w)"
    by blast
  let ?R2 = "map (map (max 0)) R"
  have r1: "relu (Mat N ?M R) = Mat N ?M ?R2" by simp
  have r2: "relu (Mat N ?M (permute_rows sg R)) = Mat N ?M (permute_rows sg ?R2)"
    by (rule relu_permute_rows[OF perm R(2)])
  have w2: "wf_tensor (Mat N ?M ?R2)" using R(2) by (simp add: list_all_length)
  have F2: "int ?M = in_features (gc2 self)"
    using ch GraphConvolution_inv_nonneg(2)[OF i1] by simp
  from GraphConvolution_forward_permuted[OF i2 perm w2 F2 A] obtain H where
    H: "GraphConvolution_forward (gc2 self) (Mat N ?M ?R2) (Mat N N A) w = Inr (Mat N ?O H, w)"
       "wf_tensor (Mat N ?O H)"
       "GraphConvolution_forward (gc2 self) (Mat N ?M (permute_rows sg ?R2)) (Mat N N (permute_both sg A)) w
          = Inr (Mat N ?O (permute_rows sg H), w)"
    by blast
  have np: "\<not> (Encoder_dropout self < 0 \<or> 1 < Encoder_dropout self)" using p by simp
  have "Encoder_forward self (Mat N F X) (Mat N N A) w = Inr (Mat N ?O H, w)"
    unfolding Encoder_forward_inference[OF mode] using np R(1) H(1) by (simp add: r1)
  moreover have "Encoder_forward self (Mat N F (permute_rows sg X)) (Mat N N (permute_both sg A)) w
                = Inr (Mat N ?O (permute_rows sg H), w)"
    unfolding Encoder_forward_inference[OF mode] using np R(3) H(3) by (simp add: r2 del: relu.simps)
  ultimately show ?thesis using H(2) by blast
qed

subsection \<open>Rounding to 32-bit floats\<close>

lemma find_append_None: "find P xs = None \<Longrightarrow> find P (xs @ ys) = find P ys"
  by (induction xs) (auto split: if_splits)

lemma float_exponent_eq:
  assumes "- 126 \<le> e" "e \<le> 127" "2 powi e \<le> \<bar>x\<bar>" "\<bar>x\<bar> < 2 powi (e + 1)"
  shows "float_exponent x = e"
proof -
  let ?P = "\<lambda>e. (2::real) powi e \<le> \<bar>x\<bar>"
  have s: "[-126..127] = [-126..e - 1] @ e # [e + 1..127]"
    by (rule upto_split3) (use assms in simp_all)
  have "\<not> ?P k" if "k \<in> set (rev [e + 1..127])" for k
  proof -
    from that have "e + 1 \<le> k" by (simp only: set_rev set_upto atLeastAtMost_iff)
    then have "(2::real) powi (e + 1) \<le> 2 powi k" by (rule power_int_increasing) simp
    with assms(4) show ?thesis by simp
  qed
  then have n: "find ?P (rev [e + 1..127]) = None" unfolding find_None_iff by blast
  have "find ?P (rev [-126..127]) = find ?P (e # rev [-126..e - 1])"
    unfolding s rev_append rev.simps append_assoc
    using find_append_None[OF n, of "[e] @ rev [-126..e - 1]"] by simp
  also have "\<dots> = Some e" using assms(3) by simp
  finally have "find ?P (rev [-126..127]) = Some e" .
  then show ?thesis unfolding float_exponent_def by (simp only: option.case)
qed

lemma float_exponent_small:
  assumes "\<bar>x\<bar> < 2 powi (- 126)"
  shows "float_exponent x = - 126"
proof -
  let ?P = "\<lambda>e. (2::real) powi e \<le> \<bar>x\<bar>"
  have "\<not> ?P k" if "k \<in> set (rev [-126..127])" for k
  proof -
    from that have "- 126 \<le> k" by (simp only: set_rev set_upto atLeastAtMost_iff)
    then have "(2::real) powi (- 126) \<le> 2 powi k" by (rule power_int_increasing) simp
    with assms show ?thesis by simp
  qed
  then have "find ?P (rev [-126..127]) = None" unfolding find_None_iff by blast
  then show ?thesis unfolding float_exponent_def by (simp only: option.case)
qed

lemma fl32_at:
  assumes "float_exponent x = e"
  shows "fl32 x = of_int (round_even (x / 2 powi (e - 23))) * 2 powi (e - 23)"
  using assms by (simp add: fl32_def)

lemma fl32_0 [simp]: "fl32 0 = 0"
  by (subst fl32_at[OF float_exponent_small]) (simp_all add: round_even_def)

lemma fl32_1 [simp]: "fl32 1 = 1"
  by (subst fl32_at[OF float_exponent_eq[where e = 0]]) (simp_all add: round_even_def)

lemma fl32_2 [simp]: "fl32 2 = 2"
  by (subst fl32_at[OF float_exponent_eq[where e = 1]]) (simp_all add: round_even_def)

lemma fl32_3 [simp]: "fl32 3 = 3"
  by (subst fl32_at[OF float_exponent_eq[where e = 1]]) (simp_all add: round_even_def)

lemma fl32_big: "fl32 (2 ^ 100) = 2 ^ 100"
  by (subst fl32_at[OF float_exponent_eq[where e = 100]]) (simp_all add: round_even_def)

lemma fl32_neg_big: "fl32 (- (2 ^ 100)) = - (2 ^ 100)"
  by (subst fl32_at[OF float_exponent_eq[where e = 100]]) (simp_all add: round_even_def)

lemma fl32_big_plus_1: "fl32 (2 ^ 100 + 1) = 2 ^ 100"
  by (subst fl32_at[OF float_exponent_eq[where e = 100]]) (simp_all add: round_even_def)

lemma fl32_16777217 [simp]: "fl32 16777217 = 16777216"
  by (subst fl32_at[OF float_exponent_eq[where e = 24]]) (simp_all add: round_even_def)

lemma fl32_16777216 [simp]: "fl32 16777216 = 16777216"
  by (subst fl32_at[OF float_exponent_eq[where e = 24]]) (simp_all add: round_even_def)

lemma fl32_big_simps [simp]: "fl32 big = big" "fl32 (- big) = - big" "fl32 (big + 1) = big"
  "fl32 (1 + big) = big"
  using fl32_big fl32_neg_big fl32_big_plus_1 by (simp_all add: big_def add.commute)

subsection \<open>Without rounding\<close>

lemma foldl_add_sum_list:
  fixes a :: real
  shows "foldl (\<lambda>s t. s + t) a xs = a + sum_list xs"
  by (induction xs arbitrary: a) simp_all

lemma dot_r_id: "dot_r id u v = dot u v"
proof -
  have "map2 (\<lambda>a b. a * b) u v = map2 (*) u v" by simp
  then show ?thesis by (simp add: dot_r_def dot_def foldl_add_sum_list)
qed

lemma mm_r_id: "mm_r id a b = mm a b"
  by (cases a; cases b) (simp_all add: dot_r_id)

lemma add2_r_id: "add2_r id n c a m k b = add2 n c a m k b"
  unfolding add2_r_def add2_def id_apply ..

lemma add_r_id: "add_r id a b = add a b"
  by (cases a; cases b) (simp_all only: add_r.simps add.simps add2_r_id)

lemma dropout_r_id: "dropout_r id x p t w = dropout x p t w"
  unfolding dropout_r_def dropout_def id_apply by (simp cong: if_cong)

lemma GraphConvolution_forward_r_id:
  "GraphConvolution_forward_r id self x adj w = GraphConvolution_forward self x adj w"
  unfolding GraphConvolution_forward_r_def GraphConvolution_forward_def mm_r_id spmm_r_def
      spmm_def add_r_id ..

lemma Encoder_forward_r_id: "Encoder_forward_r id self x adj w = Encoder_forward self x adj w"
  unfolding Encoder_forward_r_def Encoder_forward_def dropout_r_id GraphConvolution_forward_r_id ..

lemma conjugate_r_id:
  "conjugate_r id P A = bindE (mm P A) (\<lambda>PA. mm PA (transpose_tensor P))"
  by (simp add: conjugate_r_def mm_r_id)

subsection \<open>Shapes with rounding\<close>

lemma mm_r_wf:
  assumes "wf_tensor (Mat n k a)"
  shows "\<exists>R. mm_r rnd (Mat n k a) (Mat k m b) = Inr (Mat n m R) \<and> wf_tensor (Mat n m R)"
  using assms by (simp add: list_all_length)

lemma add_r_Mat_Vec:
  assumes "length v = c"
  shows "\<exists>R. add_r rnd (Mat n c a) (Vec v) = Inr (Mat n c R) \<and> wf_tensor (Mat n c R) \<and>
           (\<forall>i<n. \<forall>j<c. R ! i ! j = rnd (a ! i ! j + v ! j))"
proof -
  let ?R = "map (\<lambda>i. map (\<lambda>j. rnd (a ! pick n i ! pick c j + [v] ! pick 1 i ! pick (length v) j)) [0..<c]) [0..<n]"
  have r: "bdim n 1 = Some n" and s: "bdim c (length v) = Some c"
    using assms by (simp_all add: bdim_def)
  have "add_r rnd (Mat n c a) (Vec v) = Inr (Mat n c ?R)"
    unfolding add_r.simps add2_r_def r s by simp
  moreover have "wf_tensor (Mat n c ?R)"
    by (simp add: list_all_length)
  moreover have "?R ! i ! j = rnd (a ! i ! j + v ! j)" if "i < n" "j < c" for i j
    using that assms by (auto simp: pick_def)
  ultimately show ?thesis by blast
qed

lemma dropout_r_Mat:
  assumes "0 \<le> p" "p \<le> 1" "wf_tensor (Mat n m X)"
  shows "\<exists>Y w'. dropout_r rnd (Mat n m X) p t w = Inr (Mat n m Y, w') \<and> wf_tensor (Mat n m Y) \<and>
           params w' = params w \<and> (t \<or> (Y = X \<and> w' = w))"
  using assms by (auto simp: dropout_r_def list_all_length)

lemma GraphConvolution_forward_r_parts:
  assumes inv: "GraphConvolution_inv self w"
    and X: "wf_tensor (Mat N F X)" and F: "int F = in_features self"
    and A: "wf_tensor (Mat N N A)"
  shows "\<exists>W S T R.
           deref w (weight self) = Inr (Mat F (nat (out_features self)) W) \<and>
           mm_r rnd (Mat N F X) (Mat F (nat (out_features self)) W) = Inr (Mat N (nat (out_features self)) S) \<and>
           spmm_r rnd (Mat N N A) (Mat N (nat (out_features self)) S) = Inr (Mat N (nat (out_features self)) T) \<and>
           GraphConvolution_forward_r rnd self (Mat N F X) (Mat N N A) w
             = Inr (Mat N (nat (out_features self)) R, w) \<and>
           wf_tensor (Mat N (nat (out_features self)) R) \<and>
           (case bias self of
              None \<Rightarrow> R = T
            | Some b \<Rightarrow> length (bias_of self w) = nat (out_features self) \<and>
                (\<forall>i<N. \<forall>j<nat (out_features self). R ! i ! j = rnd (T ! i ! j + bias_of self w ! j)))"
proof -
  let ?O = "nat (out_features self)"
  have "nat (in_features self) = F" using F by simp
  with GraphConvolution_inv_weight[OF inv]
  obtain W where W: "deref w (weight self) = Inr (Mat F ?O W)" "wf_tensor (Mat F ?O W)"
    by auto
  from mm_r_wf[OF X, of rnd ?O W] obtain S where
    S: "mm_r rnd (Mat N F X) (Mat F ?O W) = Inr (Mat N ?O S)" "wf_tensor (Mat N ?O S)"
    by blast
  from mm_r_wf[OF A, of rnd ?O S] obtain T where
    T: "mm_r rnd (Mat N N A) (Mat N ?O S) = Inr (Mat N ?O T)" "wf_tensor (Mat N ?O T)"
    by blast
  show ?thesis
  proof (cases "bias self")
    case None
    then show ?thesis
      using W(1) S(1) T by (simp add: GraphConvolution_forward_r_def spmm_r_def)
  next
    case (Some b)
    from GraphConvolution_inv_bias[OF inv Some]
    obtain v where v: "deref w b = Inr (Vec v)" "length v = ?O"
      by auto
    have bof: "bias_of self w = v" using Some v by (simp add: bias_of_def)
    from add_r_Mat_Vec[OF v(2), of rnd N T] obtain R where
      R: "add_r rnd (Mat N ?O T) (Vec v) = Inr (Mat N ?O R)" "wf_tensor (Mat N ?O R)"
         "\<forall>i<N. \<forall>j<?O. R ! i ! j = rnd (T ! i ! j + v ! j)"
      by blast
    have "GraphConvolution_forward_r rnd self (Mat N F X) (Mat N N A) w = Inr (Mat N ?O R, w)"
      using Some W(1) S(1) T(1) v(1) R(1)
      by (simp add: GraphConvolution_forward_r_def spmm_r_def)
    with W(1) S(1) T(1) R(2,3) v(2) Some show ?thesis
      by (simp add: spmm_r_def bof)
  qed
qed

lemma Encoder_forward_r_shape:
  assumes inv: "Encoder_inv self w" and mode: "\<not> Encoder_training self"
    and p: "0 \<le> Encoder_dropout self" "Encoder_dropout self \<le> 1"
    and X: "wf_tensor (Mat N F X)" and F: "int F = in_features (gc1 self)"
    and A: "wf_tensor (Mat N N A)"
  shows "\<exists>H. Encoder_forward_r rnd self (Mat N F X) (Mat N N A) w
                 = Inr (Mat N (nat (out_features (gc2 self))) H, w) \<and>
               wf_tensor (Mat N (nat (out_features (gc2 self))) H)"
proof -
  let ?p = "Encoder_dropout self" and ?t = "Encoder_training self"
  have d: "dropout_r rnd x ?p ?t w = Inr (x, w)" for x
    using mode p by (simp add: dropout_r_def)
  from inv have i1: "GraphConvolution_inv (gc1 self) w" and i2: "GraphConvolution_inv (gc2 self) w"
    and ch: "out_features (gc1 self) = in_features (gc2 self)"
    by (simp_all add: Encoder_inv_def)
  let ?M = "nat (out_features (gc1 self))"
  from GraphConvolution_forward_r_parts[OF i1 X F A, of rnd] obtain H1 where
    g1: "GraphConvolution_forward_r rnd (gc1 self) (Mat N F X) (Mat N N A) w = Inr (Mat N ?M H1, w)"
        "wf_tensor (Mat N ?M H1)"
    by blast
  from relu_Mat[OF g1(2)] obtain H2 where
    r: "relu (Mat N ?M H1) = Mat N ?M H2" "wf_tensor (Mat N ?M H2)" by blast
  have F2: "int ?M = in_features (gc2 self)"
    using ch GraphConvolution_inv_nonneg(2)[OF i1] by simp
  from GraphConvolution_forward_r_parts[OF i2 r(2) F2 A, of rnd] obtain H where
    g2: "GraphConvolution_forward_r rnd (gc2 self) (Mat N ?M H2) (Mat N N A) w
           = Inr (Mat N (nat (out_features (gc2 self))) H, w)"
        "wf_tensor (Mat N (nat (out_features (gc2 self))) H)"
    by blast
  show ?thesis
    using d g1(1) r(1) g2 by (simp add: Encoder_forward_r_def)
qed


lemma perm_matrix_shape:
  "\<exists>P. perm_matrix sg = Mat (length sg) (length sg) P \<and> wf_tensor (Mat (length sg) (length sg) P)"
  by (simp add: perm_matrix_def list_all_length)

lemma transpose_tensor_Mat: "\<exists>T. transpose_tensor (Mat n m a) = Mat m n T"
  by simp

lemma conjugate_r_wf:
  assumes P: "wf_tensor (Mat N N P)"
  shows "\<exists>R. conjugate_r rnd (Mat N N P) (Mat N N A) = Inr (Mat N N R) \<and> wf_tensor (Mat N N R)"
proof -
  from mm_r_wf[OF P, of rnd N A] obtain PA where
    PA: "mm_r rnd (Mat N N P) (Mat N N A) = Inr (Mat N N PA)" "wf_tensor (Mat N N PA)" by blast
  from transpose_tensor_Mat[of N N P] obtain T where T: "transpose_tensor (Mat N N P) = Mat N N T"
    by blast
  from mm_r_wf[OF PA(2), of rnd N T] obtain R where
    R: "mm_r rnd (Mat N N PA) (Mat N N T) = Inr (Mat N N R)" "wf_tensor (Mat N N R)" by blast
  have "conjugate_r rnd (Mat N N P) (Mat N N A) = Inr (Mat N N R)"
    unfolding conjugate_r_def PA(1) T using R(1) by (simp only: bindE_def sum.case)
  with R(2) show ?thesis by blast
qed

subsection \<open>Evaluation of the rounded forward pass\<close>

lemmas eval_r = Encoder_forward_r_def dropout_r_def GraphConvolution_forward_r_def deref_def
  mm_r.simps spmm_r_def dot_r_def column_def add_r.simps add2_r_def bdim_def pick_def
  upt_conv_Cons perm_matrix_def conjugate_r_def

subsection \<open>Renumbering the nodes without rounding\<close>

lemma Encoder_forward_equivariant_exact:
  assumes inv: "Encoder_inv self w" and mode: "\<not> Encoder_training self"
    and p: "0 \<le> Encoder_dropout self" "Encoder_dropout self \<le> 1"
    and perm: "mset sg = mset [0..<N]"
    and X: "wf_tensor (Mat N (nat (in_features (gc1 self))) X)"
    and A: "wf_tensor (Mat N N A)"
  shows "\<exists>PX PAP H PH.
           mm (perm_matrix sg) (Mat N (nat (in_features (gc1 self))) X) = Inr PX \<and>
           bindE (mm (perm_matrix sg) (Mat N N A)) (\<lambda>PA. mm PA (transpose_tensor (perm_matrix sg))) = Inr PAP \<and>
           Encoder_forward self (Mat N (nat (in_features (gc1 self))) X) (Mat N N A) w
             = Inr (Mat N (nat (out_features (gc2 self))) H, w) \<and>
           wf_tensor (Mat N (nat (out_features (gc2 self))) H) \<and>
           mm (perm_matrix sg) (Mat N (nat (out_features (gc2 self))) H) = Inr PH \<and>
           Encoder_forward self PX PAP w = Inr (PH, w)"
proof -
  from inv have "GraphConvolution_inv (gc1 self) w" by (simp add: Encoder_inv_def)
  from GraphConvolution_inv_nonneg(1)[OF this]
  have F: "int (nat (in_features (gc1 self))) = in_features (gc1 self)" by simp
  from Encoder_forward_permuted[OF inv mode p perm X F A] obtain H where
    H: "Encoder_forward self (Mat N (nat (in_features (gc1 self))) X) (Mat N N A) w
          = Inr (Mat N (nat (out_features (gc2 self))) H, w)"
       "wf_tensor (Mat N (nat (out_features (gc2 self))) H)"
       "Encoder_forward self (Mat N (nat (in_features (gc1 self))) (permute_rows sg X))
          (Mat N N (permute_both sg A)) w
          = Inr (Mat N (nat (out_features (gc2 self))) (permute_rows sg H), w)"
    by blast
  note px = mm_perm_rows(1)[OF perm X] and pa = mm_perm_both(1)[OF perm A]
    and ph = mm_perm_rows(1)[OF perm H(2)]
  from px pa ph H show ?thesis by blast
qed

section \<open>Verified properties\<close>

subsection \<open>GraphConvolution.forward computes the propagated product\<close>



subsection \<open>The Encoder pipeline\<close>

text \<open>
  Claim C2. For an Encoder built by \<^verbatim>\<open>Encoder(nfeat, nhid, dropout)\<close>, in training or in
  inference mode: the forward pass is the chain dropout, GraphConvolution \<open>gc1\<close>, ReLU,
  dropout, GraphConvolution \<open>gc2\<close>, with nothing after \<open>gc2\<close>; \<open>gc1\<close> maps nfeat to nhid
  and \<open>gc2\<close> maps nhid to nhid; whatever the input, a result that is returned is a matrix
  of width nhid; and for an input of shape (N, nfeat) with an operator of shape (N, N) and
  a dropout probability in [0, 1] a result of shape (N, nhid) is returned.
\<close>

theorem Encoder_forward_spec:
  assumes init: "Encoder_init nfeat nhid p w0 = Inr (self0, w1)"
    and mode: "self = self0\<lparr>Encoder_training := t\<rparr>"
    and inv: "Encoder_inv self w"
  shows "Encoder_forward self x adj w = spec_Encoder_pipeline self adj (x, w) \<and>
         in_features (gc1 self) = nfeat \<and> out_features (gc1 self) = nhid \<and>
         in_features (gc2 self) = nhid \<and> out_features (gc2 self) = nhid \<and>
         (\<forall>y w'. Encoder_forward self x adj w = Inr (y, w') \<longrightarrow>
            (\<exists>n H. y = Mat n (nat nhid) H \<and> list_all (\<lambda>r. length r = nat nhid) H)) \<and>
         (0 \<le> p \<and> p \<le> 1 \<and> wf_tensor (Mat N (nat nfeat) X) \<and> wf_tensor (Mat N N A) \<longrightarrow>
            (\<exists>H w'. Encoder_forward self (Mat N (nat nfeat) X) (Mat N N A) w = Inr (Mat N (nat nhid) H, w') \<and>
               wf_tensor (Mat N (nat nhid) H)))"
proof -
  note r = Encoder_init_result[OF init]
  have f: "in_features (gc1 self) = nfeat" "out_features (gc1 self) = nhid"
    "in_features (gc2 self) = nhid" "out_features (gc2 self) = nhid" "Encoder_dropout self = p"
    using r(1) mode by simp_all
  have width: "\<exists>n H. y = Mat n (nat nhid) H \<and> list_all (\<lambda>r. length r = nat nhid) H"
    if "Encoder_forward self x adj w = Inr (y, w')" for y w'
    using Encoder_forward_width[OF inv that] f by simp
  have ret: "\<exists>H w'. Encoder_forward self (Mat N (nat nfeat) X) (Mat N N A) w = Inr (Mat N (nat nhid) H, w') \<and>
               wf_tensor (Mat N (nat nhid) H)"
    if "0 \<le> p" "p \<le> 1" "wf_tensor (Mat N (nat nfeat) X)" "wf_tensor (Mat N N A)"
  proof -
    have F: "int (nat nfeat) = in_features (gc1 self)" using f r(2) by simp
    from Encoder_forward_shape[OF inv _ _ that(3) F that(4)] that(1,2) f show ?thesis
      by auto
  qed
  from f width ret show ?thesis
    by (simp add: Encoder_forward_pipeline)
qed

theorem Encoder_forward_spec_witness:
  "(\<exists>w1. Encoder_init 2 2 (1/2) world0 = Inr (encoder mt_example, w1)) \<and>
   Encoder_inv (encoder mt_example_eval) mt_world \<and>
   Encoder_forward (encoder mt_example_eval) X_example A_example mt_world
     = spec_Encoder_pipeline (encoder mt_example_eval) A_example (X_example, mt_world) \<and>
   (\<exists>H w'. Encoder_forward (encoder mt_example_eval) X_example A_example mt_world = Inr (Mat 2 2 H, w')) \<and>
   Encoder_forward (encoder mt_example_eval) X_example A_example mt_world
     = Inr (Mat 2 2 [[1, - 2], [3, - 2]], mt_world)"
proof -
  from encoder_example_init obtain w1 where
    init: "Encoder_init 2 2 (1/2) world0 = Inr (encoder mt_example, w1)" by blast
  have mode: "encoder mt_example_eval = (encoder mt_example)\<lparr>Encoder_training := False\<rparr>"
    by (simp add: mt_example_eval_def)
  have inv: "Encoder_inv (encoder mt_example_eval) mt_world"
    using mt_example_eval_inv by (simp add: MultiTask_inv_def)
  have v: "Encoder_forward (encoder mt_example_eval) X_example A_example mt_world
     = Inr (Mat 2 2 [[1, - 2], [3, - 2]], mt_world)"
    by (simp add: Encoder_forward_inference mt_example_eval_def mt_example_def
        GraphConvolution_forward_def mt_world_def deref_def X_example_def A_example_def
        spmm_def dot_def column_def add2_def bdim_def pick_def upt_conv_Cons)
  from Encoder_forward_spec[OF init mode inv, of X_example A_example 2 "[[1, 2], [3, 4]]" "[[0, 1], [1, 0]]"]
    init inv v
  show ?thesis by (auto simp: X_example_def A_example_def)
qed

subsection \<open>The Discriminator pipeline\<close>

text \<open>
  Claim C3. For a Discriminator built by \<^verbatim>\<open>Discriminator(nin, nout, dropout)\<close>, in training
  or in inference mode: the forward pass is the chain ReLU, dropout, Linear \<open>lr1\<close>, ReLU,
  dropout, Linear \<open>lr2\<close>; \<open>lr1\<close> maps nin to \<open>nin div 2\<close> and \<open>lr2\<close> maps \<open>nin div 2\<close> to nout,
  where \<open>nin div 2\<close> is the floor of \<open>nin / 2\<close> (so \<open>h\<close> for \<open>nin = 2 h + 1\<close>); the weights in
  the store have the shapes (nin div 2, nin) and (nout, nin div 2); and for an input of
  shape (N, nin) and a dropout probability in [0, 1] a result of shape (N, nout) is
  returned.
\<close>

theorem Discriminator_forward_spec:
  assumes init: "Discriminator_init nin nout p w0 = Inr (self0, w1)"
    and mode: "self = self0\<lparr>Discriminator_training := t\<rparr>"
    and inv: "Discriminator_inv self w"
  shows "Discriminator_forward self x w = spec_Discriminator_pipeline self (x, w) \<and>
         lin_in_features (lr1 self) = nin \<and> lin_out_features (lr1 self) = nin div 2 \<and>
         lin_in_features (lr2 self) = nin div 2 \<and> lin_out_features (lr2 self) = nout \<and>
         2 * (nin div 2) \<le> nin \<and> nin < 2 * (nin div 2) + 2 \<and>
         (\<forall>h. nin = 2 * h + 1 \<longrightarrow> lin_out_features (lr1 self) = h) \<and>
         (\<exists>W1 W2. deref w (lin_weight (lr1 self)) = Inr (Mat (nat (nin div 2)) (nat nin) W1) \<and>
                  deref w (lin_weight (lr2 self)) = Inr (Mat (nat nout) (nat (nin div 2)) W2)) \<and>
         (0 \<le> p \<and> p \<le> 1 \<and> wf_tensor (Mat N (nat nin) X) \<longrightarrow>
            (\<exists>Y w'. Discriminator_forward self (Mat N (nat nin) X) w = Inr (Mat N (nat nout) Y, w') \<and>
               wf_tensor (Mat N (nat nout) Y)))"
proof -
  note r = Discriminator_init_result[OF init]
  have f: "lin_in_features (lr1 self) = nin" "lin_out_features (lr1 self) = nin div 2"
    "lin_in_features (lr2 self) = nin div 2" "lin_out_features (lr2 self) = nout"
    "Discriminator_dropout self = p"
    using r(1) mode by simp_all
  have fl: "2 * (nin div 2) \<le> nin" "nin < 2 * (nin div 2) + 2" by presburger+
  have odd: "lin_out_features (lr1 self) = h" if "nin = 2 * h + 1" for h
    using f(2) that by simp
  from inv have i1: "Linear_inv (lr1 self) w" and i2: "Linear_inv (lr2 self) w"
    by (simp_all add: Discriminator_inv_def)
  from Linear_inv_weight[OF i1] Linear_inv_weight[OF i2] f
  have sh: "\<exists>W1 W2. deref w (lin_weight (lr1 self)) = Inr (Mat (nat (nin div 2)) (nat nin) W1) \<and>
                  deref w (lin_weight (lr2 self)) = Inr (Mat (nat nout) (nat (nin div 2)) W2)"
    by auto
  have ret: "\<exists>Y w'. Discriminator_forward self (Mat N (nat nin) X) w = Inr (Mat N (nat nout) Y, w') \<and>
               wf_tensor (Mat N (nat nout) Y)"
    if "0 \<le> p" "p \<le> 1" "wf_tensor (Mat N (nat nin) X)"
  proof -
    have F: "int (nat nin) = lin_in_features (lr1 self)" using f r(2) by simp
    from Discriminator_forward_shape[OF inv _ _ that(3) F] that(1,2) f show ?thesis
      by auto
  qed
  from f(1-4) fl odd sh ret show ?thesis
    by (simp only: Discriminator_forward_pipeline) blast
qed

theorem Discriminator_forward_spec_witness:
  "(\<exists>w1. Discriminator_init 3 2 0 world0 = Inr (dis_example, w1)) \<and>
   Discriminator_inv dis_example dis_world \<and>
   lin_out_features (lr1 dis_example) = 1 \<and>
   Discriminator_forward dis_example (Mat 2 3 [[1, 2, 3], [- 1, 0, 1]]) dis_world
     = spec_Discriminator_pipeline dis_example (Mat 2 3 [[1, 2, 3], [- 1, 0, 1]], dis_world) \<and>
   (\<exists>Y w'. Discriminator_forward dis_example (Mat 2 3 [[1, 2, 3], [- 1, 0, 1]]) dis_world
      = Inr (Mat 2 2 Y, w'))"
proof -
  from dis_example_init obtain w1 where
    init: "Discriminator_init 3 2 0 world0 = Inr (dis_example, w1)" by blast
  have mode: "dis_example = dis_example\<lparr>Discriminator_training := True\<rparr>"
    by (simp add: dis_example_def)
  have X: "wf_tensor (Mat 2 3 [[1, 2, 3], [- 1, 0, 1]])" by simp
  have p: "(0::real) \<le> 0" "(0::real) \<le> 1" by simp_all
  have h: "lin_out_features (lr1 dis_example) = 1" by (simp add: dis_example_def)
  have n: "nat 3 = 3" "nat 2 = 2" by simp_all
  from Discriminator_forward_spec[OF init mode dis_example_inv,
      of "Mat 2 3 [[1, 2, 3], [- 1, 0, 1]]" 2 "[[1, 2, 3], [- 1, 0, 1]]", unfolded n] X p
  have "Discriminator_forward dis_example (Mat 2 3 [[1, 2, 3], [- 1, 0, 1]]) dis_world
     = spec_Discriminator_pipeline dis_example (Mat 2 3 [[1, 2, 3], [- 1, 0, 1]], dis_world)"
    and "\<exists>Y w'. Discriminator_forward dis_example (Mat 2 3 [[1, 2, 3], [- 1, 0, 1]]) dis_world
      = Inr (Mat 2 2 Y, w')"
    by blast+
  with init dis_example_inv h show ?thesis by blast
qed

subsection \<open>MultiTask: one embedding, two independent heads\<close>

text \<open>
  Claim C4. For a MultiTask built by \<^verbatim>\<open>MultiTask(nfeat, nhid, nout, dropout)\<close>, with its
  training flags on or off: whenever the forward pass returns a triple (H, neighbor logits,
  anomaly logits), H is what the encoder returned and each head was applied to that same H;
  the neighbor head maps nhid to nout and the anomaly head maps nhid to 2; the twelve
  parameters of the encoder and the two heads are pairwise distinct objects of the store,
  so the heads share none; and for an input of shape (N, nfeat) with an operator of shape
  (N, N) and a dropout probability in [0, 1] the triple is returned, with shapes
  (N, nhid), (N, nout) and (N, 2).
\<close>

theorem MultiTask_forward_spec:
  assumes init: "MultiTask_init nfeat nhid nout p w0 = Inr (self0, w1)"
    and mode: "self = MultiTask_train t self0"
    and inv: "MultiTask_inv self w"
  shows "(\<forall>H nc ad w'. MultiTask_forward self x adj w = Inr ((H, nc, ad), w') \<longrightarrow>
            (\<exists>wa wb. Encoder_forward (encoder self) x adj w = Inr (H, wa) \<and>
               Discriminator_forward (dis_neighbor self) H wa = Inr (nc, wb) \<and>
               Discriminator_forward (dis_anomlay self) H wb = Inr (ad, w'))) \<and>
         lin_in_features (lr1 (dis_neighbor self)) = nhid \<and>
         lin_out_features (lr2 (dis_neighbor self)) = nout \<and>
         lin_in_features (lr1 (dis_anomlay self)) = nhid \<and>
         lin_out_features (lr2 (dis_anomlay self)) = 2 \<and>
         set (Discriminator_parameters (dis_neighbor self))
           \<inter> set (Discriminator_parameters (dis_anomlay self)) = {} \<and>
         distinct (Encoder_parameters (encoder self) @ Discriminator_parameters (dis_neighbor self)
                   @ Discriminator_parameters (dis_anomlay self)) \<and>
         (0 \<le> p \<and> p \<le> 1 \<and> wf_tensor (Mat N (nat nfeat) X) \<and> wf_tensor (Mat N N A) \<longrightarrow>
            (\<exists>H Yn Ya w'.
               MultiTask_forward self (Mat N (nat nfeat) X) (Mat N N A) w
                 = Inr ((Mat N (nat nhid) H, Mat N (nat nout) Yn, Mat N 2 Ya), w') \<and>
               wf_tensor (Mat N (nat nhid) H) \<and> wf_tensor (Mat N (nat nout) Yn) \<and>
               wf_tensor (Mat N 2 Ya)))"
proof -
  note P = MultiTask_init_parameters[OF init]
  note R = MultiTask_init_result[OF init]
  have e: "Encoder_parameters (encoder self) = Encoder_parameters (encoder self0)"
    and dn: "Discriminator_parameters (dis_neighbor self) = Discriminator_parameters (dis_neighbor self0)"
    and da: "Discriminator_parameters (dis_anomlay self) = Discriminator_parameters (dis_anomlay self0)"
    unfolding mode
    by (simp_all add: MultiTask_train_def Encoder_parameters_def Discriminator_parameters_def)
  have f: "lin_in_features (lr1 (dis_neighbor self)) = nhid"
    "lin_out_features (lr2 (dis_neighbor self)) = nout"
    "lin_in_features (lr1 (dis_anomlay self)) = nhid"
    "lin_out_features (lr2 (dis_anomlay self)) = 2"
    "in_features (gc1 (encoder self)) = nfeat" "out_features (gc2 (encoder self)) = nhid"
    "Encoder_dropout (encoder self) = p" "Discriminator_dropout (dis_neighbor self) = p"
    "Discriminator_dropout (dis_anomlay self) = p"
    unfolding mode using P(4-12) by (simp_all add: MultiTask_train_def)
  have parts: "\<exists>wa wb. Encoder_forward (encoder self) x adj w = Inr (H, wa) \<and>
               Discriminator_forward (dis_neighbor self) H wa = Inr (nc, wb) \<and>
               Discriminator_forward (dis_anomlay self) H wb = Inr (ad, w')"
    if "MultiTask_forward self x adj w = Inr ((H, nc, ad), w')" for H nc ad w'
    by (rule MultiTask_forward_parts[OF that])
  have disj: "set (Discriminator_parameters (dis_neighbor self))
           \<inter> set (Discriminator_parameters (dis_anomlay self)) = {}"
    unfolding dn da P(2,3) by auto
  have dist: "distinct (Encoder_parameters (encoder self) @ Discriminator_parameters (dis_neighbor self)
                   @ Discriminator_parameters (dis_anomlay self))"
    unfolding e dn da P(1,2,3) by auto
  have ret: "\<exists>H Yn Ya w'.
               MultiTask_forward self (Mat N (nat nfeat) X) (Mat N N A) w
                 = Inr ((Mat N (nat nhid) H, Mat N (nat nout) Yn, Mat N 2 Ya), w') \<and>
               wf_tensor (Mat N (nat nhid) H) \<and> wf_tensor (Mat N (nat nout) Yn) \<and>
               wf_tensor (Mat N 2 Ya)"
    if h: "0 \<le> p" "p \<le> 1" "wf_tensor (Mat N (nat nfeat) X)" "wf_tensor (Mat N N A)"
  proof -
    have F: "int (nat nfeat) = in_features (gc1 (encoder self))" using f R(3) by simp
    from MultiTask_forward_shape[OF inv _ _ _ _ _ _ h(3) F h(4)] h(1,2) f
    obtain H Yn Ya w1 w2 w3 where
      "MultiTask_forward self (Mat N (nat nfeat) X) (Mat N N A) w
                 = Inr ((Mat N (nat nhid) H, Mat N (nat nout) Yn, Mat N (nat 2) Ya), w3)"
      "wf_tensor (Mat N (nat nhid) H)" "wf_tensor (Mat N (nat nout) Yn)"
      "wf_tensor (Mat N (nat 2) Ya)"
      by auto
    then show ?thesis by (intro exI[of _ H] exI[of _ Yn] exI[of _ Ya] exI[of _ w3]) simp
  qed
  from parts f(1-4) disj dist ret show ?thesis by blast
qed

theorem MultiTask_forward_spec_witness:
  "(\<exists>w1. MultiTask_init 2 2 1 (1/2) world0 = Inr (mt_example, w1)) \<and>
   MultiTask_inv mt_example_eval mt_world \<and>
   (\<exists>H Yn Ya w'. MultiTask_forward mt_example_eval X_example A_example mt_world
      = Inr ((Mat 2 2 H, Mat 2 1 Yn, Mat 2 2 Ya), w')) \<and>
   lin_out_features (lr2 (dis_anomlay mt_example_eval)) = 2 \<and>
   set (Discriminator_parameters (dis_neighbor mt_example_eval))
     \<inter> set (Discriminator_parameters (dis_anomlay mt_example_eval)) = {}"
proof -
  from mt_example_init obtain w1 where
    init: "MultiTask_init 2 2 1 (1/2) world0 = Inr (mt_example, w1)" by blast
  have h: "(0::real) \<le> 1/2" "(1/2::real) \<le> 1" "wf_tensor (Mat 2 2 [[1, 2], [3, 4]])"
    "wf_tensor (Mat 2 2 [[0, 1], [1, 0]])" by simp_all
  have n: "nat 2 = 2" "nat 1 = 1" by simp_all
  note T = MultiTask_forward_spec[OF init mt_example_eval_train mt_example_eval_inv,
      of X_example A_example 2 "[[1, 2], [3, 4]]" "[[0, 1], [1, 0]]", unfolded n,
      folded X_example_def A_example_def]
  from T h[folded X_example_def A_example_def]
  have "\<exists>H Yn Ya w'. MultiTask_forward mt_example_eval X_example A_example mt_world
      = Inr ((Mat 2 2 H, Mat 2 1 Yn, Mat 2 2 Ya), w')"
    by blast
  moreover from T have "lin_out_features (lr2 (dis_anomlay mt_example_eval)) = 2"
    and "set (Discriminator_parameters (dis_neighbor mt_example_eval))
     \<inter> set (Discriminator_parameters (dis_anomlay mt_example_eval)) = {}"
    by blast+
  ultimately show ?thesis using init mt_example_eval_inv by blast
qed

subsection \<open>What the constructors reject\<close>

text \<open>
  Claim C5 says that every constructor rejects a dropout probability outside of [0, 1) and
  a dimension that is not positive. The constructors check neither: an Encoder is built
  with dropout 3/2, a Discriminator with dropout -1, and a GraphConvolution with
  \<open>in_features = 0\<close>.
\<close>

theorem constructors_accept_invalid_configuration:
  "\<not> raises (Encoder_init 3 5 (3/2) world0) \<and>
   \<not> raises (Discriminator_init 5 2 (- 1) world0) \<and>
   \<not> raises (GraphConvolution_init 0 5 True world0)"
  by (simp add: Encoder_init_raises Discriminator_init_raises GraphConvolution_init_raises)

text \<open>
  Claim C5, amended. A constructor raises exactly when a dimension is negative (the tensor
  cannot be allocated) or, for GraphConvolution and the modules that hold an Encoder, when
  the output width \<open>out_features\<close> (\<open>nhid\<close>) is zero (\<open>reset_parameters\<close> divides by
  \<open>sqrt 0\<close>); an input width of zero, and \<open>nout = 0\<close>, are accepted. Whether it raises
  never depends on the dropout probability: the constructor stores the value as given, and
  a value below 0 or above 1 makes every later forward pass raise ValueError.
\<close>

theorem constructor_rejections:
  "(raises (GraphConvolution_init n_in n_out use_bias w) \<longleftrightarrow> n_in < 0 \<or> n_out \<le> 0) \<and>
   (raises (Encoder_init nfeat nhid p w) \<longleftrightarrow> nfeat < 0 \<or> nhid \<le> 0) \<and>
   (raises (Discriminator_init nin nout p w) \<longleftrightarrow> nin < 0 \<or> nout < 0) \<and>
   (raises (MultiTask_init nfeat nhid nout p w) \<longleftrightarrow> nfeat < 0 \<or> nhid \<le> 0 \<or> nout < 0) \<and>
   (raises (SingleTask_init nfeat nhid nout p w) \<longleftrightarrow> nfeat < 0 \<or> nhid \<le> 0 \<or> nout < 0) \<and>
   (Encoder_init nfeat nhid p w = Inr (e, w1) \<longrightarrow>
      Encoder_dropout e = p \<and>
      (p < 0 \<or> 1 < p \<longrightarrow> Encoder_forward e x adj w' = Inl ValueError)) \<and>
   (Discriminator_init nin nout p w = Inr (d, w2) \<longrightarrow>
      Discriminator_dropout d = p \<and>
      (p < 0 \<or> 1 < p \<longrightarrow> Discriminator_forward d x w' = Inl ValueError))"
proof -
  have e: "Encoder_dropout e = p \<and> (p < 0 \<or> 1 < p \<longrightarrow> Encoder_forward e x adj w' = Inl ValueError)"
    if "Encoder_init nfeat nhid p w = Inr (e, w1)"
  proof -
    have "Encoder_dropout e = p" using Encoder_init_result(1)[OF that] by simp
    then show ?thesis using Encoder_forward_invalid_dropout[of e x adj w'] by simp
  qed
  have d: "Discriminator_dropout d = p \<and> (p < 0 \<or> 1 < p \<longrightarrow> Discriminator_forward d x w' = Inl ValueError)"
    if "Discriminator_init nin nout p w = Inr (d, w2)"
  proof -
    have "Discriminator_dropout d = p" using Discriminator_init_result(1)[OF that] by simp
    then show ?thesis using Discriminator_forward_invalid_dropout[of d x w'] by simp
  qed
  show ?thesis
    using e d
    by (simp only: GraphConvolution_init_raises Encoder_init_raises Discriminator_init_raises
        MultiTask_init_raises SingleTask_init_raises) blast
qed

theorem constructor_rejections_witness:
  "\<not> raises (Encoder_init 3 5 (3/2) world0) \<and>
   (\<exists>e w1. Encoder_init 3 5 (3/2) world0 = Inr (e, w1) \<and> Encoder_dropout e = 3/2 \<and>
      Encoder_forward e X_example A_example w1 = Inl ValueError) \<and>
   (\<exists>d w2. Discriminator_init 5 2 (- 1) world0 = Inr (d, w2) \<and> Discriminator_dropout d = - 1 \<and>
      Discriminator_forward d X_example w2 = Inl ValueError) \<and>
   raises (GraphConvolution_init 3 0 True world0) \<and>
   raises (MultiTask_init 3 5 (- 1) (1/2) world0) \<and>
   \<not> raises (SingleTask_init 0 5 0 1 world0)"
proof -
  note r = constructor_rejections
  have 1: "\<not> raises (Encoder_init 3 5 (3/2) world0)"
    using r[of 3 5 True world0 3 5 "3/2"] by simp
  then obtain e w1 where e: "Encoder_init 3 5 (3/2) world0 = Inr (e, w1)"
    unfolding not_raises by auto
  have 2: "Encoder_dropout e = 3/2 \<and> Encoder_forward e X_example A_example w1 = Inl ValueError"
    using r[where nfeat = 3 and nhid = 5 and p = "3/2" and w = world0 and e = e and ?w1.0 = w1
        and x = X_example and adj = A_example and w' = w1] e by simp
  have "\<not> raises (Discriminator_init 5 2 (- 1) world0)"
    using r[where nin = 5 and nout = 2 and p = "- 1" and w = world0] by simp
  then obtain d w2 where d: "Discriminator_init 5 2 (- 1) world0 = Inr (d, w2)"
    unfolding not_raises by auto
  have 3: "Discriminator_dropout d = - 1 \<and> Discriminator_forward d X_example w2 = Inl ValueError"
    using r[where nin = 5 and nout = 2 and p = "- 1" and w = world0 and d = d and ?w2.0 = w2
        and x = X_example and w' = w2] d by simp
  have 4: "raises (GraphConvolution_init 3 0 True world0)"
    using r[where n_in = 3 and n_out = 0 and use_bias = True and w = world0] by simp
  have 5: "raises (MultiTask_init 3 5 (- 1) (1/2) world0)"
    using r[where nfeat = 3 and nhid = 5 and nout = "- 1" and p = "1/2" and w = world0] by simp
  have 6: "\<not> raises (SingleTask_init 0 5 0 1 world0)"
    using r[where nfeat = 0 and nhid = 5 and nout = 0 and p = 1 and w = world0] by simp
  from 1 e 2 d 3 4 5 6 show ?thesis by blast
qed

subsection \<open>Inference is deterministic\<close>

text \<open>
  Claim C6. With the training flags off, the outcome of a forward pass of an Encoder, a
  Discriminator, a MultiTask or a SingleTask (the returned tensors, or the error raised)
  is the same in any two runs on the same input with the same parameter values, whatever
  the state of the random generator in each run.
\<close>

theorem inference_deterministic:
  assumes "params w' = params w"
  shows "(\<not> Encoder_training e \<longrightarrow>
            outcome (Encoder_forward e x adj w') = outcome (Encoder_forward e x adj w)) \<and>
         (\<not> Discriminator_training d \<longrightarrow>
            outcome (Discriminator_forward d x w') = outcome (Discriminator_forward d x w)) \<and>
         (\<not> Encoder_training (encoder m) \<and> \<not> Discriminator_training (dis_neighbor m) \<and>
          \<not> Discriminator_training (dis_anomlay m) \<longrightarrow>
            outcome (MultiTask_forward m x adj w') = outcome (MultiTask_forward m x adj w)) \<and>
         (\<not> Encoder_training (SingleTask_encoder s) \<and> \<not> Discriminator_training (discriminator s) \<longrightarrow>
            outcome (SingleTask_forward s x adj w') = outcome (SingleTask_forward s x adj w))"
  using Encoder_forward_outcome[OF _ assms, of e x adj]
    Discriminator_forward_outcome[OF _ assms, of d x]
    MultiTask_forward_outcome[OF _ _ _ assms, of m x adj]
    SingleTask_forward_outcome[OF _ _ assms, of s x adj]
  by blast

theorem inference_deterministic_witness:
  "outcome (Encoder_forward (encoder mt_example_eval) X_example A_example (mt_world\<lparr>rng_pos := 7\<rparr>))
     = outcome (Encoder_forward (encoder mt_example_eval) X_example A_example mt_world) \<and>
   outcome (Discriminator_forward (dis_neighbor mt_example_eval) X_example (mt_world\<lparr>rng_pos := 7\<rparr>))
     = outcome (Discriminator_forward (dis_neighbor mt_example_eval) X_example mt_world) \<and>
   outcome (MultiTask_forward mt_example_eval X_example A_example (mt_world\<lparr>rng_pos := 7\<rparr>))
     = outcome (MultiTask_forward mt_example_eval X_example A_example mt_world) \<and>
   outcome (SingleTask_forward st_example_eval X_example A_example (mt_world\<lparr>rng_pos := 7\<rparr>))
     = outcome (SingleTask_forward st_example_eval X_example A_example mt_world) \<and>
   outcome (MultiTask_forward mt_example_eval X_example A_example mt_world)
     = Inr (Mat 2 2 [[1, - 2], [3, - 2]], Mat 2 1 [[3], [7]], Mat 2 2 [[1, - 1], [3, - 3]])"
proof -
  have p: "params (mt_world\<lparr>rng_pos := 7\<rparr>) = params mt_world" by simp
  have t: "\<not> Encoder_training (encoder mt_example_eval)"
    "\<not> Discriminator_training (dis_neighbor mt_example_eval)"
    "\<not> Discriminator_training (dis_anomlay mt_example_eval)"
    "\<not> Encoder_training (SingleTask_encoder st_example_eval)"
    "\<not> Discriminator_training (discriminator st_example_eval)"
    by (simp_all add: mt_example_eval_def st_example_eval_def)
  have v: "outcome (MultiTask_forward mt_example_eval X_example A_example mt_world)
     = Inr (Mat 2 2 [[1, - 2], [3, - 2]], Mat 2 1 [[3], [7]], Mat 2 2 [[1, - 1], [3, - 3]])"
    by code_simp
  from inference_deterministic[OF p, where e = "encoder mt_example_eval" and x = X_example
      and adj = A_example and d = "dis_neighbor mt_example_eval" and m = mt_example_eval
      and s = st_example_eval] t v
  show ?thesis by simp
qed

subsection \<open>The Encoder and a renumbering of the nodes\<close>

text \<open>
  Claim C7 says that in inference mode the Encoder applied to \<open>(P \<cdot> X, P \<cdot> A \<cdot> P\<^sup>T)\<close> returns
  \<open>P\<close> applied to its result on \<open>(X, A)\<close>, for every permutation matrix \<open>P\<close>. With 32-bit floats
  it does not. Take the Encoder \<open>tri_encoder\<close> (one feature, one hidden unit, weights one,
  biases zero), three nodes with the features \<open>big\<close>, 1 and \<open>- big\<close>, where \<open>big\<close> is the float
  \<open>2 ^ 100\<close>, each node adjacent to every node, and exchange the last two nodes; the operator is the same after the exchange. The propagation
  adds the features of the neighbours in the order of the nodes. In the given order
  \<open>big + 1\<close> is rounded to \<open>big\<close> and the sum is 0: the Encoder returns 0 for every node, and so
  does \<open>P\<close> applied to that. In the exchanged order \<open>big - big\<close> is 0 and the sum is 1: the
  Encoder returns 3 for every node. In whatever order a library adds the terms of such a
  sum, a renumbering of the nodes changes which two of them are added first.
\<close>

theorem Encoder_float32_not_equivariant:
  "mset [0, 2, 1] = mset [0..<3] \<and>
   mm_r fl32 (perm_matrix [0, 2, 1]) tri_X = Inr tri_X_swapped \<and>
   conjugate_r fl32 (perm_matrix [0, 2, 1]) tri_A = Inr tri_A \<and>
   Encoder_forward_r fl32 tri_encoder tri_X tri_A tri_world = Inr (Mat 3 1 [[0], [0], [0]], tri_world) \<and>
   mm_r fl32 (perm_matrix [0, 2, 1]) (Mat 3 1 [[0], [0], [0]]) = Inr (Mat 3 1 [[0], [0], [0]]) \<and>
   Encoder_forward_r fl32 tri_encoder tri_X_swapped tri_A tri_world = Inr (Mat 3 1 [[3], [3], [3]], tri_world)"
proof -
  have "mset [0, 2, 1] = mset [0..<3]" by (simp add: upt_conv_Cons)
  moreover have "mm_r fl32 (perm_matrix [0, 2, 1]) tri_X = Inr tri_X_swapped"
    by (simp add: eval_r tri_X_def tri_X_swapped_def)
  moreover have "conjugate_r fl32 (perm_matrix [0, 2, 1]) tri_A = Inr tri_A"
    by (simp add: eval_r tri_A_def)
  moreover have "Encoder_forward_r fl32 tri_encoder tri_X tri_A tri_world = Inr (Mat 3 1 [[0], [0], [0]], tri_world)"
    by (simp add: eval_r tri_encoder_def tri_world_def tri_X_def tri_A_def)
  moreover have "mm_r fl32 (perm_matrix [0, 2, 1]) (Mat 3 1 [[0], [0], [0]]) = Inr (Mat 3 1 [[0], [0], [0]])"
    by (simp add: eval_r)
  moreover have "Encoder_forward_r fl32 tri_encoder tri_X_swapped tri_A tri_world = Inr (Mat 3 1 [[3], [3], [3]], tri_world)"
    by (simp add: eval_r tri_encoder_def tri_world_def tri_X_swapped_def tri_A_def)
  ultimately show ?thesis by blast
qed

text \<open>
  Claim C7, amended. In inference mode, for an Encoder whose parameters have their
  declared shapes and whose dropout probability is in [0, 1], for every permutation \<open>sg\<close> of
  the \<open>N\<close> nodes with permutation matrix \<open>P\<close>, every \<open>X\<close> of shape (N, nfeat) and every \<open>A\<close> of
  shape (N, N), and for every rounding \<open>rnd\<close> of the arithmetic results: the products
  \<open>P \<cdot> X\<close> and \<open>P \<cdot> A \<cdot> P\<^sup>T\<close> exist, the Encoder returns a matrix \<open>H\<close> of shape (N, nhid) on
  \<open>(X, A)\<close> and a matrix \<open>H'\<close> of shape (N, nhid) on \<open>(P \<cdot> X, P \<cdot> A \<cdot> P\<^sup>T)\<close>, whatever nfeat is; and
  when no result is rounded (\<open>rnd = id\<close>, the arithmetic of the real numbers), \<open>H'\<close> is
  \<open>P \<cdot> H\<close>.
\<close>

theorem Encoder_permutation_equivariant:
  assumes inv: "Encoder_inv self w" and mode: "\<not> Encoder_training self"
    and p: "0 \<le> Encoder_dropout self" "Encoder_dropout self \<le> 1"
    and perm: "mset sg = mset [0..<N]"
    and X: "wf_tensor (Mat N (nat (in_features (gc1 self))) X)"
    and A: "wf_tensor (Mat N N A)"
  shows "\<exists>PX PAP H H'.
           mm_r rnd (perm_matrix sg) (Mat N (nat (in_features (gc1 self))) X) = Inr PX \<and>
           conjugate_r rnd (perm_matrix sg) (Mat N N A) = Inr PAP \<and>
           Encoder_forward_r rnd self (Mat N (nat (in_features (gc1 self))) X) (Mat N N A) w
             = Inr (Mat N (nat (out_features (gc2 self))) H, w) \<and>
           wf_tensor (Mat N (nat (out_features (gc2 self))) H) \<and>
           Encoder_forward_r rnd self PX PAP w = Inr (Mat N (nat (out_features (gc2 self))) H', w) \<and>
           wf_tensor (Mat N (nat (out_features (gc2 self))) H') \<and>
           (rnd = id \<longrightarrow>
              mm_r rnd (perm_matrix sg) (Mat N (nat (out_features (gc2 self))) H)
                = Inr (Mat N (nat (out_features (gc2 self))) H'))"
proof -
  let ?F = "nat (in_features (gc1 self))" and ?O = "nat (out_features (gc2 self))"
  from inv have "GraphConvolution_inv (gc1 self) w" by (simp add: Encoder_inv_def)
  from GraphConvolution_inv_nonneg(1)[OF this]
  have F: "int ?F = in_features (gc1 self)" by simp
  have len: "length sg = N" using perm by (metis length_upt mset_eq_length minus_nat.diff_0)
  from perm_matrix_shape[of sg] len obtain P where
    P: "perm_matrix sg = Mat N N P" "wf_tensor (Mat N N P)" by auto
  from mm_r_wf[OF P(2), of rnd ?F X] obtain PX where
    PX: "mm_r rnd (Mat N N P) (Mat N ?F X) = Inr (Mat N ?F PX)" "wf_tensor (Mat N ?F PX)" by blast
  from conjugate_r_wf[OF P(2), of rnd A] obtain PAP where
    PAP: "conjugate_r rnd (Mat N N P) (Mat N N A) = Inr (Mat N N PAP)" "wf_tensor (Mat N N PAP)"
    by blast
  from Encoder_forward_r_shape[OF inv mode p X F A, of rnd] obtain H where
    H: "Encoder_forward_r rnd self (Mat N ?F X) (Mat N N A) w = Inr (Mat N ?O H, w)"
       "wf_tensor (Mat N ?O H)" by blast
  from Encoder_forward_r_shape[OF inv mode p PX(2) F PAP(2), of rnd] obtain H' where
    H': "Encoder_forward_r rnd self (Mat N ?F PX) (Mat N N PAP) w = Inr (Mat N ?O H', w)"
       "wf_tensor (Mat N ?O H')" by blast
  have "mm_r rnd (perm_matrix sg) (Mat N ?O H) = Inr (Mat N ?O H')" if "rnd = id"
  proof -
    from Encoder_forward_equivariant_exact[OF inv mode p perm X A] obtain PX0 PAP0 H0 PH0 where
      e: "mm (perm_matrix sg) (Mat N ?F X) = Inr PX0"
         "bindE (mm (perm_matrix sg) (Mat N N A)) (\<lambda>PA. mm PA (transpose_tensor (perm_matrix sg))) = Inr PAP0"
         "Encoder_forward self (Mat N ?F X) (Mat N N A) w = Inr (Mat N ?O H0, w)"
         "mm (perm_matrix sg) (Mat N ?O H0) = Inr PH0"
         "Encoder_forward self PX0 PAP0 w = Inr (PH0, w)"
      by blast
    from PX(1) e(1) have 1: "PX0 = Mat N ?F PX"
      unfolding that mm_r_id P(1)[symmetric] by simp
    from PAP(1) e(2) have 2: "PAP0 = Mat N N PAP"
      unfolding that conjugate_r_id P(1)[symmetric] by simp
    from H(1) e(3) have 3: "H0 = H"
      unfolding that Encoder_forward_r_id by simp
    from H'(1) e(5) have 4: "PH0 = Mat N ?O H'"
      unfolding that Encoder_forward_r_id 1 2 by simp
    from e(4) show ?thesis unfolding that mm_r_id 3 4 .
  qed
  with PX PAP H H' show ?thesis unfolding P(1)[symmetric] by blast
qed

text \<open>
  Without rounding, on two nodes exchanged by \<open>sg = [1, 0]\<close>: the rows of the result are
  exchanged.
\<close>

theorem Encoder_permutation_equivariant_witness:
  "mset [1, 0] = mset [0..<2] \<and>
   mm_r id (perm_matrix [1, 0]) X_example = Inr (Mat 2 2 [[3, 4], [1, 2]]) \<and>
   conjugate_r id (perm_matrix [1, 0]) (Mat 2 2 [[1, 2], [0, 1]]) = Inr (Mat 2 2 [[1, 0], [2, 1]]) \<and>
   Encoder_forward_r id (encoder mt_example_eval) X_example (Mat 2 2 [[1, 2], [0, 1]]) mt_world
     = Inr (Mat 2 2 [[13, - 8], [3, - 2]], mt_world) \<and>
   mm_r id (perm_matrix [1, 0]) (Mat 2 2 [[13, - 8], [3, - 2]]) = Inr (Mat 2 2 [[3, - 2], [13, - 8]]) \<and>
   Encoder_forward_r id (encoder mt_example_eval) (Mat 2 2 [[3, 4], [1, 2]]) (Mat 2 2 [[1, 0], [2, 1]]) mt_world
     = Inr (Mat 2 2 [[3, - 2], [13, - 8]], mt_world)"
proof -
  have inv: "Encoder_inv (encoder mt_example_eval) mt_world"
    using mt_example_eval_inv by (simp add: MultiTask_inv_def)
  have mode: "\<not> Encoder_training (encoder mt_example_eval)"
    and p: "0 \<le> Encoder_dropout (encoder mt_example_eval)" "Encoder_dropout (encoder mt_example_eval) \<le> 1"
    and n: "nat (in_features (gc1 (encoder mt_example_eval))) = 2"
      "nat (out_features (gc2 (encoder mt_example_eval))) = 2"
    by (simp_all add: mt_example_eval_def mt_example_def)
  have perm: "mset [1, 0] = mset [0..<2]" by (simp add: upt_conv_Cons)
  have X: "wf_tensor (Mat 2 (nat (in_features (gc1 (encoder mt_example_eval)))) [[1, 2], [3, 4]])"
    and A: "wf_tensor (Mat 2 2 [[1, 2], [0, 1]])"
    by (simp_all add: n)
  have px0: "mm (perm_matrix [1, 0]) X_example = Inr (Mat 2 2 [[3, 4], [1, 2]])"
    and pa0: "bindE (mm (perm_matrix [1, 0]) (Mat 2 2 [[1, 2], [0, 1]]))
      (\<lambda>PA. mm PA (transpose_tensor (perm_matrix [1, 0]))) = Inr (Mat 2 2 [[1, 0], [2, 1]])"
    and h0: "outcome (Encoder_forward (encoder mt_example_eval) X_example (Mat 2 2 [[1, 2], [0, 1]]) mt_world)
     = Inr (Mat 2 2 [[13, - 8], [3, - 2]])"
    by code_simp+
  note px = px0[folded mm_r_id] and pa = pa0[folded conjugate_r_id] and h = h0[folded Encoder_forward_r_id]
  from Encoder_permutation_equivariant[OF inv mode p perm X A, of id, unfolded n, folded X_example_def]
  obtain PX PAP H H' where
    T: "mm_r id (perm_matrix [1, 0]) X_example = Inr PX"
       "conjugate_r id (perm_matrix [1, 0]) (Mat 2 2 [[1, 2], [0, 1]]) = Inr PAP"
       "Encoder_forward_r id (encoder mt_example_eval) X_example (Mat 2 2 [[1, 2], [0, 1]]) mt_world
          = Inr (Mat 2 2 H, mt_world)"
       "Encoder_forward_r id (encoder mt_example_eval) PX PAP mt_world = Inr (Mat 2 2 H', mt_world)"
       "mm_r id (perm_matrix [1, 0]) (Mat 2 2 H) = Inr (Mat 2 2 H')"
    by auto
  from T(1) px have 1: "PX = Mat 2 2 [[3, 4], [1, 2]]" by simp
  from T(2) pa have 2: "PAP = Mat 2 2 [[1, 0], [2, 1]]" by simp
  from T(3) h have 3: "H = [[13, - 8], [3, - 2]]" by simp
  have ph: "mm_r id (perm_matrix [1, 0]) (Mat 2 2 [[13, - 8], [3, - 2]]) = Inr (Mat 2 2 [[3, - 2], [13, - 8]])"
    unfolding mm_r_id by code_simp
  from T(5) ph 3 have 4: "H' = [[3, - 2], [13, - 8]]" by simp
  from T(3) 3 have h': "Encoder_forward_r id (encoder mt_example_eval) X_example (Mat 2 2 [[1, 2], [0, 1]]) mt_world
     = Inr (Mat 2 2 [[13, - 8], [3, - 2]], mt_world)" by simp
  from T(4) 1 2 4 have "Encoder_forward_r id (encoder mt_example_eval) (Mat 2 2 [[3, 4], [1, 2]])
      (Mat 2 2 [[1, 0], [2, 1]]) mt_world = Inr (Mat 2 2 [[3, - 2], [13, - 8]], mt_world)"
    by simp
  with perm px pa h' ph show ?thesis by blast
qed

subsection \<open>The initial parameters of a GraphConvolution\<close>



subsection \<open>No forward pass writes a parameter\<close>

text \<open>
  Claim C9. Whenever the forward pass of a GraphConvolution, an Encoder, a Discriminator, a
  MultiTask or a SingleTask returns, the parameter store is the one the call started
  with: no weight and no bias has changed. (In training mode the random generator has
  advanced; the store has not.)
\<close>

theorem forward_preserves_parameters:
  "(GraphConvolution_forward gc x adj w = Inr (y1, w1) \<longrightarrow> params w1 = params w) \<and>
   (Encoder_forward e x adj w = Inr (y2, w2) \<longrightarrow> params w2 = params w) \<and>
   (Discriminator_forward d x w = Inr (y3, w3) \<longrightarrow> params w3 = params w) \<and>
   (MultiTask_forward m x adj w = Inr (y4, w4) \<longrightarrow> params w4 = params w) \<and>
   (SingleTask_forward s x adj w = Inr (y5, w5) \<longrightarrow> params w5 = params w)"
  using GraphConvolution_forward_frame[of gc x adj w y1 w1]
    Encoder_forward_frame[of e x adj w y2 w2]
    Discriminator_forward_frame[of d x w y3 w3]
    MultiTask_forward_frame[of m x adj w y4 w4]
    SingleTask_forward_frame[of s x adj w y5 w5]
  by blast

theorem forward_preserves_parameters_witness:
  "(\<exists>y w'. GraphConvolution_forward (gc1 (encoder mt_example)) X_example A_example mt_world = Inr (y, w') \<and>
       params w' = params mt_world) \<and>
   (\<exists>y w'. Encoder_forward (encoder mt_example) X_example A_example mt_world = Inr (y, w') \<and>
       params w' = params mt_world) \<and>
   (\<exists>y w'. Discriminator_forward (dis_neighbor mt_example) X_example mt_world = Inr (y, w') \<and>
       params w' = params mt_world) \<and>
   (\<exists>y w'. MultiTask_forward mt_example X_example A_example mt_world = Inr (y, w') \<and>
       params w' = params mt_world) \<and>
   (\<exists>y w'. SingleTask_forward st_example X_example A_example mt_world = Inr (y, w') \<and>
       params w' = params mt_world)"
proof -
  have X: "wf_tensor (Mat 2 2 [[1, 2], [3, 4]])" and A: "wf_tensor (Mat 2 2 [[0, 1], [1, 0]])"
    by simp_all
  note inv = mt_example_inv
  have ie: "Encoder_inv (encoder mt_example) mt_world"
    and id: "Discriminator_inv (dis_neighbor mt_example) mt_world"
    using inv by (simp_all add: MultiTask_inv_def)
  have ig: "GraphConvolution_inv (gc1 (encoder mt_example)) mt_world"
    using ie by (simp add: Encoder_inv_def)
  from GraphConvolution_forward_formula[OF ig X _ A]
  obtain y1 w1 where 1: "GraphConvolution_forward (gc1 (encoder mt_example)) X_example A_example mt_world = Inr (y1, w1)"
    by (auto simp: mt_example_def X_example_def A_example_def)
  from Encoder_forward_shape[OF ie _ _ X _ A]
  obtain y2 w2 where 2: "Encoder_forward (encoder mt_example) X_example A_example mt_world = Inr (y2, w2)"
    by (auto simp: mt_example_def X_example_def A_example_def)
  from Discriminator_forward_shape[OF id _ _ X]
  obtain y3 w3 where 3: "Discriminator_forward (dis_neighbor mt_example) X_example mt_world = Inr (y3, w3)"
    by (auto simp: mt_example_def X_example_def)
  from MultiTask_forward_shape[OF inv _ _ _ _ _ _ X _ A]
  obtain y4 w4 where 4: "MultiTask_forward mt_example X_example A_example mt_world = Inr (y4, w4)"
    by (auto simp: mt_example_def X_example_def A_example_def)
  from SingleTask_forward_shape[OF st_example_inv _ _ _ _ X _ A]
  obtain y5 w5 where 5: "SingleTask_forward st_example X_example A_example mt_world = Inr (y5, w5)"
    by (auto simp: st_example_def mt_example_def X_example_def A_example_def)
  from forward_preserves_parameters[of "gc1 (encoder mt_example)" X_example A_example mt_world y1 w1
      "encoder mt_example" y2 w2 "dis_neighbor mt_example" y3 w3 mt_example y4 w4 st_example y5 w5]
    1 2 3 4 5
  show ?thesis by blast
qed

subsection \<open>A Discriminator of input width one\<close>

text \<open>
  Claim C10. \<^verbatim>\<open>Discriminator(1, nout, dropout)\<close> is built for every \<open>nout \<ge> 0\<close>; its hidden
  width is \<open>1 div 2 = 0\<close>. With a dropout probability in [0, 1], the forward pass on any
  input of shape (N, 1) returns the matrix of shape (N, nout) whose N rows all are the bias
  vector of \<open>lr2\<close>: the result does not depend on the input. This holds with the training
  flag on or off; with it off, the world is returned as it was.
\<close>

theorem Discriminator_nin_one:
  "(0 \<le> nout \<longrightarrow> \<not> raises (Discriminator_init 1 nout p w0)) \<and>
   (Discriminator_init 1 nout p w0 = Inr (self0, w1) \<and>
    self = self0\<lparr>Discriminator_training := t\<rparr> \<and>
    Discriminator_inv self w \<and> 0 \<le> p \<and> p \<le> 1 \<and> wf_tensor (Mat N 1 X) \<longrightarrow>
      lin_out_features (lr1 self) = 0 \<and> lin_in_features (lr2 self) = 0 \<and>
      (\<exists>b w'. deref w (lin_bias (lr2 self)) = Inr (Vec b) \<and> length b = nat nout \<and>
         (t \<or> w' = w) \<and>
         Discriminator_forward self (Mat N 1 X) w = Inr (Mat N (nat nout) (replicate N b), w')))"
proof (intro conjI impI)
  assume "0 \<le> nout"
  then show "\<not> raises (Discriminator_init 1 nout p w0)"
    by (simp add: Discriminator_init_raises)
next
  assume a: "Discriminator_init 1 nout p w0 = Inr (self0, w1) \<and>
    self = self0\<lparr>Discriminator_training := t\<rparr> \<and>
    Discriminator_inv self w \<and> 0 \<le> p \<and> p \<le> 1 \<and> wf_tensor (Mat N 1 X)"
  then have init: "Discriminator_init 1 nout p w0 = Inr (self0, w1)"
    and mode: "self = self0\<lparr>Discriminator_training := t\<rparr>"
    and inv: "Discriminator_inv self w" and p: "0 \<le> p" "p \<le> 1"
    and X: "wf_tensor (Mat N 1 X)" by blast+
  note r = Discriminator_init_result[OF init]
  have f: "lin_in_features (lr1 self) = 1" "lin_out_features (lr1 self) = 0"
    "lin_in_features (lr2 self) = 0" "lin_out_features (lr2 self) = nout"
    "Discriminator_dropout self = p" "Discriminator_training self = t"
    using r(1) mode by simp_all
  show "lin_out_features (lr1 self) = 0" "lin_in_features (lr2 self) = 0" using f by simp_all
  have F: "int 1 = lin_in_features (lr1 self)" using f by simp
  from Discriminator_forward_last[OF inv _ _ X F] p f obtain H w' where
    H: "wf_tensor (Mat N 0 H)" "params w' = params w" "t \<or> w' = w"
       "Discriminator_forward self (Mat N 1 X) w = Linear_forward (lr2 self) (Mat N 0 H) w'"
    by auto
  from inv have i2: "Linear_inv (lr2 self) w'"
    by (simp add: Discriminator_inv_def Linear_inv_cong[OF H(2)])
  have F2: "int 0 = lin_in_features (lr2 self)" using f by simp
  from Linear_forward_formula[OF i2 H(1) F2] f obtain Y where
    Y: "Linear_forward (lr2 self) (Mat N 0 H) w' = Inr (Mat N (nat nout) Y, w')"
       "wf_tensor (Mat N (nat nout) Y)"
       "\<And>i j. i < N \<Longrightarrow> j < nat nout \<Longrightarrow> Y ! i ! j = lin_bias_of (lr2 self) w' ! j"
    by auto
  from Linear_inv_bias[OF i2] f obtain b where
    b: "deref w' (lin_bias (lr2 self)) = Inr (Vec b)" "length b = nat nout" by auto
  have bof: "lin_bias_of (lr2 self) w' = b" using b by (simp add: lin_bias_of_def)
  have bw: "deref w (lin_bias (lr2 self)) = Inr (Vec b)"
    using b(1) deref_cong[OF H(2)] by simp
  from Y(2) have lY: "length Y = N" "\<And>i. i < N \<Longrightarrow> length (Y ! i) = nat nout"
    by (auto simp: list_all_length)
  have "Y = replicate N b"
  proof (rule nth_equalityI)
    show "length Y = length (replicate N b)" using lY by simp
  next
    fix i assume "i < length Y"
    then have i: "i < N" using lY by simp
    have "Y ! i = b"
      by (rule nth_equalityI) (use i lY b Y(3) bof in simp_all)
    then show "Y ! i = replicate N b ! i" using i by simp
  qed
  with Y(1) H(3,4) bw b(2)
  show "\<exists>b w'. deref w (lin_bias (lr2 self)) = Inr (Vec b) \<and> length b = nat nout \<and>
         (t \<or> w' = w) \<and>
         Discriminator_forward self (Mat N 1 X) w = Inr (Mat N (nat nout) (replicate N b), w')"
    by (intro exI[of _ b] exI[of _ w']) simp
qed

theorem Discriminator_nin_one_witness:
  "\<not> raises (Discriminator_init 1 2 (1/2) world0) \<and>
   lin_out_features (lr1 d1_example) = 0 \<and>
   Discriminator_forward d1_example (Mat 3 1 [[1], [2], [3]]) d1_world
     = Inr (Mat 3 2 [[5, - 3], [5, - 3], [5, - 3]], d1_world)"
proof -
  from d1_example_init obtain self0 w1 where
    init: "Discriminator_init 1 2 (1/2) world0 = Inr (self0, w1)"
    and mode: "d1_example = self0\<lparr>Discriminator_training := False\<rparr>" by blast
  have X: "wf_tensor (Mat 3 1 [[1], [2], [3]])" by simp
  have p: "(0::real) \<le> 1/2" "(1/2::real) \<le> 1" "(0::int) \<le> 2" by simp_all
  have b: "deref d1_world (lin_bias (lr2 d1_example)) = Inr (Vec [5, - 3])"
    by (simp add: d1_example_def d1_world_def deref_def)
  note T = Discriminator_nin_one[of 2 "1/2" world0 self0 w1 d1_example False d1_world 3 "[[1], [2], [3]]"]
  from T p have 1: "\<not> raises (Discriminator_init 1 2 (1/2) world0)" by blast
  from T init mode d1_example_inv p X have 2: "lin_out_features (lr1 d1_example) = 0"
    and "\<exists>b w'. deref d1_world (lin_bias (lr2 d1_example)) = Inr (Vec b) \<and> length b = nat 2 \<and>
         (False \<or> w' = d1_world) \<and>
         Discriminator_forward d1_example (Mat 3 1 [[1], [2], [3]]) d1_world
           = Inr (Mat 3 (nat 2) (replicate 3 b), w')"
    by blast+
  with b have 3: "Discriminator_forward d1_example (Mat 3 1 [[1], [2], [3]]) d1_world
     = Inr (Mat 3 2 [[5, - 3], [5, - 3], [5, - 3]], d1_world)"
    by (auto simp: numeral_3_eq_3)
  from 1 2 3 show ?thesis by blast
qed

end
